(* ===== verification/Prelude.thy ===== *)
theory Prelude
  imports Main "HOL-Library.Word" "HOL-Library.List_Lexorder" "HOL-Library.Char_ord"
    "HOL-Library.Sublist" "HOL-Library.Multiset"
begin

text \<open>
  Shared vocabulary of the development: the outcome of a piece of Go code, the
  state-passing form of Go code with effects, the parts of Go's \<open>strings\<close>, \<open>strconv\<close>
  and \<open>fmt\<close> the operator uses, 32-bit integers, and the generic list lemmas and
  \<open>named_theorems\<close> collections the component theories share.
\<close>

section \<open>Collections\<close>

named_theorems go_simps \<open>equations that evaluate binds, lookups and lifts of Go code\<close>
named_theorems emits_intros \<open>introduction rules of the effect discipline\<close>
named_theorems quiet_intros \<open>introduction rules for code that leaves the objects alone\<close>

section \<open>Outcomes of Go code\<close>

text \<open>
  A Go function returns a value (its error result, if any, is part of the value), panics
  (nil dereference, index out of range), or never returns.
\<close>

datatype 'a outcome = Ret 'a | Panic | Diverge

fun obnd :: "'a outcome \<Rightarrow> ('a \<Rightarrow> 'b outcome) \<Rightarrow> 'b outcome" where
  "obnd (Ret x) f = f x"
| "obnd Panic f = Panic"
| "obnd Diverge f = Diverge"

lemma obnd_Ret_iff: "obnd m f = Ret y \<longleftrightarrow> (\<exists>x. m = Ret x \<and> f x = Ret y)"
  by (cases m) auto

lemma obnd_Panic_iff: "obnd m f = Panic \<longleftrightarrow> m = Panic \<or> (\<exists>x. m = Ret x \<and> f x = Panic)"
  by (cases m) auto

lemma obnd_Ret_right: "obnd m Ret = m"
  by (cases m) auto

lemma obnd_assoc: "obnd (obnd m f) g = obnd m (\<lambda>x. obnd (f x) g)"
  by (cases m) auto

text \<open>Pointer dereference and slice indexing; both panic outside their domain.\<close>

fun deref :: "'a option \<Rightarrow> 'a outcome" where
  "deref (Some x) = Ret x"
| "deref None = Panic"

definition idx :: "'a list \<Rightarrow> nat \<Rightarrow> 'a outcome" where
  "idx xs i = (if i < length xs then Ret (xs ! i) else Panic)"

text \<open>The slice expressions \<open>xs[:n]\<close> and \<open>xs[n:]\<close> with Go's bounds check.\<close>

definition sliceTo :: "'a list \<Rightarrow> int \<Rightarrow> 'a list outcome" where
  "sliceTo xs n = (if 0 \<le> n \<and> n \<le> int (length xs) then Ret (take (nat n) xs) else Panic)"

definition sliceFrom :: "'a list \<Rightarrow> int \<Rightarrow> 'a list outcome" where
  "sliceFrom xs n = (if 0 \<le> n \<and> n \<le> int (length xs) then Ret (drop (nat n) xs) else Panic)"

text \<open>\<open>append(xs[:i], xs[i+1:]...)\<close> for an index \<open>i\<close> in range.\<close>

definition removeAt :: "nat \<Rightarrow> 'a list \<Rightarrow> 'a list" where
  "removeAt i xs = take i xs @ drop (Suc i) xs"

lemma idx_in_range [go_simps]: "i < length xs \<Longrightarrow> idx xs i = Ret (xs ! i)"
  by (simp add: idx_def)

lemma idx_out_of_range [go_simps]: "length xs \<le> i \<Longrightarrow> idx xs i = Panic"
  by (simp add: idx_def)

lemma idx_Cons_0 [simp]: "idx (x # xs) 0 = Ret x"
  by (simp add: idx_def)

lemma idx_Nil [simp]: "idx [] i = Panic"
  by (simp add: idx_def)

lemma idx_Ret_iff: "idx xs i = Ret x \<longleftrightarrow> i < length xs \<and> x = xs ! i"
  by (auto simp: idx_def)

lemma mset_removeAt: "i < length xs \<Longrightarrow> add_mset (xs ! i) (mset (removeAt i xs)) = mset xs"
proof -
  assume i: "i < length xs"
  have "mset xs = mset (take i xs @ xs ! i # drop (Suc i) xs)"
    by (simp only: id_take_nth_drop [OF i, symmetric])
  then show ?thesis by (simp add: removeAt_def)
qed

lemma length_removeAt: "i < length xs \<Longrightarrow> length (removeAt i xs) = length xs - 1"
  by (simp add: removeAt_def)

lemma set_removeAt_subset: "set (removeAt i xs) \<subseteq> set xs"
  by (auto simp: removeAt_def dest: in_set_takeD in_set_dropD)

lemma removeAt_Cons_0 [simp]: "removeAt 0 (x # xs) = xs"
  by (simp add: removeAt_def)

lemma removeAt_Cons_Suc [simp]: "removeAt (Suc i) (x # xs) = x # removeAt i xs"
  by (simp add: removeAt_def)

section \<open>State-passing Go code\<close>

text \<open>
  Effectful code takes the state and gives its outcome with the state it leaves behind; a
  panic keeps the effects performed before it.
\<close>

type_synonym ('a, 's) go = "'s \<Rightarrow> 'a outcome \<times> 's"

definition ret :: "'a \<Rightarrow> ('a, 's) go" where
  "ret x s = (Ret x, s)"

definition bnd :: "('a, 's) go \<Rightarrow> ('a \<Rightarrow> ('b, 's) go) \<Rightarrow> ('b, 's) go" where
  "bnd m f s = (case m s of
      (Ret x, s') \<Rightarrow> f x s'
    | (Panic, s') \<Rightarrow> (Panic, s')
    | (Diverge, s') \<Rightarrow> (Diverge, s'))"

definition lift :: "'a outcome \<Rightarrow> ('a, 's) go" where
  "lift r s = (r, s)"

lemma bnd_Ret [go_simps]: "m s = (Ret x, s') \<Longrightarrow> bnd m f s = f x s'"
  by (simp add: bnd_def)

lemma bnd_Panic [go_simps]: "m s = (Panic, s') \<Longrightarrow> bnd m f s = (Panic, s')"
  by (simp add: bnd_def)

lemma bnd_ret [simp]: "bnd (ret x) f = f x"
  by (rule ext) (simp add: bnd_def ret_def)

lemma bnd_lift_Ret [simp]: "bnd (lift (Ret x)) f = f x"
  by (rule ext) (simp add: bnd_def lift_def)

lemma bnd_lift_Panic [simp]: "bnd (lift Panic) f = lift Panic"
  by (rule ext) (simp add: bnd_def lift_def)

lemma bnd_assoc: "bnd (bnd m f) g = bnd m (\<lambda>x. bnd (f x) g)"
  by (rule ext) (auto simp: bnd_def split: prod.splits outcome.splits)

lemma ret_apply [go_simps]: "ret x s = (Ret x, s)"
  by (simp add: ret_def)

lemma lift_apply [go_simps]: "lift r s = (r, s)"
  by (simp add: lift_def)

lemma lift_Ret [simp]: "lift (Ret x) = ret x"
  by (rule ext) (simp add: lift_def ret_def)

lemma bnd_Ret_iff:
  "bnd m f s = (Ret y, t) \<longleftrightarrow> (\<exists>x u. m s = (Ret x, u) \<and> f x u = (Ret y, t))"
  by (auto simp: bnd_def split: prod.splits outcome.splits)

section \<open>Go strings\<close>

text \<open>
  A Go string is a sequence of bytes, as is a HOL \<open>string\<close>. \<open>strings.Contains\<close>,
  \<open>strings.Split\<close> for a one-byte separator, \<open>strings.Fields\<close> (its ASCII path) and
  \<open>strings.Join\<close>.
\<close>

abbreviation nl :: char where "nl \<equiv> CHR 0x0A"

fun contains :: "string \<Rightarrow> string \<Rightarrow> bool" where
  "contains [] sub = (sub = [])"
| "contains (c # cs) sub = (prefix sub (c # cs) \<or> contains cs sub)"

fun splitOn :: "char \<Rightarrow> string \<Rightarrow> string list" where
  "splitOn c [] = [[]]"
| "splitOn c (x # xs) =
     (if x = c then [] # splitOn c xs
      else (case splitOn c xs of w # ws \<Rightarrow> (x # w) # ws | [] \<Rightarrow> [[x]]))"

definition isSpace :: "char \<Rightarrow> bool" where
  "isSpace c \<longleftrightarrow> c \<in> {CHR 0x09, CHR 0x0A, CHR 0x0B, CHR 0x0C, CHR 0x0D, CHR 0x20}"

fun fieldsAux :: "string \<Rightarrow> string \<Rightarrow> string list" where
  "fieldsAux cur [] = (if cur = [] then [] else [cur])"
| "fieldsAux cur (c # cs) =
     (if isSpace c then (if cur = [] then fieldsAux [] cs else cur # fieldsAux [] cs)
      else fieldsAux (cur @ [c]) cs)"

definition stringsFields :: "string \<Rightarrow> string list" where
  "stringsFields s = fieldsAux [] s"

fun join :: "string \<Rightarrow> string list \<Rightarrow> string" where
  "join sep [] = []"
| "join sep [w] = w"
| "join sep (w # ws) = w @ sep @ join sep ws"

lemma contains_sublist: "contains s sub \<longleftrightarrow> sublist sub s"
  by (induction s) (auto simp: sublist_Cons_right)

lemma splitOn_not_Nil [simp]: "splitOn c s \<noteq> []"
  by (cases s) (auto split: list.splits)

lemma join_Cons: "ws \<noteq> [] \<Longrightarrow> join sep (w # ws) = w @ sep @ join sep ws"
  by (cases ws) auto

lemma join_splitOn: "join [c] (splitOn c s) = s"
proof (induction s)
  case Nil
  then show ?case by simp
next
  case (Cons x xs)
  obtain w ws where w: "splitOn c xs = w # ws"
    by (cases "splitOn c xs") auto
  show ?case
    using Cons.IH by (cases ws) (auto simp: w join_Cons)
qed

lemma splitOn_no_sep: "c \<notin> set s \<Longrightarrow> splitOn c s = [s]"
  by (induction s) auto

lemma splitOn_append_sep: "c \<notin> set w \<Longrightarrow> splitOn c (w @ c # s) = w # splitOn c s"
  by (induction w) auto

lemma splitOn_join:
  assumes "ws \<noteq> []" and "\<forall>w\<in>set ws. c \<notin> set w"
  shows "splitOn c (join [c] ws) = ws"
  using assms
proof (induction ws)
  case Nil
  then show ?case by simp
next
  case (Cons w ws)
  then show ?case
    by (cases "ws = []") (auto simp: join_Cons splitOn_no_sep splitOn_append_sep)
qed

text \<open>A word, as \<open>strings.Fields\<close> delivers them.\<close>

definition isWord :: "string \<Rightarrow> bool" where
  "isWord w \<longleftrightarrow> w \<noteq> [] \<and> (\<forall>c\<in>set w. \<not> isSpace c)"

lemma fieldsAux_word:
  "\<forall>c\<in>set w. \<not> isSpace c \<Longrightarrow> fieldsAux cur (w @ s) = fieldsAux (cur @ w) s"
  by (induction w arbitrary: cur) auto

lemma fieldsAux_join:
  assumes "\<forall>w\<in>set ws. isWord w"
  shows "fieldsAux [] (join '' '' ws) = ws"
  using assms
proof (induction ws)
  case Nil
  then show ?case by simp
next
  case (Cons w ws)
  have w: "w \<noteq> []" "\<forall>c\<in>set w. \<not> isSpace c"
    using Cons.prems by (auto simp: isWord_def)
  show ?case
  proof (cases "ws = []")
    case True
    then show ?thesis
      using w fieldsAux_word [of w "[]" "[]"] by simp
  next
    case False
    then show ?thesis
      using w Cons by (simp add: join_Cons fieldsAux_word isSpace_def)
  qed
qed

lemma fields_join: "\<forall>w\<in>set ws. isWord w \<Longrightarrow> stringsFields (join '' '' ws) = ws"
  by (simp add: stringsFields_def fieldsAux_join)

lemma fieldsAux_words:
  assumes "\<forall>c\<in>set cur. \<not> isSpace c" and "w \<in> set (fieldsAux cur s)"
  shows "isWord w"
  using assms
proof (induction s arbitrary: cur)
  case Nil
  then show ?case by (simp add: isWord_def split: if_splits)
next
  case (Cons c s)
  show ?case
  proof (cases "isSpace c")
    case True
    show ?thesis
      using Cons.prems Cons.IH [of "[]"] True by (simp add: isWord_def split: if_splits) blast
  next
    case False
    show ?thesis
      using Cons.prems Cons.IH [of "cur @ [c]"] False by simp
  qed
qed

lemma fields_words: "w \<in> set (stringsFields s) \<Longrightarrow> isWord w"
  using fieldsAux_words [of "[]" w s] by (simp add: stringsFields_def)

section \<open>Decimal numbers\<close>

definition isDigit :: "char \<Rightarrow> bool" where
  "isDigit c \<longleftrightarrow> 48 \<le> (of_char c :: nat) \<and> (of_char c :: nat) \<le> 57"

definition digitChar :: "nat \<Rightarrow> char" where
  "digitChar d = char_of (48 + d)"

fun showNat :: "nat \<Rightarrow> string" where
  "showNat n = (if n < 10 then [digitChar n] else showNat (n div 10) @ [digitChar (n mod 10)])"

declare showNat.simps [simp del]

definition showInt :: "int \<Rightarrow> string" where
  "showInt i = (if i < 0 then ''-'' @ showNat (nat (- i)) else showNat (nat i))"

definition readNat :: "string \<Rightarrow> nat" where
  "readNat s = foldl (\<lambda>n c. 10 * n + (of_char c - 48)) 0 s"

lemma digitChar_simps [simp]:
  "digitChar 0 = CHR ''0''"
  "digitChar 1 = CHR ''1''"
  "digitChar 2 = CHR ''2''"
  "digitChar 3 = CHR ''3''"
  "digitChar 4 = CHR ''4''"
  "digitChar 5 = CHR ''5''"
  "digitChar 6 = CHR ''6''"
  "digitChar 7 = CHR ''7''"
  "digitChar 8 = CHR ''8''"
  "digitChar 9 = CHR ''9''"
  "digitChar (Suc 0) = CHR ''1''"
  by code_simp+

lemma of_char_digitChar: "d < 10 \<Longrightarrow> (of_char (digitChar d) :: nat) = 48 + d"
  by (simp add: digitChar_def)

lemma isDigit_digitChar [simp]: "d < 10 \<Longrightarrow> isDigit (digitChar d)"
  by (simp add: isDigit_def of_char_digitChar)

lemma showNat_digits: "\<forall>c\<in>set (showNat n). isDigit c"
proof (induction n rule: showNat.induct)
  case (1 n)
  then show ?case by (subst showNat.simps) auto
qed

lemma showNat_not_Nil [simp]: "showNat n \<noteq> []"
  by (subst showNat.simps) simp

lemma readNat_snoc: "readNat (s @ [c]) = 10 * readNat s + (of_char c - 48)"
  by (simp add: readNat_def)

lemma readNat_showNat [simp]: "readNat (showNat n) = n"
proof (induction n rule: showNat.induct)
  case (1 n)
  show ?case
  proof (cases "n < 10")
    case True
    then show ?thesis
      by (subst showNat.simps) (simp add: readNat_def of_char_digitChar)
  next
    case False
    then show ?thesis
      using 1 by (subst showNat.simps) (simp add: readNat_snoc of_char_digitChar)
  qed
qed

text \<open>
  \<open>strconv.Atoi\<close> on a string of digits: out of range it returns the largest 64-bit value
  together with an error.
\<close>

definition maxInt64 :: int where "maxInt64 = 2 ^ 63 - 1"

definition atoiDigits :: "string \<Rightarrow> int" where
  "atoiDigits s = min (int (readNat s)) maxInt64"

section \<open>Formatting\<close>

text \<open>\<open>%v\<close> of a string slice and of a boolean.\<close>

definition fmtStrings :: "string list \<Rightarrow> string" where
  "fmtStrings ws = ''['' @ join '' '' ws @ '']''"

definition fmtBool :: "bool \<Rightarrow> string" where
  "fmtBool b = (if b then ''true'' else ''false'')"

section \<open>Errors\<close>

text \<open>
  An error value: one made by \<open>fmt.Errorf\<close> or by a library (its text), or an API status
  error whose reason the operator tests (\<open>errors.IsNotFound\<close>,
  \<open>errors.IsAlreadyExists\<close>). A nil error is \<open>None\<close>.
\<close>

datatype gerr = Err string | NotFoundErr string | AlreadyExistsErr string

type_synonym error = "gerr option"

fun errText :: "gerr \<Rightarrow> string" where
  "errText (Err m) = m"
| "errText (NotFoundErr m) = m"
| "errText (AlreadyExistsErr m) = m"

fun fmtError :: "error \<Rightarrow> string" where
  "fmtError None = ''<nil>''"
| "fmtError (Some e) = errText e"

fun isNotFound :: "error \<Rightarrow> bool" where
  "isNotFound (Some (NotFoundErr m)) = True"
| "isNotFound _ = False"

fun isAlreadyExists :: "error \<Rightarrow> bool" where
  "isAlreadyExists (Some (AlreadyExistsErr m)) = True"
| "isAlreadyExists _ = False"

section \<open>32-bit and 64-bit integers\<close>

type_synonym int32 = "32 word"
type_synonym int64 = "64 word"

definition lenInt32 :: "'a list \<Rightarrow> int32" where
  "lenInt32 xs = word_of_nat (length xs)"

text \<open>Go's signed comparison and its truncating division on \<open>int32\<close>.\<close>

definition leInt32 :: "int32 \<Rightarrow> int32 \<Rightarrow> bool" where
  "leInt32 a b \<longleftrightarrow> sint a \<le> sint b"

definition halfInt32 :: "int32 \<Rightarrow> int32" where
  "halfInt32 a = word_of_int (sgn (sint a) * (\<bar>sint a\<bar> div 2))"

lemma lenInt32_sint:
  assumes "length xs < 2 ^ 31"
  shows "sint (lenInt32 xs) = int (length xs)"
proof -
  have "signed_take_bit 31 (int (length xs)) = int (length xs)"
    using assms by (intro signed_take_bit_int_eq_self) auto
  then show ?thesis by (simp add: lenInt32_def signed_of_nat)
qed

lemma lenInt32_inject:
  assumes "length xs < 2 ^ 31" and "length ys < 2 ^ 31"
  shows "lenInt32 xs = lenInt32 ys \<longleftrightarrow> length xs = length ys"
proof
  assume "lenInt32 xs = lenInt32 ys"
  then have "sint (lenInt32 xs) = sint (lenInt32 ys)" by simp
  then show "length xs = length ys" using assms by (simp add: lenInt32_sint)
qed (simp add: lenInt32_def)

end
