(* ===== verification/ApiTypes.thy ===== *)
theory ApiTypes
  imports Prelude
begin

text \<open>
  The data of the operator: the RedisCluster resource of
  \<^verbatim>\<open>pkg/apis/redis/v1alpha1/types.go\<close>, the node and instance records of
  \<^verbatim>\<open>pkg/operator/redis/types.go\<close>, the constants of both files and of
  \<^verbatim>\<open>redis_operator.go\<close>, and the fields of the Kubernetes objects the operator reads or
  writes. A Go pointer that may be nil and a slice or map whose nilness the code tests is an
  \<open>option\<close>. Values the operator only copies (resources, affinity, update strategy) are carried
  as opaque text.
\<close>

section \<open>The RedisCluster resource\<close>

abbreviation MiddlewareRedisTypeKey :: string where
  "MiddlewareRedisTypeKey \<equiv> ''redis.middleware.hc.cn''"

abbreviation MiddlewareRedisClustersPrefix :: string where
  "MiddlewareRedisClustersPrefix \<equiv> ''redisclusters-''"

text \<open>String enumerations: update strategies, condition types, phases.\<close>

type_synonym RedisClusterUpdateStrategyType = string

abbreviation AssignReceiveStrategyType :: RedisClusterUpdateStrategyType where
  "AssignReceiveStrategyType \<equiv> ''AssignReceive''"

abbreviation AutoReceiveStrategyType :: RedisClusterUpdateStrategyType where
  "AutoReceiveStrategyType \<equiv> ''AutoReceive''"

type_synonym RedisClusterConditionType = string

abbreviation MasterConditionType :: RedisClusterConditionType where
  "MasterConditionType \<equiv> ''master''"

abbreviation SlaveConditionType :: RedisClusterConditionType where
  "SlaveConditionType \<equiv> ''slave''"

type_synonym RedisClusterPhase = string

abbreviation RedisClusterUpgrading :: RedisClusterPhase where
  "RedisClusterUpgrading \<equiv> ''Upgrading''"

abbreviation RedisClusterNone :: RedisClusterPhase where
  "RedisClusterNone \<equiv> ''None''"

abbreviation RedisClusterCreating :: RedisClusterPhase where
  "RedisClusterCreating \<equiv> ''Creating''"

abbreviation RedisClusterRunning :: RedisClusterPhase where
  "RedisClusterRunning \<equiv> ''Running''"

abbreviation RedisClusterFailed :: RedisClusterPhase where
  "RedisClusterFailed \<equiv> ''Failed''"

abbreviation RedisClusterScaling :: RedisClusterPhase where
  "RedisClusterScaling \<equiv> ''Scaling''"

abbreviation RedisClusterDeleting :: RedisClusterPhase where
  "RedisClusterDeleting \<equiv> ''Deleting''"

type_synonym opaque = string
type_synonym stringMap = "string \<rightharpoonup> string"

text \<open>\<open>v1.EnvVar\<close>: a literal value, or a reference to a field of the pod.\<close>

datatype EnvVar =
    EnvValue (envName: string) (envValue: string)
  | EnvFieldRef (envName: string) (envApiVersion: string) (envFieldPath: string)

text \<open>\<open>env.Value\<close>: empty for a variable defined by reference.\<close>

fun envLiteral :: "EnvVar \<Rightarrow> string" where
  "envLiteral (EnvValue n v) = v"
| "envLiteral (EnvFieldRef n a p) = []"

record SlotsAssignStrategy =
  sasSlots :: "int32 option"
  sasFromReplicas :: string

record RedisClusterUpdateStrategy =
  usType :: RedisClusterUpdateStrategyType
  usPipeline :: string
  usAssignStrategies :: "SlotsAssignStrategy list"

record RedisClusterPodVolume =
  pvType :: string
  pvPersistentVolumeClaimName :: string

record RedisClusterPodTemplateSpec =
  ptConfigmap :: string
  ptMonitorImage :: string
  ptInitImage :: string
  ptMiddlewareImage :: string
  ptVolumes :: RedisClusterPodVolume
  ptEnv :: "EnvVar list"
  ptResources :: opaque
  ptAffinity :: "opaque option"
  ptAnnotations :: "stringMap option"
  ptLabels :: "stringMap option"
  ptUpdateStrategy :: opaque

record RedisClusterSpec =
  spReplicas :: "int32 option"
  spPause :: bool
  spFinalizers :: string
  spRepository :: string
  spVersion :: string
  spUpdateStrategy :: RedisClusterUpdateStrategy
  spPod :: "RedisClusterPodTemplateSpec list"

record RedisClusterCondition =
  cdName :: string
  cdType :: RedisClusterConditionType
  cdInstance :: string
  cdNodeId :: string
  cdMasterNodeId :: string
  cdDomainName :: string
  cdSlots :: string
  cdHostname :: string
  cdHostIP :: string
  cdStatus :: string
  cdLastTransitionTime :: nat
  cdReason :: string
  cdMessage :: string

record RedisClusterStatus =
  stReplicas :: int32
  stReason :: string
  stPhase :: RedisClusterPhase
  stConditions :: "RedisClusterCondition list"

record RedisCluster =
  rcName :: string
  rcNamespace :: string
  rcUID :: string
  rcResourceVersion :: string
  rcSpec :: RedisClusterSpec
  rcStatus :: RedisClusterStatus

text \<open>The zero values of Go's \<open>var tempStatus RedisClusterStatus\<close> and of a fresh condition.\<close>

definition zeroStatus :: RedisClusterStatus where
  "zeroStatus = \<lparr>stReplicas = 0, stReason = [], stPhase = [], stConditions = []\<rparr>"

definition zeroCondition :: RedisClusterCondition where
  "zeroCondition = \<lparr>cdName = [], cdType = [], cdInstance = [], cdNodeId = [],
     cdMasterNodeId = [], cdDomainName = [], cdSlots = [], cdHostname = [], cdHostIP = [],
     cdStatus = [], cdLastTransitionTime = 0, cdReason = [], cdMessage = []\<rparr>"

section \<open>Operator-side records\<close>

abbreviation masterFlagType :: string where "masterFlagType \<equiv> ''master''"
abbreviation slaveFlagType :: string where "slaveFlagType \<equiv> ''slave''"
abbreviation clusterStatusOK :: string where "clusterStatusOK \<equiv> ''cluster_state:ok''"
abbreviation clusterStateFailed :: string where "clusterStateFailed \<equiv> ''cluster state failed''"

record redisNodeInfo =
  niNodeId :: string
  niIpPort :: string
  niFlags :: string
  niMaster :: string
  niPingSent :: string
  niPongRecv :: string
  niConfigEpoch :: string
  niLinkState :: string
  niSlot :: string

record instanceInfo =
  iiInstanceIP :: string
  iiHostName :: string
  iiHostIP :: string
  iiNodeName :: string
  iiDomainName :: string

definition zeroInstanceInfo :: instanceInfo where
  "zeroInstanceInfo = \<lparr>iiInstanceIP = [], iiHostName = [], iiHostIP = [], iiNodeName = [],
     iiDomainName = []\<rparr>"

record redisTribInfo =
  tiIp :: string
  tiPort :: string
  tiNodeIdPrefix :: string
  tiKeys :: int
  tiSlots :: int
  tiSlaves :: int

definition maxRetries :: nat where "maxRetries = 15"
definition redisServicePort6379 :: int where "redisServicePort6379 = 6379"
definition redisExporterPort9105 :: int where "redisExporterPort9105 = 9105"
definition redisServicePort16379 :: int where "redisServicePort16379 = 16379"

abbreviation pauseKey :: string where "pauseKey \<equiv> ''pause.middleware.harmonycloud.cn''"
abbreviation defaultPipeline :: string where "defaultPipeline \<equiv> ''10''"
abbreviation redisContainerName :: string where "redisContainerName \<equiv> ''redis-cluster''"

text \<open>\<open>controllerKind\<close>: group, version and kind of the resource.\<close>

abbreviation GroupName :: string where "GroupName \<equiv> ''redis.middleware.hc.cn''"
abbreviation GroupVersion :: string where "GroupVersion \<equiv> ''v1alpha1''"
abbreviation controllerKindName :: string where "controllerKindName \<equiv> ''RedisCluster''"

datatype handleClusterType = createClusterFlag | upgradeClusterFlag | dropClusterFlag

section \<open>Kubernetes objects\<close>

record ObjectReference =
  orName :: string
  orNamespace :: string

record EndpointAddress =
  eaIP :: string
  eaNodeName :: "string option"
  eaTargetRef :: "ObjectReference option"

text \<open>\<open>Subsets\<close> is \<open>None\<close> when the Go slice is nil; a subset is its \<open>Addresses\<close>.\<close>

record Endpoints =
  epName :: string
  epNamespace :: string
  epSubsets :: "EndpointAddress list list option"

definition emptyEndpoints :: Endpoints where
  "emptyEndpoints = \<lparr>epName = [], epNamespace = [], epSubsets = None\<rparr>"

text \<open>A node: its name and its addresses as (type, address) pairs.\<close>

record K8sNode =
  ndName :: string
  ndAddresses :: "(string \<times> string) list"

record OwnerReference =
  owAPIVersion :: string
  owKind :: string
  owName :: string
  owUID :: string
  owBlockOwnerDeletion :: bool
  owController :: bool

record ObjectMeta =
  omName :: string
  omNamespace :: string
  omAnnotations :: stringMap
  omLabels :: stringMap
  omOwnerReferences :: "OwnerReference list"

record ServicePort =
  svName :: string
  svPort :: int
  svTargetPort :: int

record K8sService =
  svcMeta :: ObjectMeta
  svcClusterIP :: string
  svcPorts :: "ServicePort list"
  svcSelector :: stringMap

record Probe =
  pbCommand :: "string list"
  pbInitialDelaySeconds :: int32
  pbTimeoutSeconds :: int32
  pbPeriodSeconds :: int32
  pbSuccessThreshold :: int32
  pbFailureThreshold :: int32

record VolumeMount =
  vmName :: string
  vmMountPath :: string
  vmSubPath :: string

record Container =
  ctCommand :: "string list"
  ctImage :: string
  ctImagePullPolicy :: string
  ctEnv :: "EnvVar list"
  ctName :: string
  ctPorts :: "(string \<times> int) list"
  ctLivenessProbe :: "Probe option"
  ctReadinessProbe :: "Probe option"
  ctResources :: opaque
  ctVolumeMounts :: "VolumeMount list"

datatype Volume =
    ConfigMapVolume (volName: string) (volDefaultMode: int32) (volConfigMap: string)
  | ClaimVolume (volName: string) (volClaim: string)

record PodTemplate =
  tplLabels :: stringMap
  tplAnnotations :: "stringMap option"
  tplContainers :: "Container list"
  tplDNSPolicy :: string
  tplInitContainers :: "Container list"
  tplRestartPolicy :: string
  tplAffinity :: "opaque option"
  tplVolumes :: "Volume list"

text \<open>
  A StatefulSet: metadata, specification, and the parts of the status and of the live metadata
  the operator reads (\<open>Status.Replicas\<close>, \<open>DeletionTimestamp\<close>, \<open>ResourceVersion\<close>).
\<close>

record StatefulSet =
  ssMeta :: ObjectMeta
  ssResourceVersion :: string
  ssDeletionTimestamp :: "nat option"
  ssUpdateStrategy :: opaque
  ssReplicas :: "int32 option"
  ssRevisionHistoryLimit :: int32
  ssSelector :: stringMap
  ssServiceName :: string
  ssTemplate :: PodTemplate
  ssStatusReplicas :: int32
  ssStatusRest :: opaque

lemmas status_zero_simps [simp] = zeroStatus_def zeroCondition_def

end
