(* ===== verification/GoRegex.thy ===== *)
theory GoRegex
  imports Prelude
begin

text \<open>
  The part of Go's \<open>regexp\<close> the operator's two patterns need: a concatenation of one-byte
  classes and of captured greedy repetitions \<open>(c+)\<close>, searched leftmost-first with greedy
  repetitions preferred, as \<open>FindStringSubmatch\<close> does. The matcher is executable; the
  inductive relation \<open>matches\<close> says what a match is, and the lemmas relate the two.
\<close>

datatype charClass = Lit char | Digit | DigitDot | WordChar | AnyNoNL

fun inClass :: "charClass \<Rightarrow> char \<Rightarrow> bool" where
  "inClass (Lit c) x = (x = c)"
| "inClass Digit x = isDigit x"
| "inClass DigitDot x = (isDigit x \<or> x = CHR ''.'')"
| "inClass WordChar x =
     (isDigit x \<or> x = CHR ''_'' \<or> (65 \<le> (of_char x :: nat) \<and> (of_char x :: nat) \<le> 90)
      \<or> (97 \<le> (of_char x :: nat) \<and> (of_char x :: nat) \<le> 122))"
| "inClass AnyNoNL x = (x \<noteq> nl)"

datatype reItem = One charClass | Many charClass

definition lits :: "string \<Rightarrow> reItem list" where
  "lits p = map (\<lambda>c. One (Lit c)) p"

fun firstSome :: "('a \<Rightarrow> 'b option) \<Rightarrow> 'a list \<Rightarrow> 'b option" where
  "firstSome f [] = None"
| "firstSome f (x # xs) = (case f x of Some y \<Rightarrow> Some y | None \<Rightarrow> firstSome f xs)"

text \<open>A match at the start of the text: the captures and the text after the match.\<close>

fun matchHere :: "reItem list \<Rightarrow> string \<Rightarrow> (string list \<times> string) option" where
  "matchHere [] s = Some ([], s)"
| "matchHere (One c # r) s =
     (case s of [] \<Rightarrow> None | x # xs \<Rightarrow> if inClass c x then matchHere r xs else None)"
| "matchHere (Many c # r) s =
     firstSome (\<lambda>k. map_option (\<lambda>(caps, rest). (take k s # caps, rest)) (matchHere r (drop k s)))
       (rev [1..<Suc (length (takeWhile (inClass c) s))])"

text \<open>
  \<open>FindStringSubmatch\<close>: nil (here \<open>[]\<close>) without a match, else the matched text followed by
  the captures.
\<close>

fun findStringSubmatch :: "reItem list \<Rightarrow> string \<Rightarrow> string list" where
  "findStringSubmatch r [] =
     (case matchHere r [] of Some (caps, rest) \<Rightarrow> [] # caps | None \<Rightarrow> [])"
| "findStringSubmatch r (x # xs) =
     (case matchHere r (x # xs) of
        Some (caps, rest) \<Rightarrow> take (length (x # xs) - length rest) (x # xs) # caps
      | None \<Rightarrow> findStringSubmatch r xs)"

inductive matches :: "reItem list \<Rightarrow> string \<Rightarrow> string list \<Rightarrow> string \<Rightarrow> bool" where
  matches_Nil: "matches [] s [] s"
| matches_One: "inClass c x \<Longrightarrow> matches r s caps rest \<Longrightarrow> matches (One c # r) (x # s) caps rest"
| matches_Many: "w \<noteq> [] \<Longrightarrow> \<forall>x\<in>set w. inClass c x \<Longrightarrow> matches r s caps rest \<Longrightarrow>
    matches (Many c # r) (w @ s) (w # caps) rest"

inductive_cases matches_NilE: "matches [] s caps rest"
inductive_cases matches_OneE: "matches (One c # r) s caps rest"
inductive_cases matches_ManyE: "matches (Many c # r) s caps rest"

lemma firstSome_Some: "firstSome f xs = Some y \<Longrightarrow> \<exists>x\<in>set xs. f x = Some y"
  by (induction xs) (auto split: option.splits)

lemma firstSome_None: "firstSome f xs = None \<longleftrightarrow> (\<forall>x\<in>set xs. f x = None)"
  by (induction xs) (auto split: option.splits)

lemma take_takeWhile_class:
  "k \<le> length (takeWhile P s) \<Longrightarrow> x \<in> set (take k s) \<Longrightarrow> P x"
proof -
  assume "k \<le> length (takeWhile P s)" and "x \<in> set (take k s)"
  then have "x \<in> set (take k (takeWhile P s))"
    by (metis append_eq_conv_conj takeWhile_dropWhile_id take_append append_Nil2 diff_is_0_eq take0)
  then show "P x" by (meson in_set_takeD set_takeWhileD)
qed

lemma matchHere_ManyE:
  assumes "matchHere (Many c # r) s = Some (caps, rest)"
  obtains k caps' where "1 \<le> k" and "k \<le> length (takeWhile (inClass c) s)"
    and "matchHere r (drop k s) = Some (caps', rest)" and "caps = take k s # caps'"
proof -
  from assms have "\<exists>k\<in>set (rev [1..<Suc (length (takeWhile (inClass c) s))]).
      map_option (\<lambda>(caps, rest). (take k s # caps, rest)) (matchHere r (drop k s)) = Some (caps, rest)"
    unfolding matchHere.simps by (rule firstSome_Some)
  then show thesis using that by (auto simp del: upt_Suc)
qed

lemma matchHere_sound: "matchHere r s = Some (caps, rest) \<Longrightarrow> matches r s caps rest"
proof (induction r arbitrary: s caps rest)
  case Nil
  then show ?case by (auto intro: matches_Nil)
next
  case (Cons i r)
  show ?case
  proof (cases i)
    case (One c)
    then show ?thesis
      using Cons by (auto intro: matches_One split: list.splits if_splits)
  next
    case (Many c)
    have "matchHere (Many c # r) s = Some (caps, rest)"
      using Cons.prems by (simp only: Many)
    then obtain k caps' where k: "1 \<le> k" "k \<le> length (takeWhile (inClass c) s)"
      and m: "matchHere r (drop k s) = Some (caps', rest)" and caps: "caps = take k s # caps'"
      using matchHere_ManyE [of c r s caps rest thesis] by blast
    have "take k s \<noteq> []"
      using k by (cases "s = []") simp_all
    moreover have "\<forall>x\<in>set (take k s). inClass c x"
      using take_takeWhile_class [OF k(2)] by simp
    ultimately have "matches (Many c # r) (take k s @ drop k s) (take k s # caps') rest"
      using Cons.IH [OF m] by (rule matches_Many)
    then show ?thesis by (simp add: caps Many)
  qed
qed

lemma matchHere_complete: "matches r s caps rest \<Longrightarrow> matchHere r s \<noteq> None"
proof (induction rule: matches.induct)
  case (matches_Many w c r s caps rest)
  have "length w \<le> length (takeWhile (inClass c) (w @ s))"
    using matches_Many(2) by (simp add: takeWhile_append)
  moreover have "1 \<le> length w"
    using matches_Many(1) by (cases w) auto
  ultimately have k: "length w \<in> set (rev [1..<Suc (length (takeWhile (inClass c) (w @ s)))])"
    by auto
  have "matchHere r (drop (length w) (w @ s)) \<noteq> None"
    using matches_Many.IH by simp
  then show ?case
    unfolding matchHere.simps firstSome_None using k by (metis option.map_disc_iff)
qed auto

text \<open>The lemmas that evaluate a match of printed text.\<close>

lemma matchHere_lits [simp]: "matchHere (lits p @ r) (p @ s) = matchHere r s"
  by (induction p) (auto simp: lits_def)

lemma matchHere_greedy:
  assumes "w \<noteq> []" and "\<forall>x\<in>set w. inClass c x" and "s = [] \<or> \<not> inClass c (hd s)"
    and "matchHere r s = Some (caps, rest)"
  shows "matchHere (Many c # r) (w @ s) = Some (w # caps, rest)"
proof -
  have tw: "takeWhile (inClass c) (w @ s) = w"
    using assms(2,3) by (cases s) (auto simp: takeWhile_append)
  have "rev [1..<Suc (length w)] = length w # rev [1..<length w]"
    using assms(1) by (cases w) auto
  then show ?thesis
    using assms(4) by (simp add: tw)
qed

lemma findStringSubmatch_here:
  assumes "matchHere r s = Some (caps, rest)"
  shows "findStringSubmatch r s = take (length s - length rest) s # caps"
  using assms by (cases s) auto

lemma findStringSubmatch_skip:
  assumes "matchHere r (x # s) = None"
  shows "findStringSubmatch r (x # s) = findStringSubmatch r s"
  using assms by simp

lemma findStringSubmatch_Nil_iff:
  "findStringSubmatch r s = [] \<longleftrightarrow> (\<forall>pre suf caps rest. s = pre @ suf \<longrightarrow> \<not> matches r suf caps rest)"
proof (induction s)
  case Nil
  then show ?case
    using matchHere_sound [of r "[]"] matchHere_complete [of r "[]"]
    by (cases "matchHere r []") (auto split: prod.splits)
next
  case (Cons x s)
  show ?case
  proof (cases "matchHere r (x # s)")
    case None
    have "\<not> matches r (x # s) caps rest" for caps rest
      using None matchHere_complete by blast
    then show ?thesis
      using None Cons.IH by (simp add: Cons_eq_append_conv) blast
  next
    case (Some p)
    then have "matches r (x # s) (fst p) (snd p)"
      by (auto intro: matchHere_sound)
    then show ?thesis
      using Some by (auto split: prod.splits)
  qed
qed

lemma matches_lits: "matches (lits p @ r) s caps rest \<Longrightarrow> \<exists>t. s = p @ t \<and> matches r t caps rest"
proof (induction p arbitrary: s)
  case (Cons c p)
  then show ?case by (fastforce simp: lits_def elim: matches_OneE)
qed (simp add: lits_def)

text \<open>A pattern \<open>(c+)\<close> followed by a literal only matches text that contains the literal.\<close>

lemma findStringSubmatch_needs_literal:
  assumes "\<not> contains s p"
  shows "findStringSubmatch (Many c # lits p @ r) s = []"
  unfolding findStringSubmatch_Nil_iff
proof (intro allI impI notI)
  fix pre suf caps rest
  assume s: "s = pre @ suf" and m: "matches (Many c # lits p @ r) suf caps rest"
  from m obtain w t caps' where "suf = w @ t" and "matches (lits p @ r) t caps' rest"
    by (auto elim: matches_ManyE)
  then obtain u where "suf = w @ p @ u"
    by (auto dest: matches_lits)
  then have "contains s p"
    unfolding contains_sublist s by (metis append.assoc sublist_def)
  then show False using assms by contradiction
qed

text \<open>The first occurrence of a leading literal is where the search stops.\<close>

lemma findStringSubmatch_first:
  assumes "\<not> contains (pre @ butlast p) p" and "p \<noteq> []"
    and "matchHere (lits p @ r) (p @ s) = Some (caps, rest)"
  shows "findStringSubmatch (lits p @ r) (pre @ p @ s)
    = take (length (p @ s) - length rest) (p @ s) # caps"
  using assms(1)
proof (induction pre)
  case Nil
  then show ?case
    using findStringSubmatch_here [OF assms(3)] by simp
next
  case (Cons x pre)
  have "matchHere (lits p @ r) (x # pre @ p @ s) = None"
  proof (rule ccontr)
    assume "matchHere (lits p @ r) (x # pre @ p @ s) \<noteq> None"
    then obtain caps' rest' where "matchHere (lits p @ r) (x # pre @ p @ s) = Some (caps', rest')"
      by auto
    from matches_lits [OF matchHere_sound [OF this]] obtain t where t: "x # pre @ p @ s = p @ t"
      by blast
    have "butlast p @ last p # s = p @ s"
      using append_butlast_last_id [OF assms(2)] by (metis append.assoc append_Cons append_Nil)
    then have "(x # pre @ butlast p) @ last p # s = p @ t"
      using t by (simp only: append_Cons append.assoc)
    then have "prefix p ((x # pre @ butlast p) @ last p # s)"
      by (rule prefixI)
    then have "prefix p (x # pre @ butlast p)"
      by (rule prefix_length_prefix [OF _ prefixI [OF refl]]) (use assms(2) in \<open>cases p; simp\<close>)
    then show False
      using Cons.prems by simp
  qed
  then show ?case
    using Cons by simp
qed

corollary findStringSubmatch_literal_many:
  assumes "\<not> contains (pre @ butlast p) p" and "p \<noteq> []"
    and "w \<noteq> []" and "\<forall>x\<in>set w. inClass c x" and "s = [] \<or> \<not> inClass c (hd s)"
  shows "findStringSubmatch (lits p @ [Many c]) (pre @ p @ w @ s) = [p @ w, w]"
proof -
  have "matchHere (lits p @ [Many c]) (p @ w @ s) = Some ([w], s)"
    unfolding matchHere_lits by (rule matchHere_greedy [OF assms(3-5)]) simp
  moreover have "take (length (p @ w @ s) - length s) (p @ w @ s) = p @ w"
    by simp
  ultimately show ?thesis
    using findStringSubmatch_first [OF assms(1,2)] by metis
qed

end
