(* ===== verification/ClusterText.thy ===== *)
theory ClusterText
  imports ApiTypes GoRegex
begin

text \<open>
  What the operator reads out of the text that \<open>redis-cli\<close> and \<open>redis-trib.rb\<close> print:
  the node table of \<open>cluster nodes\<close>, the state and size of \<open>cluster info\<close>, the per-master
  lines of \<open>redis-trib.rb info\<close>. Beside each reader stands the printer of the same format, and
  the round trip of the two.
\<close>

section \<open>The node table (execClusterNodes)\<close>

text \<open>One line of the table; \<open>None\<close> where the loop body continues with the next line.\<close>

definition parseNodeLine :: "string \<Rightarrow> redisNodeInfo option outcome" where
  "parseNodeLine lineInfo =
     (if lineInfo = [] then Ret None
      else let info = stringsFields lineInfo in
        if length info < 8 then Ret None
        else
          obnd (if contains (info ! 2) ''myself''
                then idx (splitOn (CHR '','') (info ! 2)) 1
                else Ret (info ! 2)) (\<lambda>flags.
          Ret (Some \<lparr>niNodeId = info ! 0, niIpPort = info ! 1, niFlags = flags,
            niMaster = info ! 3, niPingSent = info ! 4, niPongRecv = info ! 5,
            niConfigEpoch = info ! 6, niLinkState = info ! 7,
            niSlot = (if length info \<ge> 9 then join '' '' (drop 8 info) else [])\<rparr>)))"

fun parseNodeLines :: "string list \<Rightarrow> redisNodeInfo list outcome" where
  "parseNodeLines [] = Ret []"
| "parseNodeLines (l # ls) =
     obnd (parseNodeLine l) (\<lambda>ni.
     obnd (parseNodeLines ls) (\<lambda>rest.
     Ret (case ni of None \<Rightarrow> rest | Some i \<Rightarrow> i # rest)))"

definition parseClusterNodes :: "string \<Rightarrow> redisNodeInfo list outcome" where
  "parseClusterNodes stdout = parseNodeLines (splitOn nl stdout)"

text \<open>
  The printed form of a node, \<open>myself\<close> telling whether the line is the answering instance's
  own, and the nodes whose printed form is unambiguous.
\<close>

definition nodeWords :: "bool \<Rightarrow> redisNodeInfo \<Rightarrow> string list" where
  "nodeWords myself i =
     [niNodeId i, niIpPort i, (if myself then ''myself,'' @ niFlags i else niFlags i), niMaster i,
      niPingSent i, niPongRecv i, niConfigEpoch i, niLinkState i] @ stringsFields (niSlot i)"

definition printNode :: "bool \<Rightarrow> redisNodeInfo \<Rightarrow> string" where
  "printNode myself i = join '' '' (nodeWords myself i)"

definition printableNode :: "redisNodeInfo \<Rightarrow> bool" where
  "printableNode i \<longleftrightarrow>
     isWord (niNodeId i) \<and> isWord (niIpPort i) \<and> isWord (niFlags i) \<and> isWord (niMaster i) \<and>
     isWord (niPingSent i) \<and> isWord (niPongRecv i) \<and> isWord (niConfigEpoch i) \<and>
     isWord (niLinkState i) \<and> join '' '' (stringsFields (niSlot i)) = niSlot i \<and>
     CHR '','' \<notin> set (niFlags i) \<and> \<not> contains (niFlags i) ''myself''"

lemma contains_append: "contains s p \<Longrightarrow> contains (w @ s) p"
  by (simp add: contains_sublist sublist_append)

lemma contains_prefix: "contains (p @ s) p"
  by (simp add: contains_sublist sublist_append_rightI)

lemma isWord_append: "isWord (v @ w) \<longleftrightarrow> (v @ w \<noteq> [] \<and> (\<forall>c\<in>set v \<union> set w. \<not> isSpace c))"
  by (auto simp: isWord_def)

lemma nodeWords_words: "printableNode i \<Longrightarrow> \<forall>w\<in>set (nodeWords my i). isWord w"
  by (auto simp: nodeWords_def printableNode_def isWord_append fields_words)
    (auto simp: isWord_def isSpace_def)

lemma fields_printNode: "printableNode i \<Longrightarrow> stringsFields (printNode my i) = nodeWords my i"
  unfolding printNode_def by (rule fields_join) (rule nodeWords_words)

lemma printNode_not_Nil: "printableNode i \<Longrightarrow> printNode my i \<noteq> []"
  using fields_printNode [of i my] by (auto simp: nodeWords_def stringsFields_def)

lemma parse_printNode:
  assumes "printableNode i"
  shows "parseNodeLine (printNode my i) = Ret (Some i)"
proof -
  have flags: "(if contains (nodeWords my i ! 2) ''myself''
        then idx (splitOn (CHR '','') (nodeWords my i ! 2)) 1
        else Ret (nodeWords my i ! 2)) = Ret (niFlags i)"
  proof (cases my)
    case True
    have "splitOn (CHR '','') (''myself'' @ CHR '','' # niFlags i) = [''myself'', niFlags i]"
      using assms by (subst splitOn_append_sep) (auto simp: splitOn_no_sep printableNode_def)
    moreover have "contains (''myself'' @ CHR '','' # niFlags i) ''myself''"
      by (rule contains_prefix)
    ultimately show ?thesis
      using True by (simp add: nodeWords_def idx_def)
  next
    case False
    then show ?thesis
      using assms by (simp add: nodeWords_def printableNode_def)
  qed
  have slot: "(if length (nodeWords my i) \<ge> 9 then join '' '' (drop 8 (nodeWords my i)) else [])
      = niSlot i"
    using assms by (cases "stringsFields (niSlot i)") (auto simp: nodeWords_def printableNode_def)
  have len: "\<not> length (nodeWords my i) < 8"
    by (simp add: nodeWords_def)
  show ?thesis
    unfolding parseNodeLine_def Let_def fields_printNode [OF assms]
    using flags slot len printNode_not_Nil [OF assms] by (simp add: nodeWords_def)
qed

lemma isSpace_nl [simp]: "isSpace nl"
  by (simp add: isSpace_def)

lemma printNode_no_nl:
  assumes "printableNode i"
  shows "nl \<notin> set (printNode my i)"
proof -
  have "nl \<notin> set (join '' '' ws)" if "\<forall>w\<in>set ws. isWord w" for ws
    using that by (induction "'' '' :: string" ws rule: join.induct) (auto simp: isWord_def)
  then show ?thesis
    using nodeWords_words [OF assms] unfolding printNode_def by blast
qed

definition printNodes :: "(bool \<times> redisNodeInfo) list \<Rightarrow> string" where
  "printNodes ns = concat (map (\<lambda>(my, i). printNode my i @ [nl]) ns)"

lemma parseClusterNodes_line:
  "nl \<notin> set l \<Longrightarrow> parseClusterNodes (l @ nl # s) =
     obnd (parseNodeLine l) (\<lambda>ni. obnd (parseClusterNodes s) (\<lambda>rest.
       Ret (case ni of None \<Rightarrow> rest | Some i \<Rightarrow> i # rest)))"
  by (simp add: parseClusterNodes_def splitOn_append_sep)

lemma parseClusterNodes_Nil [simp]: "parseClusterNodes [] = Ret []"
  by (simp add: parseClusterNodes_def parseNodeLine_def)

text \<open>
  C31: reading back the node table. For every list of nodes whose fields are printable words,
  the operator's reader of \<open>cluster nodes\<close> output returns exactly those nodes, in order,
  whichever lines carry the \<open>myself,\<close> mark, and with multi-range slot columns intact.
\<close>

theorem parseClusterNodes_printNodes:
  assumes "\<forall>(my, i)\<in>set ns. printableNode i"
  shows "parseClusterNodes (printNodes ns) = Ret (map snd ns)"
  using assms
proof (induction ns)
  case Nil
  then show ?case by (simp add: printNodes_def)
next
  case (Cons n ns)
  obtain my i where n: "n = (my, i)" by (cases n)
  then have i: "printableNode i" using Cons.prems by simp
  have "printNodes (n # ns) = printNode my i @ nl # printNodes ns"
    by (simp add: printNodes_def n)
  then show ?case
    using Cons i by (simp add: n parseClusterNodes_line printNode_no_nl parse_printNode)
qed

definition exampleNode :: redisNodeInfo where
  "exampleNode = \<lparr>niNodeId = ''0b1f3dd6'', niIpPort = ''10.0.0.1:6379'', niFlags = ''master'',
     niMaster = ''-'', niPingSent = ''0'', niPongRecv = ''0'', niConfigEpoch = ''12'',
     niLinkState = ''connected'', niSlot = ''0-5460 9000''\<rparr>"

lemma printableNode_example: "printableNode exampleNode"
  by code_simp

theorem parseClusterNodes_printNodes_witness:
  "parseClusterNodes (printNodes [(True, exampleNode), (False, exampleNode)])
     = Ret [exampleNode, exampleNode]"
  using parseClusterNodes_printNodes [of "[(True, exampleNode), (False, exampleNode)]"]
  by (simp add: printableNode_example)

text \<open>A line that is short of eight columns is skipped, wherever it stands.\<close>

lemma parseNodeLine_short: "length (stringsFields l) < 8 \<Longrightarrow> parseNodeLine l = Ret None"
  by (simp add: parseNodeLine_def Let_def)

text \<open>A bare \<open>myself\<close> flag has no second component: the reader panics on it.\<close>

lemma parseNodeLine_bare_myself:
  assumes "length (stringsFields l) \<ge> 8" and "stringsFields l ! 2 = ''myself''"
  shows "parseNodeLine l = Panic"
  using assms by (cases l) (auto simp: parseNodeLine_def Let_def stringsFields_def idx_def)

section \<open>Cluster state and size (execClusterInfo)\<close>

definition clusterInfoReg :: "reItem list" where
  "clusterInfoReg = lits ''cluster_known_nodes:'' @ [Many Digit]"

text \<open>\<open>None\<close> when the size line is missing, which the caller reports as an error.\<close>

definition parseClusterInfo :: "string \<Rightarrow> (bool \<times> bool) option" where
  "parseClusterInfo stdout =
     (let isOK = contains stdout clusterStatusOK;
          subMatches = findStringSubmatch clusterInfoReg stdout
      in if length subMatches \<noteq> 2 then None
         else Some (isOK, subMatches ! 1 = ''1''))"

lemma showNat_inject: "showNat m = showNat n \<longleftrightarrow> m = n"
  by (metis readNat_showNat)

lemma showNat_1: "showNat 1 = ''1''"
  by (simp add: showNat.simps)

lemma showNat_inClass: "\<forall>c\<in>set (showNat n). inClass Digit c"
  using showNat_digits [of n] by simp

text \<open>
  Reading the cluster size. Wherever the first \<open>cluster_known_nodes:\<close> line stands in the
  \<open>cluster info\<close> text, the reader takes the whole decimal number after it: the instance counts
  as knowing only itself exactly when that number is 1 (so 10 or 16 nodes are not mistaken for
  one), and the state is ok exactly when the text says so.
\<close>

theorem parseClusterInfo_known_nodes:
  assumes "\<not> contains (pre @ butlast ''cluster_known_nodes:'') ''cluster_known_nodes:''"
    and "stdout = pre @ ''cluster_known_nodes:'' @ showNat n @ nl # post"
  shows "parseClusterInfo stdout = Some (contains stdout clusterStatusOK, n = 1)"
proof -
  have "findStringSubmatch clusterInfoReg stdout = [''cluster_known_nodes:'' @ showNat n, showNat n]"
    unfolding assms(2) clusterInfoReg_def
    by (rule findStringSubmatch_literal_many [OF assms(1)])
      (use showNat_inClass in \<open>auto simp: isDigit_def\<close>)
  moreover have "showNat n = ''1'' \<longleftrightarrow> n = 1"
    using showNat_inject [of n 1] by (simp only: showNat_1)
  ultimately show ?thesis
    by (simp add: parseClusterInfo_def Let_def)
qed

theorem parseClusterInfo_known_nodes_witness:
  "parseClusterInfo (''cluster_state:ok'' @ [nl] @ ''cluster_known_nodes:'' @ showNat 16 @ nl # [])
     = Some (True, False)"
proof -
  have "\<not> contains ((''cluster_state:ok'' @ [nl]) @ butlast ''cluster_known_nodes:'') ''cluster_known_nodes:''"
    by code_simp
  from parseClusterInfo_known_nodes [OF this refl, of 16 "[]"]
  have "parseClusterInfo ((''cluster_state:ok'' @ [nl]) @ ''cluster_known_nodes:'' @ showNat 16 @ nl # [])
     = Some (contains ((''cluster_state:ok'' @ [nl]) @ ''cluster_known_nodes:'' @ showNat 16 @ nl # [])
         clusterStatusOK, False)"
    by simp
  moreover have "contains ((''cluster_state:ok'' @ [nl]) @ ''cluster_known_nodes:'' @ showNat 16 @ nl # [])
      clusterStatusOK"
    by simp
  ultimately show ?thesis by simp
qed

section \<open>Slot distribution (execRedisTribInfo)\<close>

definition tribReg :: "reItem list" where
  "tribReg = Many DigitDot # lits '':6379 ('' @ Many WordChar # One AnyNoNL # One AnyNoNL #
     One AnyNoNL # lits '') -> '' @ Many Digit # lits '' keys | '' @ Many Digit #
     lits '' slots | '' @ Many Digit # lits '' slaves''"

definition parseTribLine :: "string \<Rightarrow> redisTribInfo option" where
  "parseTribLine info =
     (let submatches = findStringSubmatch tribReg info
      in if length submatches \<noteq> 6 then None
         else Some \<lparr>tiIp = submatches ! 1, tiPort = showInt redisServicePort6379,
           tiNodeIdPrefix = submatches ! 2, tiKeys = atoiDigits (submatches ! 3),
           tiSlots = atoiDigits (submatches ! 4), tiSlaves = atoiDigits (submatches ! 5)\<rparr>)"

definition parseTribInfo :: "string \<Rightarrow> redisTribInfo list" where
  "parseTribInfo stdout = List.map_filter parseTribLine (splitOn nl stdout)"

definition printTrib :: "redisTribInfo \<Rightarrow> string" where
  "printTrib t = tiIp t @ '':6379 ('' @ tiNodeIdPrefix t @ ''...) -> '' @
     showNat (nat (tiKeys t)) @ '' keys | '' @ showNat (nat (tiSlots t)) @ '' slots | '' @
     showNat (nat (tiSlaves t)) @ '' slaves''"

definition printableTrib :: "redisTribInfo \<Rightarrow> bool" where
  "printableTrib t \<longleftrightarrow>
     tiIp t \<noteq> [] \<and> (\<forall>c\<in>set (tiIp t). inClass DigitDot c) \<and>
     tiNodeIdPrefix t \<noteq> [] \<and> (\<forall>c\<in>set (tiNodeIdPrefix t). inClass WordChar c) \<and>
     tiPort t = ''6379'' \<and> 0 \<le> tiKeys t \<and> tiKeys t \<le> maxInt64 \<and>
     0 \<le> tiSlots t \<and> tiSlots t \<le> maxInt64 \<and> 0 \<le> tiSlaves t \<and> tiSlaves t \<le> maxInt64"

lemma isDigit_not_space [simp]: "\<not> isDigit (CHR '' '')" "\<not> isDigit nl" "\<not> isDigit (CHR '':'')"
  by (simp_all add: isDigit_def)

lemma matchHere_lits_end: "matchHere (lits p) (p @ s) = Some ([], s)"
  using matchHere_lits [of p "[]" s] by simp

lemma matchHere_printTrib:
  assumes "printableTrib t"
  shows "matchHere tribReg (printTrib t @ s) =
    Some ([tiIp t, tiNodeIdPrefix t, showNat (nat (tiKeys t)), showNat (nat (tiSlots t)),
      showNat (nat (tiSlaves t))], s)"
proof -
  let ?k = "showNat (nat (tiKeys t))" and ?l = "showNat (nat (tiSlots t))"
    and ?v = "showNat (nat (tiSlaves t))"
  have 1: "matchHere (Many Digit # lits '' slaves'') (?v @ '' slaves'' @ s) = Some ([?v], s)"
    by (rule matchHere_greedy [OF _ _ _ matchHere_lits_end])
      (use showNat_inClass in \<open>auto simp: isDigit_def\<close>)
  have 2: "matchHere (Many Digit # lits '' slots | '' @ Many Digit # lits '' slaves'')
      (?l @ '' slots | '' @ ?v @ '' slaves'' @ s) = Some ([?l, ?v], s)"
    by (rule matchHere_greedy) (use showNat_inClass 1 in \<open>auto simp: isDigit_def simp del: append_Cons matchHere.simps\<close>)
  have 3: "matchHere (Many Digit # lits '' keys | '' @ Many Digit # lits '' slots | '' @
        Many Digit # lits '' slaves'')
      (?k @ '' keys | '' @ ?l @ '' slots | '' @ ?v @ '' slaves'' @ s) = Some ([?k, ?l, ?v], s)"
    by (rule matchHere_greedy) (use showNat_inClass 2 in \<open>auto simp: isDigit_def simp del: append_Cons matchHere.simps\<close>)
  have dots: "matchHere (One AnyNoNL # One AnyNoNL # One AnyNoNL # r) (''...'' @ u) = matchHere r u"
    for r u by simp
  have 4: "matchHere (Many WordChar # One AnyNoNL # One AnyNoNL # One AnyNoNL # lits '') -> '' @
        Many Digit # lits '' keys | '' @ Many Digit # lits '' slots | '' @ Many Digit # lits '' slaves'')
      (tiNodeIdPrefix t @ ''...'' @ '') -> '' @ ?k @ '' keys | '' @ ?l @ '' slots | '' @ ?v @ '' slaves'' @ s)
      = Some ([tiNodeIdPrefix t, ?k, ?l, ?v], s)"
  proof (rule matchHere_greedy)
    show "matchHere (One AnyNoNL # One AnyNoNL # One AnyNoNL # lits '') -> '' @
        Many Digit # lits '' keys | '' @ Many Digit # lits '' slots | '' @ Many Digit # lits '' slaves'')
      (''...'' @ '') -> '' @ ?k @ '' keys | '' @ ?l @ '' slots | '' @ ?v @ '' slaves'' @ s)
      = Some ([?k, ?l, ?v], s)"
      unfolding dots matchHere_lits by (rule 3)
  qed (use assms in \<open>auto simp: printableTrib_def isDigit_def\<close>)
  have 5: "matchHere tribReg (tiIp t @ '':6379 ('' @ tiNodeIdPrefix t @ ''...'' @ '') -> '' @ ?k @
        '' keys | '' @ ?l @ '' slots | '' @ ?v @ '' slaves'' @ s)
      = Some ([tiIp t, tiNodeIdPrefix t, ?k, ?l, ?v], s)"
    unfolding tribReg_def
  proof (rule matchHere_greedy)
    show "matchHere (lits '':6379 ('' @ Many WordChar # One AnyNoNL # One AnyNoNL # One AnyNoNL #
        lits '') -> '' @ Many Digit # lits '' keys | '' @ Many Digit # lits '' slots | '' @
        Many Digit # lits '' slaves'')
      ('':6379 ('' @ tiNodeIdPrefix t @ ''...'' @ '') -> '' @ ?k @ '' keys | '' @ ?l @ '' slots | '' @
        ?v @ '' slaves'' @ s) = Some ([tiNodeIdPrefix t, ?k, ?l, ?v], s)"
      unfolding matchHere_lits by (rule 4)
  qed (use assms in \<open>auto simp: printableTrib_def isDigit_def\<close>)
  then show ?thesis by (simp add: printTrib_def)
qed

lemma showInt_port [simp]: "showInt redisServicePort6379 = ''6379''"
  by (simp add: showInt_def redisServicePort6379_def showNat.simps)

lemma parse_printTrib:
  assumes "printableTrib t"
  shows "parseTribLine (printTrib t @ s) = Some t"
proof -
  have "findStringSubmatch tribReg (printTrib t @ s) = printTrib t #
      [tiIp t, tiNodeIdPrefix t, showNat (nat (tiKeys t)), showNat (nat (tiSlots t)),
        showNat (nat (tiSlaves t))]"
    using findStringSubmatch_here [OF matchHere_printTrib [OF assms]] by simp
  then show ?thesis
    using assms by (simp add: parseTribLine_def Let_def atoiDigits_def printableTrib_def)
qed

lemma parseTribLine_other:
  assumes "\<not> contains l '':6379 (''"
  shows "parseTribLine l = None"
  using findStringSubmatch_needs_literal [OF assms, of DigitDot]
  by (simp add: parseTribLine_def tribReg_def)

lemma parseTribInfo_line:
  "nl \<notin> set l \<Longrightarrow> parseTribInfo (l @ nl # s) =
     (case parseTribLine l of None \<Rightarrow> parseTribInfo s | Some t \<Rightarrow> t # parseTribInfo s)"
  by (simp add: parseTribInfo_def splitOn_append_sep List.map_filter_def split: option.splits)

lemma printTrib_no_nl:
  assumes "printableTrib t"
  shows "nl \<notin> set (printTrib t)"
proof -
  have "nl \<notin> set (showNat n)" for n
    using showNat_digits [of n] by (auto simp: isDigit_def)
  then show ?thesis
    using assms by (auto simp: printTrib_def printableTrib_def isDigit_def)
qed

text \<open>The report: one line per master, each closed by a full stop, then the summary lines.\<close>

definition printTribReport :: "redisTribInfo list \<Rightarrow> string list \<Rightarrow> string" where
  "printTribReport ts summary =
     concat (map (\<lambda>t. printTrib t @ ''.'' @ [nl]) ts) @ join [nl] summary"

text \<open>
  C34: reading back the slot report. The operator's regular expression recovers from a printed
  \<open>redis-trib.rb info\<close> report exactly the address, node-id prefix, key, slot and replica counts
  of every master, in order, and skips the summary lines.
\<close>

theorem parseTribInfo_printTribReport:
  assumes "\<forall>t\<in>set ts. printableTrib t"
    and "\<forall>l\<in>set summary. nl \<notin> set l \<and> \<not> contains l '':6379 (''"
  shows "parseTribInfo (printTribReport ts summary) = ts"
  using assms(1)
proof (induction ts)
  case Nil
  have "parseTribInfo (join [nl] summary) = []"
  proof (cases "summary = []")
    case True
    then show ?thesis by (simp add: parseTribInfo_def parseTribLine_other List.map_filter_def)
  next
    case False
    then show ?thesis
      using assms(2) by (simp add: parseTribInfo_def splitOn_join parseTribLine_other List.map_filter_def)
  qed
  then show ?case by (simp add: printTribReport_def)
next
  case (Cons t ts)
  have t: "printableTrib t" using Cons.prems by simp
  have "printTribReport (t # ts) summary = (printTrib t @ ''.'') @ nl # printTribReport ts summary"
    by (simp add: printTribReport_def)
  moreover have "nl \<notin> set (printTrib t @ ''.'')"
    using printTrib_no_nl [OF t] by simp
  ultimately have "parseTribInfo (printTribReport (t # ts) summary) =
      (case parseTribLine (printTrib t @ ''.'') of None \<Rightarrow> parseTribInfo (printTribReport ts summary)
       | Some t \<Rightarrow> t # parseTribInfo (printTribReport ts summary))"
    by (metis parseTribInfo_line)
  then show ?case
    using Cons parse_printTrib [OF t] by simp
qed

definition exampleTrib :: redisTribInfo where
  "exampleTrib = \<lparr>tiIp = ''10.168.33.80'', tiPort = ''6379'', tiNodeIdPrefix = ''9ffde2b6'',
     tiKeys = 0, tiSlots = 5461, tiSlaves = 1\<rparr>"

lemma printableTrib_example: "printableTrib exampleTrib"
  by (simp add: printableTrib_def exampleTrib_def isDigit_def maxInt64_def)

theorem parseTribInfo_printTribReport_witness:
  "parseTribInfo (printTribReport [exampleTrib, exampleTrib]
     [''[OK] 0 keys in 3 masters.'', ''0.00 keys per slot on average.'']) = [exampleTrib, exampleTrib]"
  by (rule parseTribInfo_printTribReport) (auto simp: printableTrib_example)

end
