(* ===== verification/Placement.thy ===== *)
theory Placement
  imports ApiTypes "HOL-Library.AList"
begin

text \<open>
  The steps that both placement routines of the operator share: grouping instances by the
  Kubernetes node that hosts them, dealing them out one node at a time, and choosing for a
  master the first instance on another node. \<^verbatim>\<open>assignMasterSlaveIP\<close>
  (\<^verbatim>\<open>sync_rediscluster.go\<close>) and \<^verbatim>\<open>composeMasterSlaveIP\<close>
  (\<^verbatim>\<open>check_rediscluster.go\<close>) contain the same loops.
\<close>

type_synonym address = EndpointAddress

definition named :: "address \<Rightarrow> bool" where
  "named a \<longleftrightarrow> eaNodeName a \<noteq> None"

definition nodeOf :: "address \<Rightarrow> string" where
  "nodeOf a = the (eaNodeName a)"

lemma deref_node [go_simps]: "named a \<Longrightarrow> deref (eaNodeName a) = Ret (nodeOf a)"
  by (auto simp: named_def nodeOf_def)

lemma deref_node_Panic [go_simps]: "\<not> named a \<Longrightarrow> deref (eaNodeName a) = Panic"
  by (simp add: named_def)

section \<open>The model\<close>

text \<open>
  A Go map from node names to address slices: an association list whose order stands for the
  unspecified iteration order; a missing key reads as the nil slice.
\<close>

type_synonym nodeMap = "(string \<times> address list) list"

definition mapGet :: "nodeMap \<Rightarrow> string \<Rightarrow> address list" where
  "mapGet m k = (case map_of m k of None \<Rightarrow> [] | Some v \<Rightarrow> v)"

fun groupByNode :: "address list \<Rightarrow> nodeMap \<Rightarrow> nodeMap outcome" where
  "groupByNode [] m = Ret m"
| "groupByNode (a # as) m =
     obnd (deref (eaNodeName a)) (\<lambda>k. groupByNode as (AList.update k (mapGet m k @ [a]) m))"

text \<open>One run of the body of \<open>for isLoop\<close>: the loop over the sorted keys.\<close>

fun interleavePass :: "string list \<Rightarrow> nat \<Rightarrow> nodeMap \<times> address list \<times> bool \<Rightarrow>
    nodeMap \<times> address list \<times> bool" where
  "interleavePass [] nodesCount st = st"
| "interleavePass (key # keys) nodesCount (nodeIPs, interleaved, isLoop) =
     (case mapGet nodeIPs key of
        [] \<Rightarrow> if length interleaved = nodesCount
               then interleavePass keys nodesCount (nodeIPs, interleaved, False)
               else interleavePass keys nodesCount (nodeIPs, interleaved, isLoop)
      | a # as \<Rightarrow>
          interleavePass keys nodesCount (AList.update key as nodeIPs, interleaved @ [a], isLoop))"

text \<open>The loop itself; \<open>None\<close> when it never stops.\<close>

partial_function (option) interleaveLoop ::
    "string list \<Rightarrow> nat \<Rightarrow> nodeMap \<times> address list \<times> bool \<Rightarrow> address list option" where
  "interleaveLoop keys nodesCount st =
     (if snd (snd st) then interleaveLoop keys nodesCount (interleavePass keys nodesCount st)
      else Some (fst (snd st)))"

text \<open>Grouping, sorting the keys, and dealing out.\<close>

definition interleaveAddresses :: "address list \<Rightarrow> address list outcome" where
  "interleaveAddresses addresses =
     obnd (groupByNode addresses []) (\<lambda>nodeIPs.
     case interleaveLoop (sort (map fst nodeIPs)) (length addresses) (nodeIPs, [], True) of
       None \<Rightarrow> Diverge
     | Some interleaved \<Rightarrow> Ret interleaved)"

text \<open>The search for the first instance that is not on the master's node.\<close>

fun findOther :: "address \<Rightarrow> address list \<Rightarrow> nat \<Rightarrow> (string \<times> nat) outcome" where
  "findOther master [] i = Ret ([], 0)"
| "findOther master (addr # addrs) i =
     obnd (deref (eaNodeName master)) (\<lambda>mn.
     obnd (deref (eaNodeName addr)) (\<lambda>an.
     if mn \<noteq> an then Ret (eaIP addr, i) else findOther master addrs (Suc i)))"

text \<open>
  The slave for a master: its IP as recorded, the address it stands for, and the addresses
  left.
\<close>

definition pickSlave :: "address \<Rightarrow> address list \<Rightarrow> (string \<times> address \<times> address list) outcome" where
  "pickSlave master interleaved =
     obnd (findOther master interleaved 0) (\<lambda>(instanceIP, removeIndex).
     if instanceIP \<noteq> []
     then obnd (idx interleaved removeIndex) (\<lambda>a.
          Ret (instanceIP, a, removeAt removeIndex interleaved))
     else obnd (idx interleaved 0) (\<lambda>a. Ret (eaIP a, a, removeAt 0 interleaved)))"

section \<open>Grouping\<close>

lemma mapGet_update [simp]:
  "mapGet (AList.update k v m) k' = (if k' = k then v else mapGet m k')"
  by (simp add: mapGet_def update_conv')

lemma mapGet_Nil [simp]: "mapGet [] k = []"
  by (simp add: mapGet_def)

definition onNode :: "address list \<Rightarrow> string \<Rightarrow> address list" where
  "onNode as k = filter (\<lambda>a. nodeOf a = k) as"

lemma groupByNode_named:
  assumes "\<forall>a\<in>set as. named a" and "distinct (map fst m)"
  shows "\<exists>m'. groupByNode as m = Ret m' \<and> distinct (map fst m') \<and>
    set (map fst m') = set (map fst m) \<union> nodeOf ` set as \<and>
    (\<forall>k. mapGet m' k = mapGet m k @ onNode as k)"
  using assms
proof (induction as arbitrary: m)
  case Nil
  then show ?case by (auto simp: onNode_def)
next
  case (Cons a as)
  let ?m = "AList.update (nodeOf a) (mapGet m (nodeOf a) @ [a]) m"
  have "distinct (map fst ?m)"
    using Cons.prems by (simp add: distinct_update)
  from Cons.IH [OF _ this] Cons.prems obtain m' where m':
    "groupByNode as ?m = Ret m'" "distinct (map fst m')"
    "set (map fst m') = set (map fst ?m) \<union> nodeOf ` set as"
    "\<forall>k. mapGet m' k = mapGet ?m k @ onNode as k"
    by auto
  have "set (map fst ?m) = insert (nodeOf a) (set (map fst m))"
    by (simp add: dom_update)
  then show ?case
    using Cons.prems m' by (auto simp: deref_node onNode_def)
qed

lemma groupByNode_unnamed:
  "\<not> (\<forall>a\<in>set as. named a) \<Longrightarrow> groupByNode as m = Panic"
proof (induction as arbitrary: m)
  case (Cons a as)
  then show ?case by (cases "named a") (auto simp: deref_node deref_node_Panic)
qed simp

section \<open>Dealing out\<close>

text \<open>
  The order the loop produces, stated without state: rounds that take the first remaining
  instance of every node that still has one.
\<close>

definition dealRow :: "string list \<Rightarrow> (string \<Rightarrow> address list) \<Rightarrow> address list" where
  "dealRow keys g = map (\<lambda>k. hd (g k)) (filter (\<lambda>k. g k \<noteq> []) keys)"

fun deal :: "nat \<Rightarrow> string list \<Rightarrow> (string \<Rightarrow> address list) \<Rightarrow> address list" where
  "deal 0 keys g = []"
| "deal (Suc n) keys g = dealRow keys g @ deal n keys (\<lambda>k. tl (g k))"

definition left :: "string list \<Rightarrow> (string \<Rightarrow> address list) \<Rightarrow> nat" where
  "left keys g = (\<Sum>k\<leftarrow>keys. length (g k))"

lemma left_tl: "left keys (\<lambda>k. tl (g k)) + length (dealRow keys g) = left keys g"
proof (induction keys)
  case (Cons k ks)
  then show ?case by (cases "g k") (simp_all add: left_def dealRow_def)
qed (simp add: left_def dealRow_def)

lemma left_0: "left keys g = 0 \<longleftrightarrow> (\<forall>k\<in>set keys. g k = [])"
  by (induction keys) (auto simp: left_def)

lemma dealRow_Nil: "dealRow keys g = [] \<longleftrightarrow> left keys g = 0"
  by (simp add: left_0 dealRow_def filter_empty_conv)

lemma left_cong: "(\<And>k. k \<in> set keys \<Longrightarrow> g k = h k) \<Longrightarrow> left keys g = left keys h"
  by (induction keys) (auto simp: left_def)

lemma dealRow_cong: "(\<And>k. k \<in> set keys \<Longrightarrow> g k = h k) \<Longrightarrow> dealRow keys g = dealRow keys h"
  by (induction keys) (auto simp: dealRow_def)

lemma deal_cong: "(\<And>k. k \<in> set keys \<Longrightarrow> g k = h k) \<Longrightarrow> deal n keys g = deal n keys h"
proof (induction n arbitrary: g h)
  case (Suc n)
  then have "dealRow keys g = dealRow keys h" by (intro dealRow_cong)
  moreover have "deal n keys (\<lambda>k. tl (g k)) = deal n keys (\<lambda>k. tl (h k))"
    using Suc by (intro Suc.IH) simp
  ultimately show ?case by simp
qed simp

lemma deal_exhausted: "\<forall>k\<in>set keys. g k = [] \<Longrightarrow> deal n keys g = []"
proof (induction n arbitrary: g)
  case (Suc n)
  then show ?case by (simp add: dealRow_def)
qed simp

lemma interleavePass_spec:
  assumes "distinct keys" and "length acc + left keys (mapGet m) + e = n"
  shows "\<exists>m' b'. interleavePass keys n (m, acc, b) = (m', acc @ dealRow keys (mapGet m), b') \<and>
    (\<forall>k. mapGet m' k = (if k \<in> set keys then tl (mapGet m k) else mapGet m k)) \<and>
    (b \<longrightarrow> \<not> b' \<longrightarrow> length acc + length (dealRow keys (mapGet m)) = n) \<and>
    (left keys (mapGet m) + e = 0 \<longrightarrow> keys \<noteq> [] \<longrightarrow> \<not> b') \<and> (\<not> b \<longrightarrow> \<not> b')"
  using assms
proof (induction keys arbitrary: m acc b e)
  case Nil
  then show ?case by (simp add: dealRow_def)
next
  case (Cons k ks)
  have left: "left (k # ks) (mapGet m) = length (mapGet m k) + left ks (mapGet m)" for m
    by (simp add: left_def)
  have k: "k \<notin> set ks" and ks: "distinct ks" using Cons.prems by simp_all
  show ?case
  proof (cases "mapGet m k")
    case Nil
    let ?b = "if length acc = n then False else b"
    have step: "interleavePass (k # ks) n (m, acc, b) = interleavePass ks n (m, acc, ?b)"
      by (simp add: Nil)
    have row: "dealRow (k # ks) (mapGet m) = dealRow ks (mapGet m)"
      by (simp add: dealRow_def Nil)
    have full: "dealRow ks (mapGet m) = []" if "length acc = n"
      using that Cons.prems left_tl [of ks "mapGet m"] by (simp add: left Nil)
    have "length acc + left ks (mapGet m) + e = n"
      using Cons.prems by (simp add: left Nil)
    from Cons.IH [OF ks this, of ?b] obtain m' b' where IH:
      "interleavePass ks n (m, acc, ?b) = (m', acc @ dealRow ks (mapGet m), b')"
      "\<forall>k. mapGet m' k = (if k \<in> set ks then tl (mapGet m k) else mapGet m k)"
      "?b \<longrightarrow> \<not> b' \<longrightarrow> length acc + length (dealRow ks (mapGet m)) = n"
      "left ks (mapGet m) + e = 0 \<longrightarrow> ks \<noteq> [] \<longrightarrow> \<not> b'" "\<not> ?b \<longrightarrow> \<not> b'"
      by (elim exE conjE) (rule that)
    have "\<forall>k'. mapGet m' k' = (if k' \<in> set (k # ks) then tl (mapGet m k') else mapGet m k')"
      using IH(2) Nil k by simp
    moreover have "b \<longrightarrow> \<not> b' \<longrightarrow> length acc + length (dealRow ks (mapGet m)) = n"
      using IH(3) full by (cases "length acc = n") auto
    moreover have "left (k # ks) (mapGet m) + e = 0 \<longrightarrow> \<not> b'"
      using IH(5) Cons.prems by (simp add: left Nil)
    ultimately show ?thesis
      unfolding step row using IH(1,5) by (auto split: if_splits)
  next
    case (Cons a as)
    let ?m = "AList.update k as m"
    have same: "\<And>k'. k' \<in> set ks \<Longrightarrow> mapGet ?m k' = mapGet m k'" using k by auto
    have step: "interleavePass (k # ks) n (m, acc, b) = interleavePass ks n (?m, acc @ [a], b)"
      by (simp add: Cons)
    have row: "dealRow (k # ks) (mapGet m) = a # dealRow ks (mapGet ?m)"
      using dealRow_cong [OF same] by (simp add: dealRow_def Cons)
    have "length (acc @ [a]) + left ks (mapGet ?m) + (e + length as) = n"
      using Cons.prems left_cong [of ks "mapGet ?m" "mapGet m", OF same]
      by (simp add: left Cons del: mapGet_update)
    from Cons.IH [OF ks this, of b] obtain m' b' where IH:
      "interleavePass ks n (?m, acc @ [a], b) = (m', (acc @ [a]) @ dealRow ks (mapGet ?m), b')"
      "\<forall>k. mapGet m' k = (if k \<in> set ks then tl (mapGet ?m k) else mapGet ?m k)"
      "b \<longrightarrow> \<not> b' \<longrightarrow> length (acc @ [a]) + length (dealRow ks (mapGet ?m)) = n" "\<not> b \<longrightarrow> \<not> b'"
      by (elim exE conjE) (rule that)
    have "\<forall>k'. mapGet m' k' = (if k' \<in> set (k # ks) then tl (mapGet m k') else mapGet m k')"
      using IH(2) Cons k by simp
    moreover have "left (k # ks) (mapGet m) \<noteq> 0"
      by (simp add: left Cons)
    ultimately show ?thesis
      unfolding step row using IH(1,3,4) by (simp del: mapGet_update)
  qed
qed

text \<open>The loop stops, and yields the deal, whenever there is at least one key.\<close>

lemma interleaveLoop_deal:
  assumes "distinct keys" and "keys \<noteq> []" and "length acc + left keys (mapGet m) = n"
    and "left keys (mapGet m) \<le> r"
  shows "interleaveLoop keys n (m, acc, True) = Some (acc @ deal r keys (mapGet m))"
  using assms(3,4)
proof (induction r arbitrary: m acc)
  case 0
  then have none: "\<forall>k\<in>set keys. mapGet m k = []" by (simp add: left_0)
  obtain m' b' where "interleavePass keys n (m, acc, True) = (m', acc @ dealRow keys (mapGet m), b')"
    and "\<not> b'"
    using interleavePass_spec [OF assms(1), of acc m 0 n True] 0 assms(2) by auto
  then show ?case
    using none by (simp add: interleaveLoop.simps dealRow_def)
next
  case (Suc r)
  obtain m' b' where pass: "interleavePass keys n (m, acc, True) = (m', acc @ dealRow keys (mapGet m), b')"
    and m': "\<And>k. mapGet m' k = (if k \<in> set keys then tl (mapGet m k) else mapGet m k)"
    and stop: "\<not> b' \<longrightarrow> length acc + length (dealRow keys (mapGet m)) = n"
    and go: "left keys (mapGet m) = 0 \<longrightarrow> \<not> b'"
    using interleavePass_spec [OF assms(1), of acc m 0 n True] Suc.prems assms(2) by auto
  have tl: "left keys (mapGet m') = left keys (\<lambda>k. tl (mapGet m k))"
    and dealt: "deal r keys (mapGet m') = deal r keys (\<lambda>k. tl (mapGet m k))"
    using m' by (auto intro: left_cong deal_cong)
  note balance = left_tl [of keys "mapGet m"]
  show ?case
  proof (cases b')
    case True
    then have "0 < length (dealRow keys (mapGet m))"
      using go by (simp add: dealRow_Nil)
    then have "left keys (mapGet m') \<le> r"
      using tl balance Suc.prems by linarith
    moreover have "length (acc @ dealRow keys (mapGet m)) + left keys (mapGet m') = n"
      using tl balance Suc.prems by simp
    ultimately show ?thesis
      using Suc.IH pass True dealt by (simp add: interleaveLoop.simps [of _ _ "(m, acc, True)"])
  next
    case False
    then have "left keys (\<lambda>k. tl (mapGet m k)) = 0"
      using stop Suc.prems balance by simp
    then have "deal r keys (\<lambda>k. tl (mapGet m k)) = []"
      by (intro deal_exhausted) (simp add: left_0)
    then show ?thesis
      using pass False by (simp add: interleaveLoop.simps)
  qed
qed


section \<open>What dealing out achieves\<close>

lemma mset_dealRow:
  "mset (dealRow keys g) + (\<Sum>k\<leftarrow>keys. mset (tl (g k))) = (\<Sum>k\<leftarrow>keys. mset (g k))"
proof (induction keys)
  case (Cons k ks)
  then show ?case by (cases "g k") (simp_all add: dealRow_def union_ac)
qed (simp add: dealRow_def)

lemma mset_deal: "left keys g \<le> n \<Longrightarrow> mset (deal n keys g) = (\<Sum>k\<leftarrow>keys. mset (g k))"
proof (induction n arbitrary: g)
  case 0
  then have "\<forall>k\<in>set keys. g k = []" by (simp add: left_0)
  then have "(\<Sum>k\<leftarrow>keys. mset (g k)) = {#}" by (induction keys) auto
  then show ?case by simp
next
  case (Suc n)
  have "left keys (\<lambda>k. tl (g k)) \<le> n"
  proof (cases "left keys g = 0")
    case True
    then show ?thesis using left_tl [of keys g] by simp
  next
    case False
    then have "0 < length (dealRow keys g)" by (simp add: dealRow_Nil)
    then show ?thesis using left_tl [of keys g] Suc.prems by linarith
  qed
  then show ?case
    using Suc.IH mset_dealRow [of keys g] by simp
qed

lemma sum_onNode:
  assumes "distinct keys" and "set keys = nodeOf ` set as"
  shows "(\<Sum>k\<leftarrow>keys. mset (onNode as k)) = mset as"
proof -
  have "(\<Sum>k\<leftarrow>keys. mset (onNode bs k)) = mset bs"
    if "distinct keys" "nodeOf ` set bs \<subseteq> set keys" for bs
    using that(2)
  proof (induction bs)
    case Nil
    then show ?case by (induction keys) (auto simp: onNode_def)
  next
    case (Cons b bs)
    have "(\<Sum>k\<leftarrow>ks. mset (onNode (b # bs) k)) =
        (\<Sum>k\<leftarrow>ks. mset (onNode bs k)) + (if nodeOf b \<in> set ks then {#b#} else {#})"
      if "distinct ks" for ks
      using that by (induction ks) (auto simp: onNode_def)
    then show ?case using Cons that(1) by simp
  qed
  then show ?thesis using assms by blast
qed

lemma left_onNode:
  assumes "distinct keys" and "set keys = nodeOf ` set as"
  shows "left keys (onNode as) = length as"
proof -
  have "left keys g = size (\<Sum>k\<leftarrow>keys. mset (g k))" for g
    by (induction keys) (auto simp: left_def)
  then show ?thesis using sum_onNode [OF assms] by simp
qed

text \<open>The sorted node names, and the complete functional description of the dealing step.\<close>

definition nodeNames :: "address list \<Rightarrow> string list" where
  "nodeNames as = sorted_list_of_set (nodeOf ` set as)"

lemma nodeNames_props [simp]:
  "distinct (nodeNames as)" "set (nodeNames as) = nodeOf ` set as" "sorted (nodeNames as)"
  by (simp_all add: nodeNames_def)

lemma interleaveAddresses_named:
  assumes "\<forall>a\<in>set as. named a" and "as \<noteq> []"
  shows "interleaveAddresses as = Ret (deal (length as) (nodeNames as) (onNode as))"
proof -
  obtain m where m: "groupByNode as [] = Ret m" "distinct (map fst m)"
    "set (map fst m) = nodeOf ` set as" "\<And>k. mapGet m k = onNode as k"
    using groupByNode_named [OF assms(1), of "[]"] by auto
  have keys: "sort (map fst m) = nodeNames as"
    unfolding nodeNames_def m(3) [symmetric] using m(2)
    by (simp add: sorted_list_of_set_sort_remdups distinct_remdups_id del: set_map)
  have "nodeNames as \<noteq> []"
    using assms(2) by (metis nodeNames_props(2) image_is_empty set_empty)
  moreover have "left (nodeNames as) (mapGet m) = length as"
    using left_onNode [of "nodeNames as" as] by (simp add: left_def m(4))
  ultimately have "interleaveLoop (nodeNames as) (length as) (m, [], True)
      = Some (deal (length as) (nodeNames as) (mapGet m))"
    using interleaveLoop_deal [of "nodeNames as" "[]" m "length as" "length as"] by simp
  then show ?thesis
    by (simp add: interleaveAddresses_def m(1) keys deal_cong [of "nodeNames as" "mapGet m" "onNode as"] m(4))
qed

lemma interleaveAddresses_unnamed:
  "\<not> (\<forall>a\<in>set as. named a) \<Longrightarrow> interleaveAddresses as = Panic"
  by (simp add: interleaveAddresses_def groupByNode_unnamed)

text \<open>Without any instance there is no key, and the loop never ends.\<close>

lemma interleaveLoop_no_keys: "interleaveLoop [] n (m, acc, True) = None"
proof -
  have "r = None" if "interleaveLoop [] n (m, acc, True) = r" for r
  proof (cases r)
    case (Some ys)
    have "\<not> snd (snd (m, acc, True))"
      by (rule interleaveLoop.raw_induct
          [where P = "\<lambda>keys n st ys. keys = [] \<longrightarrow> \<not> snd (snd st)", rule_format])
        (use that Some in \<open>auto split: if_splits\<close>)
    then show ?thesis by simp
  qed simp
  then show ?thesis by blast
qed

lemma interleaveAddresses_Nil: "interleaveAddresses [] = Diverge"
  by (simp add: interleaveAddresses_def interleaveLoop_no_keys)

lemma mset_interleave:
  "mset (deal (length as) (nodeNames as) (onNode as)) = mset as"
  using mset_deal [of "nodeNames as" "onNode as" "length as"] left_onNode [of "nodeNames as" as]
    sum_onNode [of "nodeNames as" as] by simp

section \<open>Balance of the deal\<close>

definition countOn :: "string \<Rightarrow> address list \<Rightarrow> nat" where
  "countOn k as = length (onNode as k)"

lemma countOn_simps [simp]:
  "countOn k [] = 0"
  "countOn k (a # as) = (if nodeOf a = k then Suc (countOn k as) else countOn k as)"
  "countOn k (as @ bs) = countOn k as + countOn k bs"
  by (auto simp: countOn_def onNode_def)

lemma countOn_dealRow:
  assumes "distinct keys" and "\<forall>k\<in>set keys. \<forall>a\<in>set (g k). nodeOf a = k" and "k \<in> set keys"
  shows "countOn k (dealRow keys g) = (if g k = [] then 0 else 1)"
proof -
  have hd: "nodeOf (hd (g x)) = x" if "x \<in> set keys" "g x \<noteq> []" for x
    using that assms(2) by (auto simp: neq_Nil_conv)
  have none: "countOn k (dealRow ks g) = 0" if "k \<notin> set ks" "set ks \<subseteq> set keys" for ks
    using that by (induction ks) (auto simp: dealRow_def hd)
  have "countOn k (dealRow ks g) = (if g k = [] then 0 else 1)"
    if "distinct ks" "set ks \<subseteq> set keys" "k \<in> set ks" for ks
    using that
  proof (induction ks)
    case (Cons x ks)
    have row: "dealRow (x # ks) g = (if g x = [] then [] else [hd (g x)]) @ dealRow ks g"
      by (simp add: dealRow_def)
    show ?case
      unfolding row using Cons none [of ks] hd [of x] by (cases "x = k") auto
  qed simp
  then show ?thesis using assms(1,3) by blast
qed

lemma countOn_take_le: "countOn k (take i as) \<le> countOn k as"
proof -
  have "countOn k as = countOn k (take i as) + countOn k (drop i as)"
    by (simp flip: countOn_simps(3))
  then show ?thesis by simp
qed

lemma countOn_deal_le:
  assumes "distinct keys" and "\<forall>k\<in>set keys. \<forall>a\<in>set (g k). nodeOf a = k" and "k \<in> set keys"
  shows "countOn k (deal n keys g) \<le> length (g k)"
  using assms(2)
proof (induction n arbitrary: g)
  case (Suc n)
  have "\<forall>k\<in>set keys. \<forall>a\<in>set (tl (g k)). nodeOf a = k"
    using Suc.prems by (metis list.sel(2) list.set_sel(2))
  from Suc.IH [OF this] show ?case
    using countOn_dealRow [OF assms(1) Suc.prems assms(3)] by (cases "g k") auto
qed simp

text \<open>
  In every initial part of the deal, a node is at most one instance ahead of any other node
  that still has instances to give.
\<close>

lemma deal_balanced:
  assumes "distinct keys" and "\<forall>k\<in>set keys. \<forall>a\<in>set (g k). nodeOf a = k"
    and "k1 \<in> set keys" and "k2 \<in> set keys" and "left keys g \<le> n"
  shows "countOn k1 (take i (deal n keys g)) \<le> countOn k2 (take i (deal n keys g)) + 1 \<or>
    countOn k2 (take i (deal n keys g)) = length (g k2)"
  using assms(2,5)
proof (induction n arbitrary: g i)
  case 0
  then show ?case by simp
next
  case (Suc n)
  let ?row = "dealRow keys g" and ?g = "\<lambda>k. tl (g k)"
  note row1 = countOn_dealRow [OF assms(1) Suc.prems(1) assms(3)]
  note row2 = countOn_dealRow [OF assms(1) Suc.prems(1) assms(4)]
  have owned: "\<forall>k\<in>set keys. \<forall>a\<in>set (?g k). nodeOf a = k"
    using Suc.prems(1) by (metis list.sel(2) list.set_sel(2))
  show ?case
  proof (cases "i \<le> length ?row")
    case True
    then have "countOn k1 (take i (deal (Suc n) keys g)) \<le> 1"
      using countOn_take_le [of k1 i ?row] row1 by (auto split: if_splits)
    then show ?thesis by simp
  next
    case False
    have split: "countOn k (take i (deal (Suc n) keys g)) =
        countOn k ?row + countOn k (take (i - length ?row) (deal n keys ?g))" for k
      using False by simp
    have "left keys ?g \<le> n"
      using left_tl [of keys g] Suc.prems(2) dealRow_Nil [of keys g]
      by (cases "left keys g = 0") (auto simp flip: length_greater_0_conv)
    from Suc.IH [OF owned this, of "i - length ?row"] show ?thesis
      unfolding split row1 row2
      using countOn_deal_le [OF assms(1) owned assms(4), of n]
        countOn_take_le [of k2 "i - length ?row" "deal n keys ?g"]
      by (cases "g k1"; cases "g k2") auto
  qed
qed

lemma dealt_nodes_distinct:
  assumes "distinct keys" and "\<forall>k\<in>set keys. g k \<noteq> [] \<and> (\<forall>a\<in>set (g k). nodeOf a = k)"
    and "i \<le> length keys" and "0 < n"
  shows "distinct (map nodeOf (take i (deal n keys g)))"
proof -
  obtain m where n: "n = Suc m" using assms(4) by (cases n) auto
  have row: "dealRow keys g = map (\<lambda>k. hd (g k)) keys"
    using assms(2) by (simp add: dealRow_def)
  have "take i (deal n keys g) = map (\<lambda>k. hd (g k)) (take i keys)"
    using assms(3) by (simp add: n row take_map)
  moreover have "map nodeOf (map (\<lambda>k. hd (g k)) (take i keys)) = take i keys"
    using assms(2) by (auto intro!: map_idI dest!: in_set_takeD simp: hd_in_set)
  ultimately show ?thesis using assms(1) by simp
qed

section \<open>Choosing slaves\<close>

text \<open>
  The interface of the choice: whatever slave it takes comes out of the pool, and it shares the
  master's node only where the whole pool does. The loops that pair masters with slaves need
  nothing else.
\<close>

fun pairLoop :: "(address \<Rightarrow> address list \<Rightarrow> (string \<times> address \<times> address list) outcome) \<Rightarrow>
    address list \<Rightarrow> address list \<Rightarrow> ((address \<times> string \<times> address) list \<times> address list) outcome" where
  "pairLoop pick [] pool = Ret ([], pool)"
| "pairLoop pick (m # ms) pool =
     (if pool = [] then Ret ([], [])
      else obnd (pick m pool) (\<lambda>(ip, s, pool').
           obnd (pairLoop pick ms pool') (\<lambda>(ps, rest). Ret ((m, ip, s) # ps, rest))))"

locale slave_picker =
  fixes pick :: "address \<Rightarrow> address list \<Rightarrow> (string \<times> address \<times> address list) outcome"
  assumes picks: "named m \<Longrightarrow> pool \<noteq> [] \<Longrightarrow> \<forall>a\<in>set pool. named a \<Longrightarrow>
      \<exists>i<length pool. pick m pool = Ret (eaIP (pool ! i), pool ! i, removeAt i pool)"
    and avoids: "named m \<Longrightarrow> \<forall>a\<in>set pool. named a \<and> eaIP a \<noteq> [] \<Longrightarrow>
      pick m pool = Ret (ip, s, pool') \<Longrightarrow> nodeOf s = nodeOf m \<Longrightarrow>
      \<forall>a\<in>set pool. nodeOf a = nodeOf m"
begin

lemma pairLoop_total:
  assumes "\<forall>m\<in>set ms. named m" and "\<forall>a\<in>set pool. named a"
  shows "\<exists>ps rest. pairLoop pick ms pool = Ret (ps, rest) \<and>
    map fst ps = take (length pool) ms \<and>
    mset (map (\<lambda>p. snd (snd p)) ps) + mset rest = mset pool \<and>
    (\<forall>p\<in>set ps. fst (snd p) = eaIP (snd (snd p)))"
  using assms
proof (induction ms arbitrary: pool)
  case Nil
  then show ?case by simp
next
  case (Cons m ms)
  show ?case
  proof (cases "pool = []")
    case False
    then obtain i where i: "i < length pool"
      and pick: "pick m pool = Ret (eaIP (pool ! i), pool ! i, removeAt i pool)"
      using picks [of m pool] Cons.prems by auto
    have "\<forall>a\<in>set (removeAt i pool). named a"
      using Cons.prems(2) set_removeAt_subset by fast
    then obtain ps rest where IH: "pairLoop pick ms (removeAt i pool) = Ret (ps, rest)"
      "map fst ps = take (length pool - 1) ms"
      "mset (map (\<lambda>p. snd (snd p)) ps) + mset rest = mset (removeAt i pool)"
      "\<forall>p\<in>set ps. fst (snd p) = eaIP (snd (snd p))"
      using Cons.IH [of "removeAt i pool"] Cons.prems i by (auto simp: length_removeAt)
    have "take (length pool) (m # ms) = m # take (length pool - 1) ms"
      using False by (cases "length pool") auto
    then show ?thesis
      using False pick IH mset_removeAt [OF i] by simp
  qed simp
qed

lemma pairLoop_anti_affinity:
  assumes "\<forall>m\<in>set ms. named m" and "\<forall>a\<in>set pool. named a \<and> eaIP a \<noteq> []"
    and "pairLoop pick ms pool = Ret (ps, rest)" and "i < length ps"
    and "ps ! i = (m, ip, s)" and "nodeOf s = nodeOf m"
  shows "\<forall>a\<in>set (map (\<lambda>p. snd (snd p)) (drop i ps)) \<union> set rest. nodeOf a = nodeOf m"
  using assms
proof (induction ms arbitrary: pool ps i)
  case Nil
  then show ?case by simp
next
  case (Cons m0 ms)
  show ?case
  proof (cases "pool = []")
    case True
    then show ?thesis using Cons.prems by simp
  next
    case False
    then obtain j where j: "j < length pool"
      and pick: "pick m0 pool = Ret (eaIP (pool ! j), pool ! j, removeAt j pool)"
      using picks [of m0 pool] Cons.prems by auto
    obtain ps' where ps': "pairLoop pick ms (removeAt j pool) = Ret (ps', rest)"
      and ps: "ps = (m0, eaIP (pool ! j), pool ! j) # ps'"
      using Cons.prems(3) False pick by (auto simp: obnd_Ret_iff split: prod.splits)
    have pool': "\<forall>a\<in>set (removeAt j pool). named a \<and> eaIP a \<noteq> []"
      using Cons.prems(2) set_removeAt_subset by fast
    show ?thesis
    proof (cases i)
      case 0
      then have s: "m = m0" "s = pool ! j" using Cons.prems(5) ps by auto
      have "named m" using s Cons.prems(1) by simp
      from avoids [OF this Cons.prems(2) pick [folded s] Cons.prems(6)]
      have all: "\<forall>a\<in>set pool. nodeOf a = nodeOf m" .
      obtain qs rs where tot: "pairLoop pick (m0 # ms) pool = Ret (qs, rs)"
        "mset (map (\<lambda>p. snd (snd p)) qs) + mset rs = mset pool"
        using pairLoop_total [of "m0 # ms" pool] Cons.prems(1,2) by blast
      then have "mset (map (\<lambda>p. snd (snd p)) ps @ rest) = mset pool"
        using Cons.prems(3) by simp
      then have "set (map (\<lambda>p. snd (snd p)) ps @ rest) = set pool"
        by (rule mset_eq_setD)
      then show ?thesis using all 0 by auto
    next
      case (Suc i')
      then show ?thesis
        using Cons.IH [OF _ pool' ps', of i'] Cons.prems ps by simp
    qed
  qed
qed

end

text \<open>The operator's choice provides the interface.\<close>

lemma findOther_all_same:
  assumes "named m" and "\<forall>a\<in>set pool. named a \<and> nodeOf a = nodeOf m"
  shows "findOther m pool i = Ret ([], 0)"
  using assms(2) by (induction pool arbitrary: i) (auto simp: deref_node assms(1))

lemma findOther_first:
  assumes "named m" and "\<forall>a\<in>set pool. named a" and "\<exists>a\<in>set pool. nodeOf a \<noteq> nodeOf m"
  shows "\<exists>j<length pool. findOther m pool i = Ret (eaIP (pool ! j), i + j) \<and>
    nodeOf (pool ! j) \<noteq> nodeOf m \<and> (\<forall>l<j. nodeOf (pool ! l) = nodeOf m)"
  using assms(2,3)
proof (induction pool arbitrary: i)
  case (Cons a pool)
  show ?case
  proof (cases "nodeOf a = nodeOf m")
    case False
    then show ?thesis
      using Cons.prems by (intro exI [of _ 0]) (simp add: deref_node assms(1))
  next
    case True
    then obtain j where "j < length pool" "findOther m pool (Suc i) = Ret (eaIP (pool ! j), Suc i + j)"
      "nodeOf (pool ! j) \<noteq> nodeOf m" "\<forall>l<j. nodeOf (pool ! l) = nodeOf m"
      using Cons.IH [of "Suc i"] Cons.prems by auto
    then show ?thesis
      using True Cons.prems
      by (intro exI [of _ "Suc j"]) (auto simp: deref_node assms(1) nth_Cons split: nat.splits)
  qed
qed simp

interpretation picker: slave_picker pickSlave
proof unfold_locales
  fix m :: address and pool :: "address list"
  assume m: "named m" and ne: "pool \<noteq> []" and pool: "\<forall>a\<in>set pool. named a"
  show "\<exists>i<length pool. pickSlave m pool = Ret (eaIP (pool ! i), pool ! i, removeAt i pool)"
  proof (cases "\<exists>a\<in>set pool. nodeOf a \<noteq> nodeOf m")
    case True
    then obtain j where j: "j < length pool" "findOther m pool 0 = Ret (eaIP (pool ! j), j)"
      using findOther_first [OF m pool, of 0] by auto
    then show ?thesis
      using ne by (cases "eaIP (pool ! j) = []") (auto simp: pickSlave_def idx_def)
  next
    case False
    then show ?thesis
      using findOther_all_same [of m pool 0] m pool ne by (auto simp: pickSlave_def idx_def)
  qed
next
  fix m :: address and pool :: "address list" and ip s pool'
  assume m: "named m" and pool: "\<forall>a\<in>set pool. named a \<and> eaIP a \<noteq> []"
    and pick: "pickSlave m pool = Ret (ip, s, pool')" and same: "nodeOf s = nodeOf m"
  show "\<forall>a\<in>set pool. nodeOf a = nodeOf m"
  proof (rule ccontr)
    assume "\<not> (\<forall>a\<in>set pool. nodeOf a = nodeOf m)"
    then obtain j where "j < length pool" "findOther m pool 0 = Ret (eaIP (pool ! j), j)"
      "nodeOf (pool ! j) \<noteq> nodeOf m"
      using findOther_first [OF m, of pool 0] pool by auto
    then show False
      using pick same pool by (auto simp: pickSlave_def idx_def)
  qed
qed

end
