(* ===== verification/Assign.thy ===== *)
theory Assign
  imports Placement
begin

text \<open>
  Choosing masters and slaves for a new cluster: \<^verbatim>\<open>assignMasterSlaveIP\<close>, the
  selection of the instances it works on (\<^verbatim>\<open>assignMasterSlaveIPAddress\<close>) and the
  ordering of endpoints (\<^verbatim>\<open>sortEndpointsByPodName\<close>), all of
  \<^verbatim>\<open>pkg/operator/redis/sync_rediscluster.go\<close>.
\<close>

section \<open>The model\<close>

text \<open>
  The loops \<open>for _, master := range masters { for assignedReplicas < replicas { ... } }\<close>. Their
  state: the unassigned addresses, \<open>nodesCount\<close>, the slave IPs and the slaves so far; the flag
  of the inner loop tells that the function returned from inside it.
\<close>

type_synonym assignState = "address list \<times> nat \<times> string list \<times> address list"

fun assignReplicas :: "nat \<Rightarrow> address \<Rightarrow> assignState \<Rightarrow> (bool \<times> assignState) outcome" where
  "assignReplicas 0 master st = Ret (False, st)"
| "assignReplicas (Suc n) master (interleaved, nodesCount, slaveInstanceIPs, slaves) =
     (if nodesCount = 0 then Ret (True, interleaved, nodesCount, slaveInstanceIPs, slaves)
      else
        obnd (pickSlave master interleaved) (\<lambda>(ip, s, interleaved').
        assignReplicas n master
          (interleaved', nodesCount - 1, slaveInstanceIPs @ [ip], slaves @ [s])))"

fun assignSlaves :: "nat \<Rightarrow> address list \<Rightarrow> assignState \<Rightarrow> assignState outcome" where
  "assignSlaves replicas [] st = Ret st"
| "assignSlaves replicas (master # masters) st =
     obnd (assignReplicas replicas master st) (\<lambda>(returned, st').
     if returned then Ret st' else assignSlaves replicas masters st')"

text \<open>The deferred comparison of every master with its slave, which only logs.\<close>

fun deferredCheck :: "address list \<Rightarrow> address list \<Rightarrow> unit outcome" where
  "deferredCheck [] slaves = Ret ()"
| "deferredCheck (m # ms) slaves =
     obnd (deref (eaNodeName m)) (\<lambda>_.
     case slaves of
       [] \<Rightarrow> Panic
     | s # ss \<Rightarrow> obnd (deref (eaNodeName s)) (\<lambda>_. deferredCheck ms ss))"

definition assignMasterSlaveIP :: "address list \<Rightarrow> (string list \<times> string list \<times> error) outcome" where
  "assignMasterSlaveIP addresses =
     (if addresses = []
      then Ret ([], [], Some (Err ''create redisCluster endpoints addresses is empty''))
      else
        obnd (interleaveAddresses addresses) (\<lambda>interleaved.
        let replicas = 1; nodesCount = length addresses; mastersCount = nodesCount div (replicas + 1) in
        obnd (sliceTo interleaved (int mastersCount)) (\<lambda>masters.
        let masterInstanceIPs = map eaIP masters; nodesCount = nodesCount - length masters in
        obnd (sliceFrom interleaved (int mastersCount)) (\<lambda>interleaved.
        obnd (sliceFrom interleaved 1) (\<lambda>back.
        obnd (sliceTo interleaved 1) (\<lambda>front.
        obnd (assignSlaves replicas masters (back @ front, nodesCount, [], []))
          (\<lambda>(_, _, slaveInstanceIPs, slaves).
        obnd (deferredCheck masters slaves) (\<lambda>_.
        Ret (masterInstanceIPs, slaveInstanceIPs, None)))))))))"

definition subsetsOf :: "Endpoints \<Rightarrow> address list list" where
  "subsetsOf ep = (case epSubsets ep of None \<Rightarrow> [] | Some ss \<Rightarrow> ss)"

text \<open>
  The inner loop over the old addresses: \<open>break\<close> at the first equal IP, append at the last
  index.
\<close>

fun isNewAddress :: "address \<Rightarrow> address list \<Rightarrow> bool" where
  "isNewAddress new [] = False"
| "isNewAddress new (old # olds) =
     (if eaIP new = eaIP old then False else if olds = [] then True else isNewAddress new olds)"

definition assignMasterSlaveIPAddress ::
    "Endpoints \<Rightarrow> Endpoints option \<Rightarrow> address list \<times> error" where
  "assignMasterSlaveIPAddress endpoints oldEndpoints =
     (let subset = subsetsOf endpoints in
      if subset = [] \<or> hd subset = []
      then ([], Some (Err (''endpoints.Subsets is nil, maybe statefulset '' @ epNamespace endpoints @
             ''/'' @ epName endpoints @ '' has been deleted'')))
      else
        (case oldEndpoints of
           None \<Rightarrow> (hd subset, None)
         | Some old \<Rightarrow>
             (let oldSubset = subsetsOf old in
              if oldSubset = [] \<or> hd oldSubset = [] then (hd subset, None)
              else (filter (\<lambda>new. isNewAddress new (hd oldSubset)) (hd subset), None))))"

text \<open>
  \<open>sort.SliceStable\<close> compares every element of a slice of two or more, so a nil \<open>TargetRef\<close>
  among them panics.
\<close>

definition podName :: "address \<Rightarrow> string" where
  "podName a = (case eaTargetRef a of None \<Rightarrow> [] | Some r \<Rightarrow> orName r)"

definition sortAddresses :: "address list \<Rightarrow> address list outcome" where
  "sortAddresses addresses =
     (if length addresses \<le> 1 then Ret addresses
      else if \<exists>a\<in>set addresses. eaTargetRef a = None then Panic
      else Ret (sort_key podName addresses))"

fun sortEndpointsByPodName :: "Endpoints option list \<Rightarrow> Endpoints option list outcome" where
  "sortEndpointsByPodName [] = Ret []"
| "sortEndpointsByPodName (None # eps) = Ret (None # eps)"
| "sortEndpointsByPodName (Some ep # eps) =
     (case subsetsOf ep of
        [] \<Rightarrow> Ret (Some ep # eps)
      | addresses # others \<Rightarrow>
          obnd (sortAddresses addresses) (\<lambda>sorted.
          obnd (sortEndpointsByPodName eps) (\<lambda>rest.
          Ret (Some (ep\<lparr>epSubsets := Some (sorted # others)\<rparr>) # rest))))"

section \<open>The slave loop is the pairing loop\<close>

lemma assignReplicas_1:
  "assignReplicas (Suc 0) m (pool, n, ips, ss) =
     (if n = 0 then Ret (True, pool, n, ips, ss)
      else obnd (pickSlave m pool) (\<lambda>(ip, s, pool'). Ret (False, pool', n - 1, ips @ [ip], ss @ [s])))"
  by (auto simp: split_def intro: arg_cong [where f = "obnd _"])

lemma assignSlaves_pairLoop:
  assumes "\<forall>m\<in>set ms. named m" and "\<forall>a\<in>set pool. named a"
    and "pairLoop pickSlave ms pool = Ret (ps, rest)"
  shows "assignSlaves 1 ms (pool, length pool, ips, ss) =
    Ret (rest, length rest, ips @ map (\<lambda>p. fst (snd p)) ps, ss @ map (\<lambda>p. snd (snd p)) ps)"
  using assms
proof (induction ms arbitrary: pool ps ips ss)
  case Nil
  then show ?case by simp
next
  case (Cons m ms)
  show ?case
  proof (cases "pool = []")
    case True
    then show ?thesis using Cons.prems by (simp add: assignReplicas_1)
  next
    case False
    then obtain i where i: "i < length pool"
      and pick: "pickSlave m pool = Ret (eaIP (pool ! i), pool ! i, removeAt i pool)"
      using picker.picks [of m pool] Cons.prems by auto
    obtain ps' where ps': "pairLoop pickSlave ms (removeAt i pool) = Ret (ps', rest)"
      and ps: "ps = (m, eaIP (pool ! i), pool ! i) # ps'"
      using Cons.prems(3) False pick by (auto simp: obnd_Ret_iff split: prod.splits)
    have "\<forall>a\<in>set (removeAt i pool). named a"
      using Cons.prems(2) set_removeAt_subset by fast
    from Cons.IH [OF _ this ps'] Cons.prems(1) show ?thesis
      using False by (simp add: assignReplicas_1 pick ps length_removeAt [OF i])
  qed
qed

lemma deferredCheck_named:
  assumes "\<forall>m\<in>set ms. named m" and "\<forall>s\<in>set ss. named s" and "length ms \<le> length ss"
  shows "deferredCheck ms ss = Ret ()"
  using assms
proof (induction ms arbitrary: ss)
  case (Cons m ms)
  then show ?case by (cases ss) (auto simp: deref_node)
qed simp

section \<open>What the assignment achieves\<close>

text \<open>
  The whole function in terms of the deal: the masters are its first half, and the slaves come
  from pairing them with the rest, turned by one.
\<close>

definition dealt :: "address list \<Rightarrow> address list" where
  "dealt as = deal (length as) (nodeNames as) (onNode as)"

definition mastersOf :: "address list \<Rightarrow> address list" where
  "mastersOf as = take (length as div 2) (dealt as)"

definition poolOf :: "address list \<Rightarrow> address list" where
  "poolOf as = (let rest = drop (length as div 2) (dealt as) in drop 1 rest @ take 1 rest)"

lemma mset_dealt [simp]: "mset (dealt as) = mset as"
  by (simp add: dealt_def mset_interleave)

lemma length_dealt [simp]: "length (dealt as) = length as"
  by (rule mset_eq_length) simp

lemma set_dealt [simp]: "set (dealt as) = set as"
  by (rule mset_eq_setD) simp

lemma mset_poolOf: "mset (mastersOf as) + mset (poolOf as) = mset as"
proof -
  have turn: "mset (drop 1 r @ take 1 r) = mset r" for r :: "address list"
    by (metis append_take_drop_id mset_append union_commute)
  have "mset (mastersOf as) + mset (poolOf as) =
      mset (take (length as div 2) (dealt as)) + mset (drop (length as div 2) (dealt as))"
    unfolding poolOf_def Let_def turn by (simp add: mastersOf_def)
  also have "\<dots> = mset as"
    by (metis append_take_drop_id mset_append mset_dealt)
  finally show ?thesis .
qed

lemma length_masters_pool:
  "length (mastersOf as) = length as div 2" "length (poolOf as) = length as - length as div 2"
  by (auto simp: mastersOf_def poolOf_def Let_def)

lemma set_masters_pool: "set (mastersOf as) \<union> set (poolOf as) = set as"
  by (metis mset_poolOf set_mset_mset set_mset_union)

lemma assignMasterSlaveIP_pairs:
  assumes "as \<noteq> []" and "\<forall>a\<in>set as. named a"
  shows "\<exists>ps rest. pairLoop pickSlave (mastersOf as) (poolOf as) = Ret (ps, rest) \<and>
    map fst ps = mastersOf as \<and>
    mset (map (\<lambda>p. snd (snd p)) ps) + mset rest = mset (poolOf as) \<and>
    assignMasterSlaveIP as =
      Ret (map eaIP (mastersOf as), map (\<lambda>p. eaIP (snd (snd p))) ps, None)"
proof -
  have named: "\<forall>m\<in>set (mastersOf as). named m" "\<forall>a\<in>set (poolOf as). named a"
    using assms(2) set_masters_pool by blast+
  obtain ps rest where ps: "pairLoop pickSlave (mastersOf as) (poolOf as) = Ret (ps, rest)"
    "map fst ps = take (length (poolOf as)) (mastersOf as)"
    "mset (map (\<lambda>p. snd (snd p)) ps) + mset rest = mset (poolOf as)"
    "\<forall>p\<in>set ps. fst (snd p) = eaIP (snd (snd p))"
    using picker.pairLoop_total [OF named] by blast
  have fst_ps: "map fst ps = mastersOf as"
    using ps(2) by (simp add: length_masters_pool)
  have ips: "map (\<lambda>p. fst (snd p)) ps = map (\<lambda>p. eaIP (snd (snd p))) ps"
    using ps(4) by simp
  have len: "length ps = length (mastersOf as)"
    using arg_cong [OF fst_ps, of length] by simp
  have "\<forall>s\<in>set (map (\<lambda>p. snd (snd p)) ps). named s"
    using arg_cong [OF ps(3), of set_mset] named(2) by auto
  then have check: "deferredCheck (mastersOf as) (map (\<lambda>p. snd (snd p)) ps) = Ret ()"
    using named(1) by (intro deferredCheck_named) (auto simp: len)
  have half: "length as - length as div 2 \<ge> 1"
    using assms(1) by (cases as) auto
  have slices: "sliceTo (dealt as) (int (length as div 2)) = Ret (mastersOf as)"
    "sliceFrom (dealt as) (int (length as div 2)) = Ret (drop (length as div 2) (dealt as))"
    "sliceFrom (drop (length as div 2) (dealt as)) 1 = Ret (drop 1 (drop (length as div 2) (dealt as)))"
    "sliceTo (drop (length as div 2) (dealt as)) 1 = Ret (take 1 (drop (length as div 2) (dealt as)))"
    using half by (auto simp: sliceTo_def sliceFrom_def mastersOf_def)
  have loop: "assignSlaves 1 (mastersOf as) (poolOf as, length as - length as div 2, [], []) =
      Ret (rest, length rest, map (\<lambda>p. fst (snd p)) ps, map (\<lambda>p. snd (snd p)) ps)"
    using assignSlaves_pairLoop [OF named ps(1), of "[]" "[]"] by (simp add: length_masters_pool)
  have "assignMasterSlaveIP as = Ret (map eaIP (mastersOf as), map (\<lambda>p. eaIP (snd (snd p))) ps, None)"
    using assms interleaveAddresses_named [OF assms(2,1)] loop check slices ips
    by (simp add: assignMasterSlaveIP_def Let_def dealt_def [symmetric] poolOf_def length_masters_pool
      numeral_2_eq_2)
  then show ?thesis using ps fst_ps by blast
qed

text \<open>
  C1: the assignment is a fair partition. For any non-empty list of instances whose nodes are
  known, the function returns without error, one slave for each master, half of the instances
  (rounded down) as masters; nobody is assigned twice, everybody assigned is one of the given
  instances, and with an even number of instances everybody is assigned.
\<close>

theorem assignMasterSlaveIP_partition:
  assumes "as \<noteq> []" and "\<forall>a\<in>set as. named a"
  shows "\<exists>masters slaves. assignMasterSlaveIP as = Ret (masters, slaves, None) \<and>
    length masters = length as div 2 \<and> length slaves = length masters \<and>
    mset masters + mset slaves \<subseteq># mset (map eaIP as) \<and>
    (even (length as) \<longrightarrow> mset masters + mset slaves = mset (map eaIP as))"
proof -
  obtain ps :: "(address \<times> string \<times> address) list" and rest where ps: "map fst ps = mastersOf as"
    "mset (map (\<lambda>p. snd (snd p)) ps) + mset rest = mset (poolOf as)"
    "assignMasterSlaveIP as =
       Ret (map eaIP (mastersOf as), map (\<lambda>p. eaIP (snd (snd p))) ps, None)"
    using assignMasterSlaveIP_pairs [OF assms] by blast
  let ?slaves = "map (\<lambda>p. snd (snd p)) ps"
  have len: "length ps = length as div 2"
    using arg_cong [OF ps(1), of length] by (simp add: length_masters_pool)
  have all: "mset (map eaIP (mastersOf as)) + mset (map eaIP ?slaves) + mset (map eaIP rest)
      = mset (map eaIP as)"
    using arg_cong [OF mset_poolOf [of as, folded ps(2)], of "image_mset eaIP"]
    by (simp add: add.assoc image_mset.compositionality comp_def)
  have "length rest = 0" if "even (length as)"
    using arg_cong [OF ps(2), of size] len that by (auto simp: length_masters_pool elim!: evenE)
  then have even: "even (length as) \<longrightarrow>
      mset (map eaIP (mastersOf as)) + mset (map eaIP ?slaves) = mset (map eaIP as)"
    using all by auto
  have sub: "mset (map eaIP (mastersOf as)) + mset (map eaIP ?slaves) \<subseteq># mset (map eaIP as)"
    unfolding all [symmetric] by (rule mset_subset_eq_add_left)
  have "assignMasterSlaveIP as = Ret (map eaIP (mastersOf as), map eaIP ?slaves, None)"
    using ps(3) by (simp add: comp_def)
  then show ?thesis using even sub len by (auto simp: length_masters_pool simp del: map_map)
qed

definition exampleAddress :: "string \<Rightarrow> string \<Rightarrow> string \<Rightarrow> address" where
  "exampleAddress ip node pod = \<lparr>eaIP = ip, eaNodeName = Some node,
     eaTargetRef = Some \<lparr>orName = pod, orNamespace = ''ns''\<rparr>\<rparr>"

definition exampleAddresses :: "address list" where
  "exampleAddresses =
     [exampleAddress ''10.0.0.1'' ''node-a'' ''r-0'', exampleAddress ''10.0.0.2'' ''node-a'' ''r-1'',
      exampleAddress ''10.0.0.3'' ''node-b'' ''r-2'', exampleAddress ''10.0.0.4'' ''node-b'' ''r-3'']"

lemma exampleAddresses_props [simp]:
  "exampleAddresses \<noteq> []" "\<forall>a\<in>set exampleAddresses. named a"
  "\<forall>a\<in>set exampleAddresses. eaIP a \<noteq> []" "length exampleAddresses = 4"
  by (auto simp: exampleAddresses_def exampleAddress_def named_def)

theorem assignMasterSlaveIP_partition_witness:
  "\<exists>masters slaves. assignMasterSlaveIP exampleAddresses = Ret (masters, slaves, None) \<and>
     length masters = 2 \<and> mset masters + mset slaves = mset (map eaIP exampleAddresses)"
  using assignMasterSlaveIP_partition [of exampleAddresses] by auto

text \<open>
  C15: masters and their slaves are kept apart. The returned slave of a master is on the master's
  own node only if every instance that was still free at that point was on that node: neither
  a later slave nor an instance left over could have been used instead.
\<close>

theorem assignMasterSlaveIP_anti_affinity:
  assumes "as \<noteq> []" and "\<forall>a\<in>set as. named a \<and> eaIP a \<noteq> []"
  shows "\<exists>ms ss rest. assignMasterSlaveIP as = Ret (map eaIP ms, map eaIP ss, None) \<and>
    mset ms + mset ss + mset rest = mset as \<and> length ms = length ss \<and>
    (\<forall>i<length ss. nodeOf (ss ! i) = nodeOf (ms ! i) \<longrightarrow>
       (\<forall>a\<in>set (drop i ss) \<union> set rest. nodeOf a = nodeOf (ms ! i)))"
proof -
  obtain ps rest where ps: "pairLoop pickSlave (mastersOf as) (poolOf as) = Ret (ps, rest)"
    "map fst ps = mastersOf as" "mset (map (\<lambda>p. snd (snd p)) ps) + mset rest = mset (poolOf as)"
    "assignMasterSlaveIP as =
       Ret (map eaIP (mastersOf as), map (\<lambda>p. eaIP (snd (snd p))) ps, None)"
    using assignMasterSlaveIP_pairs assms by blast
  let ?ss = "map (\<lambda>p. snd (snd p)) ps"
  have named: "\<forall>m\<in>set (mastersOf as). named m" "\<forall>a\<in>set (poolOf as). named a \<and> eaIP a \<noteq> []"
    using assms(2) set_masters_pool by blast+
  have "\<forall>a\<in>set (drop i ?ss) \<union> set rest. nodeOf a = nodeOf (mastersOf as ! i)"
    if i: "i < length ps" and same: "nodeOf (?ss ! i) = nodeOf (mastersOf as ! i)" for i
  proof -
    obtain m ip s where p: "ps ! i = (m, ip, s)" by (cases "ps ! i")
    have m: "mastersOf as ! i = m" and s: "?ss ! i = s"
      using i p by (simp_all add: ps(2) [symmetric])
    from picker.pairLoop_anti_affinity [OF named ps(1) i p] show ?thesis
      using same unfolding m s by (simp add: drop_map)
  qed
  moreover have "mset (mastersOf as) + mset ?ss + mset rest = mset as"
    using ps(3) mset_poolOf [of as] by (simp add: add.assoc)
  moreover have "length (mastersOf as) = length ?ss"
    using arg_cong [OF ps(2), of length] by simp
  moreover have "assignMasterSlaveIP as = Ret (map eaIP (mastersOf as), map eaIP ?ss, None)"
    using ps(4) by (simp add: comp_def)
  ultimately show ?thesis by (metis length_map)
qed

theorem assignMasterSlaveIP_anti_affinity_witness:
  "\<exists>ms ss rest. assignMasterSlaveIP exampleAddresses = Ret (map eaIP ms, map eaIP ss, None) \<and>
     mset ms + mset ss + mset rest = mset exampleAddresses"
  using assignMasterSlaveIP_anti_affinity [of exampleAddresses] by auto



lemma assignMasterSlaveIP_unnamed:
  assumes "\<exists>a\<in>set as. \<not> named a"
  shows "assignMasterSlaveIP as = Panic"
proof -
  have "as \<noteq> []" using assms by auto
  then show ?thesis
    using assms by (simp add: assignMasterSlaveIP_def interleaveAddresses_unnamed)
qed

text \<open>
  C39: every input has an outcome. The assignment never runs for ever; it panics exactly when the
  node of some instance is unknown (the nil dereference of \<open>*addr.NodeName\<close>), and otherwise
  returns, with an error exactly on the empty list.
\<close>

theorem assignMasterSlaveIP_outcome:
  "case assignMasterSlaveIP as of
     Ret (ms, ss, err) \<Rightarrow> list_all named as \<and> (err = None \<longleftrightarrow> as \<noteq> [])
   | Panic \<Rightarrow> list_ex (\<lambda>a. \<not> named a) as
   | Diverge \<Rightarrow> False"
proof (cases "as \<noteq> [] \<and> (\<forall>a\<in>set as. named a)")
  case True
  then show ?thesis
    using assignMasterSlaveIP_pairs [of as] by (auto simp: list_all_iff)
next
  case False
  then show ?thesis
    by (cases "as = []") (auto simp: assignMasterSlaveIP_unnamed list_ex_iff, simp add: assignMasterSlaveIP_def)
qed

section \<open>Which instances are assigned\<close>

lemma isNewAddress_iff: "isNewAddress new olds \<longleftrightarrow> olds \<noteq> [] \<and> eaIP new \<notin> eaIP ` set olds"
  by (induction olds) auto

definition firstSubset :: "Endpoints \<Rightarrow> address list" where
  "firstSubset ep = (case subsetsOf ep of [] \<Rightarrow> [] | as # _ \<Rightarrow> as)"

text \<open>
  After a scale-up exactly the new instances are assigned. Without instances there is an
  error; otherwise the selected addresses are those of the current endpoints, in their order,
  whose IP is not among the old endpoints (all of them, when there are no old endpoints or they
  are empty), and there is no error.
\<close>

theorem assignMasterSlaveIPAddress_new:
  "assignMasterSlaveIPAddress ep old =
     (if firstSubset ep = []
      then ([], Some (Err (''endpoints.Subsets is nil, maybe statefulset '' @ epNamespace ep @
             ''/'' @ epName ep @ '' has been deleted'')))
      else (filter (\<lambda>a. eaIP a \<notin> eaIP ` (case old of None \<Rightarrow> {} | Some o' \<Rightarrow> set (firstSubset o')))
              (firstSubset ep), None))"
proof (cases "firstSubset ep = []")
  case True
  then show ?thesis
    by (auto simp: assignMasterSlaveIPAddress_def firstSubset_def Let_def split: list.splits)
next
  case False
  then obtain as ass where ep: "subsetsOf ep = as # ass" "as \<noteq> []" "firstSubset ep = as"
    by (cases "subsetsOf ep") (auto simp: firstSubset_def)
  show ?thesis
  proof (cases old)
    case None
    then show ?thesis
      using ep by (simp add: assignMasterSlaveIPAddress_def Let_def)
  next
    case (Some o')
    then show ?thesis
      using ep by (cases "subsetsOf o'")
        (auto simp: assignMasterSlaveIPAddress_def firstSubset_def [of o'] Let_def isNewAddress_iff
          cong: filter_cong)
  qed
qed

section \<open>The order of endpoints\<close>

definition sortedByPod :: "Endpoints \<Rightarrow> Endpoints \<Rightarrow> bool" where
  "sortedByPod ep ep' \<longleftrightarrow> sorted (map podName (firstSubset ep')) \<and>
     mset (firstSubset ep') = mset (firstSubset ep) \<and>
     (\<forall>p. filter (\<lambda>a. podName a = p) (firstSubset ep') = filter (\<lambda>a. podName a = p) (firstSubset ep)) \<and>
     tl (subsetsOf ep') = tl (subsetsOf ep) \<and>
     epName ep' = epName ep \<and> epNamespace ep' = epNamespace ep"

text \<open>
  The endpoints are brought into the order of their pods. When all the endpoint objects have
  an address subset and every address names its pod, the first subset of each of them becomes
  sorted by pod name, as a permutation that keeps addresses of equal pod names in their order;
  the other subsets and the rest of the object are untouched.
\<close>

theorem sortEndpointsByPodName_sorts:
  assumes "\<forall>ep\<in>set eps. subsetsOf ep \<noteq> [] \<and> (\<forall>a\<in>set (firstSubset ep). eaTargetRef a \<noteq> None)"
  shows "\<exists>eps'. sortEndpointsByPodName (map Some eps) = Ret (map Some eps') \<and>
    list_all2 sortedByPod eps eps'"
  using assms
proof (induction eps)
  case (Cons ep eps)
  then obtain eps' where IH: "sortEndpointsByPodName (map Some eps) = Ret (map Some eps')"
    "list_all2 sortedByPod eps eps'"
    by auto
  obtain as ass where ep: "subsetsOf ep = as # ass" "firstSubset ep = as"
    using Cons.prems by (cases "subsetsOf ep") (auto simp: firstSubset_def)
  have sorted: "sortAddresses as = Ret (sort_key podName as)"
    using Cons.prems ep(2) by (cases as; cases "tl as") (auto simp: sortAddresses_def)
  let ?ep = "ep\<lparr>epSubsets := Some (sort_key podName as # ass)\<rparr>"
  have "sortEndpointsByPodName (map Some (ep # eps)) = Ret (map Some (?ep # eps'))"
    by (simp add: ep sorted IH(1))
  moreover have "filter (\<lambda>a. podName a = p) (sort_key podName as) = filter (\<lambda>a. podName a = p) as" for p
    by (rule sort_key_stable)
  then have "sortedByPod ep ?ep"
    using ep by (simp add: sortedByPod_def firstSubset_def subsetsOf_def)
  ultimately show ?case using IH(2) by (intro exI [of _ "?ep # eps'"]) simp
qed simp

definition exampleEndpoints :: Endpoints where
  "exampleEndpoints = \<lparr>epName = ''r'', epNamespace = ''ns'', epSubsets = Some [rev exampleAddresses]\<rparr>"

theorem sortEndpointsByPodName_sorts_witness:
  "\<exists>ep'. sortEndpointsByPodName [Some exampleEndpoints] = Ret [Some ep'] \<and>
     sorted (map podName (firstSubset ep')) \<and> mset (firstSubset ep') = mset exampleAddresses"
proof -
  have refs: "\<forall>ep\<in>set [exampleEndpoints]. subsetsOf ep \<noteq> [] \<and> (\<forall>a\<in>set (firstSubset ep). eaTargetRef a \<noteq> None)"
    by (auto simp: exampleEndpoints_def subsetsOf_def firstSubset_def exampleAddresses_def exampleAddress_def)
  have same: "mset (firstSubset exampleEndpoints) = mset exampleAddresses"
    by (simp add: exampleEndpoints_def subsetsOf_def firstSubset_def)
  show ?thesis
    using sortEndpointsByPodName_sorts [OF refs]
    by (auto simp: list_all2_Cons1 same sortedByPod_def simp del: sortEndpointsByPodName.simps)
qed

end
