(* ===== verification/Compose.thy ===== *)
theory Compose
  imports Placement
begin

text \<open>
  Choosing masters and slaves among the instances a scale-up adds: \<^verbatim>\<open>composeMasterSlaveIP\<close>
  and \<^verbatim>\<open>buildWillAddClusterMasterSlaveIPs\<close> of
  \<^verbatim>\<open>pkg/operator/redis/check_rediscluster.go\<close>. Unlike the creation of a cluster, the
  masters and slaves the cluster already has are kept, and a slave may also go to an old master
  that has none.
\<close>

section \<open>The model\<close>

text \<open>The comparison of one new address with the masters chosen so far.\<close>

fun isSameNode :: "address list \<Rightarrow> address \<Rightarrow> bool outcome" where
  "isSameNode [] a = Ret False"
| "isSameNode (existAddr # existAddrs) a =
     obnd (deref (eaNodeName existAddr)) (\<lambda>en.
     obnd (deref (eaNodeName a)) (\<lambda>an.
     if en = an then Ret True else isSameNode existAddrs a))"

text \<open>
  The first loop, with its index and the three slices it changes: the new masters, all masters,
  and the new addresses still to assign.
\<close>

type_synonym masterState = "address list \<times> address list \<times> address list"

function freshMasters :: "int \<Rightarrow> nat \<Rightarrow> masterState \<Rightarrow> masterState outcome" where
  "freshMasters willAssign i (masters, existMaster, willAdd) =
     (if i < length willAdd then
        if int (length masters) = willAssign then Ret (masters, existMaster, willAdd)
        else
          obnd (isSameNode existMaster (willAdd ! i)) (\<lambda>same.
          if same then freshMasters willAssign (Suc i) (masters, existMaster, willAdd)
          else freshMasters willAssign i
            (masters @ [willAdd ! i], existMaster @ [willAdd ! i], removeAt i willAdd))
      else Ret (masters, existMaster, willAdd))"
  by pat_completeness auto
termination
  by (relation "measure (\<lambda>(w, i, (ms, ex, wa)). length wa - i)") (auto simp: length_removeAt)

text \<open>The second loop, which fills up the masters when there are not enough fresh nodes.\<close>

function frontMasters :: "int \<Rightarrow> nat \<Rightarrow> masterState \<Rightarrow> masterState outcome" where
  "frontMasters willAssign i (masters, existMaster, willAdd) =
     (if int (length masters) < willAssign then
        obnd (idx willAdd i) (\<lambda>a.
        frontMasters willAssign (Suc i) (masters @ [a], existMaster @ [a], removeAt i willAdd))
      else Ret (masters, existMaster, willAdd))"
  by pat_completeness auto
termination
  by (relation "measure (\<lambda>(w, i, (ms, ex, wa)). nat (w - int (length ms)))") auto

declare freshMasters.simps [simp del] frontMasters.simps [simp del]

text \<open>The loop over the masters without slave.\<close>

fun composeSlaves :: "address list \<Rightarrow> address list \<times> nat \<times> string list \<times> string list \<Rightarrow>
    (address list \<times> nat \<times> string list \<times> string list) outcome" where
  "composeSlaves [] st = Ret st"
| "composeSlaves (master # masters) (interleaved, nodesCount, slaveIPs, slaveParentIps) =
     (if nodesCount = 0 then Ret (interleaved, nodesCount, slaveIPs, slaveParentIps)
      else
        obnd (pickSlave master interleaved) (\<lambda>(ip, s, interleaved').
        composeSlaves masters
          (interleaved', nodesCount - 1, slaveIPs @ [ip], slaveParentIps @ [eaIP master])))"

definition composeMasterSlaveIP ::
    "address list \<Rightarrow> string list \<Rightarrow> string list \<Rightarrow> (string \<rightharpoonup> string) \<Rightarrow>
     (string list \<times> string list \<times> string list \<times> error) outcome" where
  "composeMasterSlaveIP newAddresses existedMasterIPs existedSlaveIPs masterSlaveConnector =
     (let existMaster = filter (\<lambda>a. eaIP a \<in> set existedMasterIPs) newAddresses;
          willAdd = filter (\<lambda>a. eaIP a \<notin> set existedMasterIPs \<and> eaIP a \<notin> set existedSlaveIPs)
            newAddresses in
      if willAdd = [] then Ret ([], [], [], None)
      else let willAssign = int (length newAddresses div 2) - int (length existedMasterIPs) in
        obnd (freshMasters willAssign 0 ([], existMaster, willAdd)) (\<lambda>st.
        obnd (frontMasters willAssign 0 st) (\<lambda>(masters, existMaster, willAdd).
        let noSlaveMaster = filter (\<lambda>a. masterSlaveConnector (eaIP a) = None) existMaster in
        obnd (interleaveAddresses willAdd) (\<lambda>interleaved.
        obnd (composeSlaves noSlaveMaster (interleaved, length willAdd, [], []))
          (\<lambda>(_, _, slaveIPs, slaveParentIps).
        Ret (map eaIP masters, slaveIPs, slaveParentIps, None))))))"

text \<open>
  The roles read off the node table: the masters' IPs, the IPs of all other nodes, and for a
  master the first node that names it as its master.
\<close>

definition ipOf :: "string \<Rightarrow> string" where
  "ipOf ipPort = hd (splitOn (CHR '':'') ipPort)"

definition firstSlaveOf :: "redisNodeInfo list \<Rightarrow> redisNodeInfo \<Rightarrow> redisNodeInfo option" where
  "firstSlaveOf nodeInfos info = find (\<lambda>info1. niNodeId info = niMaster info1) nodeInfos"

fun connectRoles :: "redisNodeInfo list \<Rightarrow> redisNodeInfo list \<Rightarrow>
    string list \<times> string list \<times> (string \<rightharpoonup> string) \<Rightarrow>
    string list \<times> string list \<times> (string \<rightharpoonup> string)" where
  "connectRoles nodeInfos [] st = st"
| "connectRoles nodeInfos (info # infos) (masterIPs, slaveIPs, connector) =
     (if niFlags info = masterFlagType
      then connectRoles nodeInfos infos
        (masterIPs @ [ipOf (niIpPort info)], slaveIPs,
         (case firstSlaveOf nodeInfos info of
            None \<Rightarrow> connector
          | Some info1 \<Rightarrow> connector(ipOf (niIpPort info) \<mapsto> ipOf (niIpPort info1))))
      else connectRoles nodeInfos infos (masterIPs, slaveIPs @ [ipOf (niIpPort info)], connector))"

definition buildWillAddClusterMasterSlaveIPs ::
    "redisNodeInfo list \<Rightarrow> Endpoints \<Rightarrow> (string list \<times> string list \<times> string list \<times> error) outcome" where
  "buildWillAddClusterMasterSlaveIPs nodeInfos newEndpoints =
     (case epSubsets newEndpoints of
        Some (newAddresses # _) \<Rightarrow>
          if newAddresses = []
          then Ret ([], [], [], Some (Err ''newEndpoints subsets or addresses is empty''))
          else (case connectRoles nodeInfos nodeInfos ([], [], Map.empty) of
             (masterIPs, slaveIPs, connector) \<Rightarrow>
               composeMasterSlaveIP newAddresses masterIPs slaveIPs connector)
      | _ \<Rightarrow> Ret ([], [], [], Some (Err ''newEndpoints subsets or addresses is empty'')))"

section \<open>The two master loops\<close>

lemma isSameNode_named:
  assumes "\<forall>e\<in>set ex. named e" and "named a"
  shows "isSameNode ex a = Ret (nodeOf a \<in> nodeOf ` set ex)"
  using assms by (induction ex) (auto simp: deref_node)

text \<open>
  What the first loop does: it moves instances on nodes without a master to the masters, at most
  one per node, up to the wanted number.
\<close>

lemma freshMasters_spec:
  assumes "\<forall>e\<in>set ex. named e" and "\<forall>a\<in>set wa. named a"
    and "\<forall>a\<in>set (take i wa). nodeOf a \<in> nodeOf ` set ex"
  shows "\<exists>new wa'. freshMasters w i (ms, ex, wa) = Ret (ms @ new, ex @ new, wa') \<and>
    mset new + mset wa' = mset wa \<and> distinct (map nodeOf new) \<and>
    nodeOf ` set new \<inter> nodeOf ` set ex = {} \<and>
    (int (length ms) \<le> w \<longrightarrow> int (length ms + length new) \<le> w) \<and>
    (int (length ms + length new) \<noteq> w \<longrightarrow> nodeOf ` set wa \<subseteq> nodeOf ` set (ex @ new))"
  using assms
proof (induction "length wa - i" arbitrary: i ms ex wa rule: less_induct)
  case less
  show ?case
  proof (cases "i < length wa \<and> int (length ms) \<noteq> w")
    case False
    then have "freshMasters w i (ms, ex, wa) = Ret (ms @ [], ex @ [], wa)"
      by (auto simp: freshMasters.simps)
    moreover have "nodeOf ` set wa \<subseteq> nodeOf ` set ex" if "int (length ms) \<noteq> w"
      using False that less.prems(3) by auto
    ultimately show ?thesis by (intro exI [of _ "[]"] exI [of _ wa]) auto
  next
    case True
    then have i: "i < length wa" and w: "int (length ms) \<noteq> w" by auto
    let ?a = "wa ! i"
    have same: "isSameNode ex ?a = Ret (nodeOf ?a \<in> nodeOf ` set ex)"
      using i less.prems by (intro isSameNode_named) auto
    show ?thesis
    proof (cases "nodeOf ?a \<in> nodeOf ` set ex")
      case True
      have "\<forall>a\<in>set (take (Suc i) wa). nodeOf a \<in> nodeOf ` set ex"
        using less.prems(3) True i by (auto simp: take_Suc_conv_app_nth)
      from less.hyps [OF _ less.prems(1,2) this] i show ?thesis
        using True w same by (simp add: freshMasters.simps [of w i] diff_less_mono2)
    next
      case False
      let ?wa = "removeAt i wa" and ?ex = "ex @ [?a]"
      have named: "\<forall>e\<in>set ?ex. named e" "\<forall>a\<in>set ?wa. named a"
        using less.prems i set_removeAt_subset [of i wa] by auto
      have before: "\<forall>a\<in>set (take i ?wa). nodeOf a \<in> nodeOf ` set ?ex"
        using less.prems(3) i by (auto simp: removeAt_def)
      have dec: "length ?wa - i < length wa - i"
        using i by (simp add: length_removeAt)
      obtain new wa' where IH:
        "freshMasters w i (ms @ [?a], ?ex, ?wa) = Ret ((ms @ [?a]) @ new, ?ex @ new, wa')"
        "mset new + mset wa' = mset ?wa" "distinct (map nodeOf new)"
        "nodeOf ` set new \<inter> nodeOf ` set ?ex = {}"
        "int (length (ms @ [?a])) \<le> w \<longrightarrow> int (length (ms @ [?a]) + length new) \<le> w"
        "int (length (ms @ [?a]) + length new) \<noteq> w \<longrightarrow> nodeOf ` set ?wa \<subseteq> nodeOf ` set (?ex @ new)"
        using less.hyps [OF dec named before, of "ms @ [?a]"] by blast
      have wa: "mset wa = add_mset ?a (mset ?wa)"
        using mset_removeAt [OF i] by simp
      then have "set wa = insert ?a (set ?wa)"
        by (metis set_mset_add_mset_insert set_mset_mset)
      then have "int (length ms + length (?a # new)) \<noteq> w \<longrightarrow>
          nodeOf ` set wa \<subseteq> nodeOf ` set (ex @ ?a # new)"
        using IH(6) by auto
      moreover have "freshMasters w i (ms, ex, wa) = Ret (ms @ ?a # new, ex @ ?a # new, wa')"
        using i w same False IH(1) by (subst freshMasters.simps) simp
      moreover have "distinct (map nodeOf (?a # new))" "nodeOf ` set (?a # new) \<inter> nodeOf ` set ex = {}"
        using IH(3,4) False by auto
      moreover have "mset (?a # new) + mset wa' = mset wa"
        using IH(2) wa by simp
      moreover have "int (length ms) \<le> w \<longrightarrow> int (length ms + length (?a # new)) \<le> w"
        using IH(5) w by auto
      ultimately show ?thesis by blast
    qed
  qed
qed

text \<open>
  What the second loop does: with \<open>r\<close> masters missing and \<open>L\<close> instances left it takes every
  other instance, which goes well exactly when \<open>2 * (r - 1) < L\<close>.
\<close>

lemma frontMasters_spec:
  assumes "nat (w - int (length ms)) = r"
  shows "(r = 0 \<or> i + 2 * (r - 1) < length wa \<longrightarrow>
      (\<exists>new wa'. frontMasters w i (ms, ex, wa) = Ret (ms @ new, ex @ new, wa') \<and>
         mset new + mset wa' = mset wa \<and> length new = r)) \<and>
    (r \<noteq> 0 \<and> length wa \<le> i + 2 * (r - 1) \<longrightarrow> frontMasters w i (ms, ex, wa) = Panic)"
  using assms
proof (induction r arbitrary: i ms ex wa)
  case 0
  then have "frontMasters w i (ms, ex, wa) = Ret (ms @ [], ex @ [], wa)"
    by (simp add: frontMasters.simps)
  then show ?case by (intro conjI impI exI [of _ "[]"] exI [of _ wa]) auto
next
  case (Suc r)
  have w: "int (length ms) < w" using Suc.prems by simp
  show ?case
  proof (cases "i < length wa")
    case False
    then have "frontMasters w i (ms, ex, wa) = Panic"
      using w by (simp add: frontMasters.simps idx_def)
    then show ?thesis using False by auto
  next
    case True
    let ?a = "wa ! i" and ?wa = "removeAt i wa"
    have step: "frontMasters w i (ms, ex, wa) = frontMasters w (Suc i) (ms @ [?a], ex @ [?a], ?wa)"
      using w True by (simp add: frontMasters.simps [of w i] idx_def)
    have r: "nat (w - int (length (ms @ [?a]))) = r"
      using Suc.prems by simp
    note IH = Suc.IH [OF r, of "Suc i" ?wa "ex @ [?a]"]
    have fits: "(Suc r = 0 \<or> i + 2 * (Suc r - 1) < length wa) \<longleftrightarrow>
        (r = 0 \<or> Suc i + 2 * (r - 1) < length ?wa)"
      using True by (auto simp: length_removeAt)
    have bad: "(Suc r \<noteq> 0 \<and> length wa \<le> i + 2 * (Suc r - 1)) \<longleftrightarrow>
        (r \<noteq> 0 \<and> length ?wa \<le> Suc i + 2 * (r - 1))"
      using True by (auto simp: length_removeAt)
    have "\<exists>new wa'. frontMasters w i (ms, ex, wa) = Ret (ms @ new, ex @ new, wa') \<and>
         mset new + mset wa' = mset wa \<and> length new = Suc r"
      if fits: "r = 0 \<or> Suc i + 2 * (r - 1) < length ?wa"
    proof -
      obtain new wa' where "frontMasters w (Suc i) (ms @ [?a], ex @ [?a], ?wa)
          = Ret ((ms @ [?a]) @ new, (ex @ [?a]) @ new, wa')"
        "mset new + mset wa' = mset ?wa" "length new = r"
        using mp [OF conjunct1 [OF IH] fits] by (elim exE conjE) (rule that)
      then show ?thesis
        using step mset_removeAt [OF True]
        by (intro exI [of _ "?a # new"] exI [of _ wa']) simp
    qed
    then show ?thesis
      unfolding fits bad using conjunct2 [OF IH] step by simp
  qed
qed

section \<open>The slave loop\<close>

lemma composeSlaves_pairLoop:
  assumes "\<forall>m\<in>set ms. named m" and "\<forall>a\<in>set pool. named a"
    and "pairLoop pickSlave ms pool = Ret (ps, rest)"
  shows "composeSlaves ms (pool, length pool, ips, parents) =
    Ret (rest, length rest, ips @ map (\<lambda>p. fst (snd p)) ps, parents @ map (\<lambda>p. eaIP (fst p)) ps)"
  using assms
proof (induction ms arbitrary: pool ps ips parents)
  case Nil
  then show ?case by simp
next
  case (Cons m ms)
  show ?case
  proof (cases "pool = []")
    case True
    then show ?thesis using Cons.prems by simp
  next
    case False
    then obtain i where i: "i < length pool"
      and pick: "pickSlave m pool = Ret (eaIP (pool ! i), pool ! i, removeAt i pool)"
      using picker.picks [of m pool] Cons.prems by auto
    obtain ps' where ps': "pairLoop pickSlave ms (removeAt i pool) = Ret (ps', rest)"
      and ps: "ps = (m, eaIP (pool ! i), pool ! i) # ps'"
      using Cons.prems(3) False pick by (auto simp: obnd_Ret_iff split: prod.splits)
    have "\<forall>a\<in>set (removeAt i pool). named a"
      using Cons.prems(2) set_removeAt_subset by fast
    from Cons.IH [OF _ this ps'] Cons.prems(1) show ?thesis
      using False by (simp add: pick ps length_removeAt [OF i])
  qed
qed

section \<open>What the choice achieves\<close>

definition newAddrs :: "address list \<Rightarrow> string list \<Rightarrow> string list \<Rightarrow> address list" where
  "newAddrs as M S = filter (\<lambda>a. eaIP a \<notin> set M \<and> eaIP a \<notin> set S) as"

definition oldMasters :: "address list \<Rightarrow> string list \<Rightarrow> address list" where
  "oldMasters as M = filter (\<lambda>a. eaIP a \<in> set M) as"

text \<open>
  The whole function, when the master count is not negative and something remains for the
  slaves: in terms of the masters the two loops choose and the pairing of the masters without
  slave with the rest.
\<close>

lemma master_loops:
  assumes "\<forall>a\<in>set as. named a"
    and "w = int (length as div 2) - int (length M)" and "0 \<le> w"
    and "2 * nat w \<le> length (newAddrs as M S)" and "newAddrs as M S \<noteq> []"
  shows "\<exists>st new left. freshMasters w 0 ([], oldMasters as M, newAddrs as M S) = Ret st \<and>
    frontMasters w 0 st = Ret (new, oldMasters as M @ new, left) \<and>
    mset new + mset left = mset (newAddrs as M S) \<and> length new = nat w \<and>
    (nodeOf ` set (newAddrs as M S) \<subseteq> nodeOf ` set (oldMasters as M @ new) \<or>
      distinct (map nodeOf new) \<and> nodeOf ` set new \<inter> nodeOf ` set (oldMasters as M) = {})"
proof -
  have named: "\<forall>e\<in>set (oldMasters as M). named e" "\<forall>a\<in>set (newAddrs as M S). named a"
    using assms(1) by (auto simp: oldMasters_def newAddrs_def)
  obtain fresh wa where fresh:
    "freshMasters w 0 ([], oldMasters as M, newAddrs as M S) = Ret (fresh, oldMasters as M @ fresh, wa)"
    "mset fresh + mset wa = mset (newAddrs as M S)" "distinct (map nodeOf fresh)"
    "nodeOf ` set fresh \<inter> nodeOf ` set (oldMasters as M) = {}"
    "int (length fresh) \<le> w"
    "int (length fresh) \<noteq> w \<longrightarrow>
      nodeOf ` set (newAddrs as M S) \<subseteq> nodeOf ` set (oldMasters as M @ fresh)"
    using freshMasters_spec [OF named, of 0 w "[]"] assms(3) by auto
  define r where "r = nat (w - int (length fresh))"
  have lens: "length fresh + length wa = length (newAddrs as M S)"
    using arg_cong [OF fresh(2), of size] by simp
  have "r = 0 \<or> 0 + 2 * (r - 1) < length wa"
    using lens assms(3,4) fresh(5) by (auto simp: r_def)
  then obtain more' left where front:
    "frontMasters w 0 (fresh, oldMasters as M @ fresh, wa) =
       Ret (fresh @ more', (oldMasters as M @ fresh) @ more', left)"
    "mset more' + mset left = mset wa" "length more' = r"
    using frontMasters_spec [OF r_def [symmetric], of 0 wa "oldMasters as M @ fresh"] by blast
  have "mset (fresh @ more') + mset left = mset (newAddrs as M S)"
    using front(2) fresh(2) by (simp add: add.assoc)
  moreover have "length (fresh @ more') = nat w"
    using front(3) fresh(5) by (simp add: r_def)
  moreover have "nodeOf ` set (newAddrs as M S) \<subseteq> nodeOf ` set (oldMasters as M @ (fresh @ more')) \<or>
      distinct (map nodeOf (fresh @ more')) \<and>
      nodeOf ` set (fresh @ more') \<inter> nodeOf ` set (oldMasters as M) = {}"
  proof (cases "int (length fresh) = w")
    case True
    then have "more' = []" using front(3) by (simp add: r_def)
    then show ?thesis using fresh(3,4) by simp
  next
    case False
    then show ?thesis using fresh(6) by auto
  qed
  ultimately show ?thesis
    using fresh(1) front(1) [unfolded append_assoc, folded append_assoc [of fresh]] by blast
qed

lemma composeMasterSlaveIP_pairs:
  assumes "\<forall>a\<in>set as. named a"
    and "w = int (length as div 2) - int (length M)" and "0 \<le> w"
    and "2 * nat w \<le> length (newAddrs as M S)" and "newAddrs as M S \<noteq> []"
  shows "\<exists>new left ps rest.
    composeMasterSlaveIP as M S connector =
      Ret (map eaIP new, map (\<lambda>p. eaIP (snd (snd p))) ps, map (\<lambda>p. eaIP (fst p)) ps, None) \<and>
    mset new + mset left = mset (newAddrs as M S) \<and> length new = nat w \<and>
    (nodeOf ` set (newAddrs as M S) \<subseteq> nodeOf ` set (oldMasters as M @ new) \<or>
      distinct (map nodeOf new) \<and> nodeOf ` set new \<inter> nodeOf ` set (oldMasters as M) = {}) \<and>
    pairLoop pickSlave (filter (\<lambda>a. connector (eaIP a) = None) (oldMasters as M @ new))
      (deal (length left) (nodeNames left) (onNode left)) = Ret (ps, rest) \<and>
    map fst ps =
      take (length left) (filter (\<lambda>a. connector (eaIP a) = None) (oldMasters as M @ new)) \<and>
    mset (map (\<lambda>p. snd (snd p)) ps) + mset rest = mset left"
proof -
  obtain st new left where loops:
    "freshMasters w 0 ([], oldMasters as M, newAddrs as M S) = Ret st"
    "frontMasters w 0 st = Ret (new, oldMasters as M @ new, left)"
    "mset new + mset left = mset (newAddrs as M S)" "length new = nat w"
    "nodeOf ` set (newAddrs as M S) \<subseteq> nodeOf ` set (oldMasters as M @ new) \<or>
      distinct (map nodeOf new) \<and> nodeOf ` set new \<inter> nodeOf ` set (oldMasters as M) = {}"
    using master_loops [OF assms] by blast
  let ?noSlave = "filter (\<lambda>a. connector (eaIP a) = None) (oldMasters as M @ new)"
  let ?deal = "deal (length left) (nodeNames left) (onNode left)"
  have sets: "set new \<union> set left = set (newAddrs as M S)"
    using arg_cong [OF loops(3), of set_mset] by simp
  have "length new + length left = length (newAddrs as M S)"
    using arg_cong [OF loops(3), of size] by simp
  then have left: "left \<noteq> []"
    using assms(3-5) loops(4) by (cases "nat w") auto
  have named: "\<forall>a\<in>set left. named a" "\<forall>m\<in>set ?noSlave. named m"
    using assms(1) sets by (auto simp: oldMasters_def newAddrs_def)
  then have pool: "\<forall>a\<in>set ?deal. named a" "length ?deal = length left"
    using mset_interleave [of left] by (metis set_mset_mset, metis size_mset)
  obtain ps rest where ps: "pairLoop pickSlave ?noSlave ?deal = Ret (ps, rest)"
    "map fst ps = take (length left) ?noSlave"
    "mset (map (\<lambda>p. snd (snd p)) ps) + mset rest = mset left"
    "\<forall>p\<in>set ps. fst (snd p) = eaIP (snd (snd p))"
    using picker.pairLoop_total [OF named(2) pool(1)] pool(2) mset_interleave [of left] by metis
  have ips: "map (\<lambda>p. fst (snd p)) ps = map (\<lambda>p. eaIP (snd (snd p))) ps"
    using ps(4) by simp
  have slaves: "composeSlaves ?noSlave (?deal, length left, [], []) =
      Ret (rest, length rest, map (\<lambda>p. eaIP (snd (snd p))) ps, map (\<lambda>p. eaIP (fst p)) ps)"
    using composeSlaves_pairLoop [OF named(2) pool(1) ps(1), of "[]" "[]"] unfolding ips pool(2) by simp
  have "composeMasterSlaveIP as M S connector =
      Ret (map eaIP new, map (\<lambda>p. eaIP (snd (snd p))) ps, map (\<lambda>p. eaIP (fst p)) ps, None)"
    using assms(5) loops(1,2) slaves interleaveAddresses_named [OF named(1) left]
    by (simp add: composeMasterSlaveIP_def Let_def newAddrs_def [symmetric]
        oldMasters_def [symmetric] assms(2) [symmetric])
  then show ?thesis
    using loops(3-5) ps(1-3) by (intro exI conjI)
qed

text \<open>A scale-up of a healthy cluster: as many old slaves as old masters, all still present.\<close>

definition healthyScaleUp ::
    "address list \<Rightarrow> string list \<Rightarrow> string list \<Rightarrow> (string \<rightharpoonup> string) \<Rightarrow> bool" where
  "healthyScaleUp as M S connector \<longleftrightarrow>
     (\<forall>a\<in>set as. named a \<and> eaIP a \<noteq> []) \<and> distinct (map eaIP as) \<and> even (length as) \<and>
     distinct (M @ S) \<and> set (M @ S) \<subseteq> eaIP ` set as \<and> length M = length S \<and>
     length (M @ S) < length as \<and> (\<forall>ip\<in>eaIP ` set as - set M. connector ip = None)"

lemma length_newAddrs:
  assumes "distinct (map eaIP as)" and "distinct (M @ S)" and "set (M @ S) \<subseteq> eaIP ` set as"
  shows "length (newAddrs as M S) + length (M @ S) = length as"
proof -
  have new: "map eaIP (newAddrs as M S) = filter (\<lambda>ip. ip \<notin> set (M @ S)) (map eaIP as)"
    by (simp add: newAddrs_def filter_map comp_def)
  have "length (newAddrs as M S) = length (map eaIP (newAddrs as M S))" by simp
  also have "\<dots> = card (set (map eaIP (newAddrs as M S)))"
    using assms(1) unfolding new by (metis distinct_card distinct_filter)
  also have "set (map eaIP (newAddrs as M S)) = set (map eaIP as) - set (M @ S)"
    unfolding new by auto
  also have "card \<dots> = card (set (map eaIP as)) - card (set (M @ S))"
    using assms(3) by (intro card_Diff_subset) auto
  also have "\<dots> = length as - length (M @ S)"
    using assms(1,2) by (metis distinct_card length_map)
  finally have "length (newAddrs as M S) = length as - length (M @ S)" .
  moreover have "length (M @ S) \<le> length as"
    using assms by (metis card_mono distinct_card finite_set length_map set_map)
  ultimately show ?thesis by simp
qed

lemma healthy_counts:
  assumes "healthyScaleUp as M S connector"
    and "w = int (length as div 2) - int (length M)"
  shows "\<forall>a\<in>set as. named a" "0 \<le> w" "2 * nat w \<le> length (newAddrs as M S)"
    "newAddrs as M S \<noteq> []" "length (newAddrs as M S) = 2 * nat w"
proof -
  have len: "length (newAddrs as M S) + length (M @ S) = length as"
    using assms(1) by (intro length_newAddrs) (auto simp: healthyScaleUp_def)
  show "\<forall>a\<in>set as. named a" using assms(1) by (auto simp: healthyScaleUp_def)
  have "even (length as)" "length (M @ S) < length as" "length M = length S"
    using assms(1) by (auto simp: healthyScaleUp_def)
  then show "0 \<le> w" "2 * nat w \<le> length (newAddrs as M S)" "length (newAddrs as M S) = 2 * nat w"
    using len assms(2) by (auto elim!: evenE)
  show "newAddrs as M S \<noteq> []"
    using len \<open>length (M @ S) < length as\<close> by auto
qed

lemma healthy_new_without_slave:
  assumes "healthyScaleUp as M S connector" and "set new \<subseteq> set (newAddrs as M S)"
  shows "filter (\<lambda>a. connector (eaIP a) = None) (oldMasters as M @ new) =
    filter (\<lambda>a. connector (eaIP a) = None) (oldMasters as M) @ new"
  using assms by (auto simp: healthyScaleUp_def newAddrs_def intro!: filter_True)

text \<open>
  C4: scaling up a healthy cluster assigns every new instance one role. The call returns without
  error; the new masters and the new slaves together are exactly the instances the cluster does
  not know yet, as many masters as slaves, so that masters are again half of all instances; every
  new slave has a parent of its own, which is a new master or an old master that lacked a slave,
  and if all old masters have their slave, the slaves go to the new masters one by one.
\<close>

theorem composeMasterSlaveIP_healthy:
  assumes "healthyScaleUp as M S connector"
  shows "\<exists>ms ss ps. composeMasterSlaveIP as M S connector = Ret (ms, ss, ps, None) \<and>
    mset ms + mset ss = mset (filter (\<lambda>ip. ip \<notin> set (M @ S)) (map eaIP as)) \<and>
    length M + length ms = length as div 2 \<and> length ss = length ms \<and> length ps = length ss \<and>
    distinct ps \<and> set ps \<subseteq> (set M - dom connector) \<union> set ms \<and>
    (set M \<subseteq> dom connector \<longrightarrow> ps = ms)"
proof -
  define w where "w = int (length as div 2) - int (length M)"
  note counts = healthy_counts [OF assms w_def]
  obtain new left and ps :: "(address \<times> string \<times> address) list" and rest where res:
    "composeMasterSlaveIP as M S connector =
      Ret (map eaIP new, map (\<lambda>p. eaIP (snd (snd p))) ps, map (\<lambda>p. eaIP (fst p)) ps, None)"
    "mset new + mset left = mset (newAddrs as M S)" "length new = nat w"
    "map fst ps = take (length left) (filter (\<lambda>a. connector (eaIP a) = None) (oldMasters as M @ new))"
    "mset (map (\<lambda>p. snd (snd p)) ps) + mset rest = mset left"
    using composeMasterSlaveIP_pairs [OF counts(1) w_def counts(2-4), of connector] by blast
  let ?free = "filter (\<lambda>a. connector (eaIP a) = None) (oldMasters as M)"
  have new: "set new \<subseteq> set (newAddrs as M S)"
    using arg_cong [OF res(2), of set_mset] by auto
  have left: "length left = length new"
    using arg_cong [OF res(2), of size] res(3) counts(5) by simp
  note parents = res(4) [unfolded healthy_new_without_slave [OF assms new] left]
  have len: "length ps = length new"
    using arg_cong [OF parents, of length] by simp
  have "length rest = 0"
    using arg_cong [OF res(5), of size] left len by simp
  then have slaves: "mset (map (\<lambda>p. snd (snd p)) ps) = mset left"
    using res(5) by simp
  have ips: "map eaIP (newAddrs as M S) = filter (\<lambda>ip. ip \<notin> set (M @ S)) (map eaIP as)"
    by (simp add: newAddrs_def filter_map comp_def)
  have "mset (map eaIP new) + mset (map eaIP (map (\<lambda>p. snd (snd p)) ps)) = mset (map eaIP (newAddrs as M S))"
    using arg_cong [OF res(2) [folded slaves], of "image_mset eaIP"] by (simp del: map_map)
  then have all: "mset (map eaIP new) + mset (map (\<lambda>p. eaIP (snd (snd p))) ps) =
      mset (filter (\<lambda>ip. ip \<notin> set (M @ S)) (map eaIP as))"
    unfolding ips by (simp add: comp_def)
  have par: "map (\<lambda>p. eaIP (fst p)) ps = map eaIP (take (length new) (?free @ new))"
    using arg_cong [OF parents, of "map eaIP"] by (simp add: comp_def)
  have ips_as: "distinct (map eaIP as)" using assms by (simp add: healthyScaleUp_def)
  then have "distinct (map eaIP (newAddrs as M S))"
    by (simp add: newAddrs_def distinct_map_filter)
  then have "distinct (map eaIP new)"
    using arg_cong [OF res(2), of "image_mset eaIP"]
    by (metis distinct_append map_append mset_append mset_eq_imp_distinct_iff mset_map)
  moreover have "distinct (map eaIP ?free)"
    using ips_as by (simp add: oldMasters_def distinct_map_filter)
  moreover have "eaIP ` set ?free \<inter> eaIP ` set new = {}"
    using new by (auto simp: oldMasters_def newAddrs_def)
  ultimately have "distinct (map eaIP (?free @ new))" by auto
  then have dist: "distinct (map (\<lambda>p. eaIP (fst p)) ps)"
    unfolding par take_map [symmetric] by (rule distinct_take)
  have sub: "set (map (\<lambda>p. eaIP (fst p)) ps) \<subseteq> (set M - dom connector) \<union> set (map eaIP new)"
    unfolding par by (auto simp: oldMasters_def dest!: in_set_takeD)
  have same: "set M \<subseteq> dom connector \<longrightarrow> map (\<lambda>p. eaIP (fst p)) ps = map eaIP new"
  proof
    assume "set M \<subseteq> dom connector"
    then have "?free = []" by (auto simp: filter_empty_conv oldMasters_def)
    then show "map (\<lambda>p. eaIP (fst p)) ps = map eaIP new" unfolding par by simp
  qed
  have "length M + length new = length as div 2"
    using res(3) counts(2) by (simp add: w_def)
  then show ?thesis
    using res(1) all dist sub same len
    by (intro exI [of _ "map eaIP new"] exI [of _ "map (\<lambda>p. eaIP (snd (snd p))) ps"]
        exI [of _ "map (\<lambda>p. eaIP (fst p)) ps"] conjI) simp_all
qed

definition exampleScaleUp :: "address list" where
  "exampleScaleUp = [
     \<lparr>eaIP = ''10.0.0.1'', eaNodeName = Some ''node-a'', eaTargetRef = None\<rparr>,
     \<lparr>eaIP = ''10.0.0.2'', eaNodeName = Some ''node-b'', eaTargetRef = None\<rparr>,
     \<lparr>eaIP = ''10.0.0.3'', eaNodeName = Some ''node-a'', eaTargetRef = None\<rparr>,
     \<lparr>eaIP = ''10.0.0.4'', eaNodeName = Some ''node-b'', eaTargetRef = None\<rparr>]"

lemma healthyScaleUp_example:
  "healthyScaleUp exampleScaleUp [''10.0.0.1''] [''10.0.0.2''] [''10.0.0.1'' \<mapsto> ''10.0.0.2'']"
  by (simp add: healthyScaleUp_def exampleScaleUp_def named_def)

theorem composeMasterSlaveIP_healthy_witness:
  "\<exists>ms ss. composeMasterSlaveIP exampleScaleUp [''10.0.0.1''] [''10.0.0.2'']
       [''10.0.0.1'' \<mapsto> ''10.0.0.2''] = Ret (ms, ss, ms, None) \<and>
     mset ms + mset ss = {#''10.0.0.3'', ''10.0.0.4''#}"
  using composeMasterSlaveIP_healthy [OF healthyScaleUp_example]
  by (auto simp: exampleScaleUp_def)



text \<open>
  C23: the choice never returns when no instance would be left for the slaves. If the number of
  masters to appoint equals the number of new instances (for example one new instance replacing
  a lost master), the call panics or loops for ever: the dealing loop over an empty set of nodes
  has no exit.
\<close>

theorem composeMasterSlaveIP_no_slave_left:
  assumes "\<forall>a\<in>set as. named a" and "newAddrs as M S \<noteq> []"
    and "int (length (newAddrs as M S)) = int (length as div 2) - int (length M)"
  shows "composeMasterSlaveIP as M S connector \<in> {Panic, Diverge}"
proof -
  define w where "w = int (length as div 2) - int (length M)"
  have named: "\<forall>e\<in>set (oldMasters as M). named e" "\<forall>a\<in>set (newAddrs as M S). named a"
    using assms(1) by (auto simp: oldMasters_def newAddrs_def)
  obtain fresh wa where fresh:
    "freshMasters w 0 ([], oldMasters as M, newAddrs as M S) = Ret (fresh, oldMasters as M @ fresh, wa)"
    "mset fresh + mset wa = mset (newAddrs as M S)"
    using freshMasters_spec [OF named, of 0 w "[]"] by auto
  have comp: "composeMasterSlaveIP as M S connector =
      obnd (frontMasters w 0 (fresh, oldMasters as M @ fresh, wa)) (\<lambda>(masters, existMaster, willAdd).
        obnd (interleaveAddresses willAdd) (\<lambda>interleaved.
        obnd (composeSlaves (filter (\<lambda>a. connector (eaIP a) = None) existMaster)
            (interleaved, length willAdd, [], []))
          (\<lambda>(_, _, slaveIPs, slaveParentIps).
        Ret (map eaIP masters, slaveIPs, slaveParentIps, None))))"
    using fresh(1) assms(2) by (simp add: composeMasterSlaveIP_def Let_def newAddrs_def [symmetric]
        oldMasters_def [symmetric] w_def)
  define r where "r = nat (w - int (length fresh))"
  have wa: "length wa = r"
    using arg_cong [OF fresh(2), of size] assms(3) by (simp add: r_def w_def)
  show ?thesis
  proof (cases "r = 0 \<or> 0 + 2 * (r - 1) < length wa")
    case True
    then obtain new left where front:
      "frontMasters w 0 (fresh, oldMasters as M @ fresh, wa) =
         Ret (fresh @ new, (oldMasters as M @ fresh) @ new, left)"
      "mset new + mset left = mset wa" "length new = r"
      using frontMasters_spec [OF r_def [symmetric], of 0 wa "oldMasters as M @ fresh"] by blast
    have "left = []"
      using arg_cong [OF front(2), of size] front(3) wa by simp
    then show ?thesis
      unfolding comp front(1) by (simp add: interleaveAddresses_Nil)
  next
    case False
    then have "frontMasters w 0 (fresh, oldMasters as M @ fresh, wa) = Panic"
      using frontMasters_spec [OF r_def [symmetric], of 0 wa "oldMasters as M @ fresh"] by simp
    then show ?thesis unfolding comp by simp
  qed
qed

theorem composeMasterSlaveIP_no_slave_left_witness:
  "composeMasterSlaveIP (take 2 exampleScaleUp) [] [''10.0.0.2''] Map.empty \<in> {Panic, Diverge}"
  using composeMasterSlaveIP_no_slave_left [of "take 2 exampleScaleUp" "[]" "[''10.0.0.2'']" Map.empty]
  by (simp add: exampleScaleUp_def newAddrs_def named_def)

end
