(* ===== verification/World.thy ===== *)
theory World
  imports ApiTypes
begin

text \<open>
  What the operator runs against: the Kubernetes API, the listers, the exec channel into pods, the
  clock and the poll ticker are operations on an unknown environment; the operator's own state
  is its RedisCluster objects, which it passes around by pointer, and the trace of its calls.
  Included are the two pieces of code all handlers go through: \<^verbatim>\<open>ExecToPodThroughAPI\<close>
  (\<^verbatim>\<open>exec_redis_trib.go\<close>) and the polling loop \<^verbatim>\<open>wait.Poll\<close> of the vendored
  \<^verbatim>\<open>wait.go\<close>.
\<close>

section \<open>The operator and its environment\<close>

text \<open>
  The fields of \<open>RedisClusterOperator\<close> through which it reaches the outside, one entry per
  client call it makes. \<open>'w\<close> is the unknown state of the environment.
\<close>

record 'w RedisClusterOperator =
  apiAddToScheme :: "'w \<Rightarrow> error \<times> 'w"
  apiNewSPDYExecutor :: "string list \<Rightarrow> string \<Rightarrow> string \<Rightarrow> string \<Rightarrow> 'w \<Rightarrow> error \<times> 'w"
  apiStream :: "string list \<Rightarrow> string \<Rightarrow> string \<Rightarrow> string \<Rightarrow> 'w \<Rightarrow> (string \<times> string \<times> error) \<times> 'w"
  apiEndpointsGet :: "string \<Rightarrow> string \<Rightarrow> 'w \<Rightarrow> (Endpoints \<times> error) \<times> 'w"
  apiNodesList :: "'w \<Rightarrow> (K8sNode list \<times> error) \<times> 'w"
  apiServicesCreate :: "string \<Rightarrow> K8sService \<Rightarrow> 'w \<Rightarrow> error \<times> 'w"
  apiStatefulSetsGet :: "string \<Rightarrow> string \<Rightarrow> 'w \<Rightarrow> (StatefulSet \<times> error) \<times> 'w"
  apiStatefulSetsCreate :: "string \<Rightarrow> StatefulSet \<Rightarrow> 'w \<Rightarrow> (StatefulSet \<times> error) \<times> 'w"
  apiStatefulSetsUpdate :: "string \<Rightarrow> StatefulSet \<Rightarrow> 'w \<Rightarrow> (StatefulSet \<times> error) \<times> 'w"
  apiRedisClustersUpdate :: "string \<Rightarrow> RedisCluster \<Rightarrow> 'w \<Rightarrow> (RedisCluster \<times> error) \<times> 'w"
  apiRedisClustersDelete :: "string \<Rightarrow> string \<Rightarrow> string \<Rightarrow> 'w \<Rightarrow> error \<times> 'w"
  stsListerGet :: "string \<Rightarrow> string \<Rightarrow> 'w \<Rightarrow> (StatefulSet option \<times> error) \<times> 'w"
  stsListerList :: "string \<Rightarrow> 'w \<Rightarrow> (StatefulSet list \<times> error) \<times> 'w"
  redisIndexerGet :: "string \<Rightarrow> 'w \<Rightarrow> (RedisCluster option \<times> error) \<times> 'w"
  clockNow :: "'w \<Rightarrow> nat \<times> 'w"
  pollTick :: "'w \<Rightarrow> bool \<times> 'w"
  optClusterTimeOut :: int32

text \<open>The calls that the trace records; a command executed in a pod comes with its reply.\<close>

datatype event =
    ExecEv (evCommand: "string list") (evContainer: string) (evPod: string) (evNamespace: string)
      (evStdout: string) (evStderr: string) (evError: error)
  | EndpointsGetEv string string
  | NodesListEv
  | StsGetEv string string
  | SvcCreateEv string K8sService
  | StsCreateEv string StatefulSet
  | StsUpdateEv string StatefulSet
  | RcUpdateEv string RedisCluster
  | RcDeleteEv string string string

text \<open>
  The state: the environment, the RedisCluster objects by address with the next free address,
  and the trace.
\<close>

record 'w sys =
  syWorld :: 'w
  syHeap :: "nat \<Rightarrow> RedisCluster"
  syNext :: nat
  syTrace :: "event list"

type_synonym rcPtr = nat
type_synonym ('a, 'w) op = "('a, 'w sys) go"

text \<open>A call: its result and its entries in the trace.\<close>

definition call :: "('w \<Rightarrow> 'a \<times> 'w) \<Rightarrow> ('a \<Rightarrow> event list) \<Rightarrow> ('a, 'w) op" where
  "call f ev s = (case f (syWorld s) of (r, w) \<Rightarrow>
     (Ret r, s\<lparr>syWorld := w, syTrace := syTrace s @ ev r\<rparr>))"

definition load :: "rcPtr \<Rightarrow> (RedisCluster, 'w) op" where
  "load p s = (Ret (syHeap s p), s)"

definition store :: "rcPtr \<Rightarrow> RedisCluster \<Rightarrow> (unit, 'w) op" where
  "store p rc s = (Ret (), s\<lparr>syHeap := (syHeap s)(p := rc)\<rparr>)"

definition alloc :: "RedisCluster \<Rightarrow> (rcPtr, 'w) op" where
  "alloc rc s = (Ret (syNext s), s\<lparr>syHeap := (syHeap s)(syNext s := rc), syNext := Suc (syNext s)\<rparr>)"

section \<open>Client calls\<close>

definition endpointsGet ::
    "'w RedisClusterOperator \<Rightarrow> string \<Rightarrow> string \<Rightarrow> (Endpoints \<times> error, 'w) op" where
  "endpointsGet rco ns name = call (apiEndpointsGet rco ns name) (\<lambda>_. [EndpointsGetEv ns name])"

definition statefulSetsGet ::
    "'w RedisClusterOperator \<Rightarrow> string \<Rightarrow> string \<Rightarrow> (StatefulSet \<times> error, 'w) op" where
  "statefulSetsGet rco ns name = call (apiStatefulSetsGet rco ns name) (\<lambda>_. [StsGetEv ns name])"

definition nodesList :: "'w RedisClusterOperator \<Rightarrow> (K8sNode list \<times> error, 'w) op" where
  "nodesList rco = call (apiNodesList rco) (\<lambda>_. [NodesListEv])"

definition servicesCreate ::
    "'w RedisClusterOperator \<Rightarrow> string \<Rightarrow> K8sService \<Rightarrow> (error, 'w) op" where
  "servicesCreate rco ns svc = call (apiServicesCreate rco ns svc) (\<lambda>_. [SvcCreateEv ns svc])"

definition statefulSetsCreate ::
    "'w RedisClusterOperator \<Rightarrow> string \<Rightarrow> StatefulSet \<Rightarrow> (StatefulSet \<times> error, 'w) op" where
  "statefulSetsCreate rco ns sts = call (apiStatefulSetsCreate rco ns sts) (\<lambda>_. [StsCreateEv ns sts])"

definition statefulSetsUpdate ::
    "'w RedisClusterOperator \<Rightarrow> string \<Rightarrow> StatefulSet \<Rightarrow> (StatefulSet \<times> error, 'w) op" where
  "statefulSetsUpdate rco ns sts = call (apiStatefulSetsUpdate rco ns sts) (\<lambda>_. [StsUpdateEv ns sts])"

text \<open>An update sends the object as it is now; the reply is decoded into a fresh object.\<close>

definition redisClustersUpdate ::
    "'w RedisClusterOperator \<Rightarrow> string \<Rightarrow> rcPtr \<Rightarrow> (rcPtr \<times> error, 'w) op" where
  "redisClustersUpdate rco ns p =
     bnd (load p) (\<lambda>rc.
     bnd (call (apiRedisClustersUpdate rco ns rc) (\<lambda>_. [RcUpdateEv ns rc])) (\<lambda>(result, err).
     bnd (alloc result) (\<lambda>q. ret (q, err))))"

definition redisClustersDelete ::
    "'w RedisClusterOperator \<Rightarrow> string \<Rightarrow> string \<Rightarrow> string \<Rightarrow> (error, 'w) op" where
  "redisClustersDelete rco ns name policy =
     call (apiRedisClustersDelete rco ns name policy) (\<lambda>_. [RcDeleteEv ns name policy])"

definition now :: "'w RedisClusterOperator \<Rightarrow> (nat, 'w) op" where
  "now rco = call (clockNow rco) (\<lambda>_. [])"

section \<open>Commands in pods\<close>

definition ExecToPodThroughAPI :: "'w RedisClusterOperator \<Rightarrow> string list \<Rightarrow> string \<Rightarrow> string \<Rightarrow>
    string \<Rightarrow> (string \<times> string \<times> error, 'w) op" where
  "ExecToPodThroughAPI rco command containerName podName namespace =
     bnd (call (apiAddToScheme rco) (\<lambda>_. [])) (\<lambda>err.
     if err \<noteq> None then ret ([], [], Some (Err (''error adding to scheme: '' @ fmtError err)))
     else
       bnd (call (apiNewSPDYExecutor rco command containerName podName namespace) (\<lambda>_. [])) (\<lambda>err.
       if err \<noteq> None then ret ([], [], Some (Err (''error while creating Executor: '' @ fmtError err)))
       else
         bnd (call (apiStream rco command containerName podName namespace)
            (\<lambda>(out, errOut, err). [ExecEv command containerName podName namespace out errOut err]))
          (\<lambda>(out, errOut, err).
          if err \<noteq> None then ret (out, errOut, Some (Err (''error in Stream: '' @ fmtError err)))
          else ret (out, errOut, None))))"

section \<open>Polling\<close>

text \<open>
  \<^verbatim>\<open>WaitFor\<close>: the condition runs once per tick and once more when the channel is closed. The
  variables its closure captures are threaded through as \<open>'x\<close>.
\<close>

abbreviation ErrWaitTimeout :: gerr where
  "ErrWaitTimeout \<equiv> Err ''timed out waiting for the condition''"

text \<open>
  With a timeout: the ticker sends at most one tick per interval before the timeout closes the
  channel, and drops ticks while the condition runs; how many remain is up to the environment.
\<close>

fun waitFor :: "(bool, 's) go \<Rightarrow> ('x \<Rightarrow> (bool \<times> error \<times> 'x, 's) go) \<Rightarrow> nat \<Rightarrow> 'x \<Rightarrow> (error \<times> 'x, 's) go"
  where
  "waitFor tick fn 0 x =
     bnd (fn x) (\<lambda>(ok, err, x').
     if err \<noteq> None then ret (err, x') else if ok then ret (None, x')
     else ret (Some ErrWaitTimeout, x'))"
| "waitFor tick fn (Suc n) x =
     bnd tick (\<lambda>isOpen.
     bnd (fn x) (\<lambda>(ok, err, x').
     if err \<noteq> None then ret (err, x') else if ok then ret (None, x')
     else if \<not> isOpen then ret (Some ErrWaitTimeout, x') else waitFor tick fn n x'))"

text \<open>Without a timeout: the channel is never closed. \<open>None\<close> when the condition never decides.\<close>

partial_function (option) waitForever ::
    "('x \<Rightarrow> (bool \<times> error \<times> 'x, 's) go) \<Rightarrow> 'x \<Rightarrow> 's \<Rightarrow> ((error \<times> 'x) outcome \<times> 's) option" where
  "waitForever fn x s =
     (case fn x s of
        (Ret (ok, err, x'), s') \<Rightarrow>
          if err \<noteq> None then Some (Ret (err, x'), s')
          else if ok then Some (Ret (None, x'), s')
          else waitForever fn x' s'
      | (Panic, s') \<Rightarrow> Some (Panic, s')
      | (Diverge, s') \<Rightarrow> Some (Diverge, s'))"

text \<open>\<open>time.Duration\<close> values are 64-bit counts of nanoseconds.\<close>

definition nsPerSecond :: int64 where "nsPerSecond = 1000000000"

definition minutes :: "int32 \<Rightarrow> int64" where
  "minutes t = signed t * (60 * nsPerSecond)"

definition maxTicks :: "int64 \<Rightarrow> int64 \<Rightarrow> nat" where
  "maxTicks interval timeout = nat (sint timeout div sint interval)"

definition Poll :: "(bool, 's) go \<Rightarrow> int64 \<Rightarrow> int64 \<Rightarrow> ('x \<Rightarrow> (bool \<times> error \<times> 'x, 's) go) \<Rightarrow> 'x \<Rightarrow>
    (error \<times> 'x, 's) go" where
  "Poll tick interval timeout fn x s =
     (if timeout = 0
      then (case waitForever fn x s of None \<Rightarrow> (Diverge, s) | Some r \<Rightarrow> r)
      else waitFor tick fn (maxTicks interval timeout) x s)"

text \<open>The form in which the operator polls: every two seconds, up to its timeout in minutes.\<close>

definition pollOp :: "'w RedisClusterOperator \<Rightarrow> ('x \<Rightarrow> (bool \<times> error \<times> 'x, 'w) op) \<Rightarrow> 'x \<Rightarrow>
    (error \<times> 'x, 'w) op" where
  "pollOp rco = Poll (call (pollTick rco) (\<lambda>_. [])) (2 * nsPerSecond) (minutes (optClusterTimeOut rco))"

end
