(* ===== verification/Effects.thy ===== *)
theory Effects
  imports World
begin

text \<open>
  Reasoning about what a run leaves behind. \<open>yields I m Q\<close> says that every run of \<open>m\<close> from a state
  with \<open>I\<close> keeps \<open>I\<close> and relates, by \<open>Q\<close>, the way it ends to the entries it adds to the trace;
  \<open>emits G m\<close> is the case where only the added entries matter. The rules for composing them hold
  for every \<open>G\<close> that is true of the empty trace and closed under concatenation: that interface is
  the locale \<open>trace_discipline\<close>.
\<close>

definition yields :: "('w sys \<Rightarrow> bool) \<Rightarrow> ('a, 'w) op \<Rightarrow> ('a outcome \<Rightarrow> event list \<Rightarrow> bool) \<Rightarrow> bool" where
  "yields I m Q \<longleftrightarrow> (\<forall>s. I s \<longrightarrow> I (snd (m s)) \<and>
     (\<exists>evs. syTrace (snd (m s)) = syTrace s @ evs \<and> Q (fst (m s)) evs))"

definition emits :: "(event list \<Rightarrow> bool) \<Rightarrow> ('a, 'w) op \<Rightarrow> bool" where
  "emits G m \<longleftrightarrow> yields (\<lambda>_. True) m (\<lambda>_. G)"

text \<open>Conditions on the state that do not look at the environment or the trace.\<close>

definition aboutHeap :: "('w sys \<Rightarrow> bool) \<Rightarrow> bool" where
  "aboutHeap I \<longleftrightarrow> (\<forall>s w t. I s \<longrightarrow> I (s\<lparr>syWorld := w, syTrace := t\<rparr>))"

lemma aboutHeap_True [simp]: "aboutHeap (\<lambda>_. True)"
  by (simp add: aboutHeap_def)

lemma aboutHeap_at [simp]: "aboutHeap (\<lambda>s. R (syHeap s p))"
  by (simp add: aboutHeap_def)

section \<open>Relating results and entries\<close>

lemma yieldsI:
  assumes "\<And>s. I s \<Longrightarrow> I (snd (m s)) \<and> (\<exists>evs. syTrace (snd (m s)) = syTrace s @ evs \<and> Q (fst (m s)) evs)"
  shows "yields I m Q"
  using assms by (simp add: yields_def)

lemma yieldsE:
  assumes "yields I m Q" and "I s" and "m s = (r, s')"
  obtains evs where "I s'" and "syTrace s' = syTrace s @ evs" and "Q r evs"
  using assms unfolding yields_def by (metis fst_conv snd_conv)

lemma yields_mono: "yields I m Q \<Longrightarrow> (\<And>r evs. Q r evs \<Longrightarrow> R r evs) \<Longrightarrow> yields I m R"
  unfolding yields_def by blast

lemma yields_conj: "yields I m Q \<Longrightarrow> yields I m R \<Longrightarrow> yields I m (\<lambda>r evs. Q r evs \<and> R r evs)"
  unfolding yields_def by (metis same_append_eq)

lemma yields_emits: "yields (\<lambda>_. True) m Q \<Longrightarrow> (\<And>r evs. Q r evs \<Longrightarrow> G evs) \<Longrightarrow> emits G m"
  unfolding emits_def by (rule yields_mono)

lemma yields_ret: "Q (Ret x) [] \<Longrightarrow> yields I (ret x) Q"
  by (simp add: yields_def ret_def)

lemma yields_lift: "Q r [] \<Longrightarrow> yields I (lift r) Q"
  by (simp add: yields_def lift_def)

lemma yields_load: "(\<And>s. I s \<Longrightarrow> Q (Ret (syHeap s p)) []) \<Longrightarrow> yields I (load p) Q"
  by (simp add: yields_def load_def)

lemma yields_call: "aboutHeap I \<Longrightarrow> (\<And>r. Q (Ret r) (ev r)) \<Longrightarrow> yields I (call f ev) Q"
  by (auto simp: yields_def call_def aboutHeap_def split: prod.splits)

text \<open>Composition: a panic or divergence of the first part is the outcome of the whole.\<close>

lemma yields_bnd_result:
  assumes "yields I m Q" and "\<And>x evs. Q (Ret x) evs \<Longrightarrow> yields I (f x) (R x)"
    and "\<And>x r evs evs'. Q (Ret x) evs \<Longrightarrow> R x r evs' \<Longrightarrow> T r (evs @ evs')"
    and "\<And>evs. Q Panic evs \<Longrightarrow> T Panic evs" and "\<And>evs. Q Diverge evs \<Longrightarrow> T Diverge evs"
  shows "yields I (bnd m f) T"
proof (rule yieldsI)
  fix s assume I: "I s"
  obtain r s' where m: "m s = (r, s')" by (cases "m s")
  obtain evs where evs: "I s'" "syTrace s' = syTrace s @ evs" "Q r evs"
    using yieldsE [OF assms(1) I m] .
  show "I (snd (bnd m f s)) \<and>
      (\<exists>evs. syTrace (snd (bnd m f s)) = syTrace s @ evs \<and> T (fst (bnd m f s)) evs)"
  proof (cases r)
    case (Ret x)
    obtain r' s'' where f: "f x s' = (r', s'')" by (cases "f x s'")
    obtain evs' where "I s''" "syTrace s'' = syTrace s' @ evs'" "R x r' evs'"
      using yieldsE [OF assms(2) [OF evs(3) [unfolded Ret]] evs(1) f] .
    then show ?thesis
      using Ret m f evs assms(3) by (intro conjI exI [of _ "evs @ evs'"]) (simp_all add: bnd_def)
  next
    case Panic
    then show ?thesis using m evs assms(4) by (intro conjI exI [of _ evs]) (simp_all add: bnd_def)
  next
    case Diverge
    then show ?thesis using m evs assms(5) by (intro conjI exI [of _ evs]) (simp_all add: bnd_def)
  qed
qed

lemma yields_bnd:
  assumes "yields I m Q" and "\<And>x. yields I (f x) (R x)"
    and "\<And>x r evs evs'. Q (Ret x) evs \<Longrightarrow> R x r evs' \<Longrightarrow> T r (evs @ evs')"
    and "\<And>evs. Q Panic evs \<Longrightarrow> T Panic evs" and "\<And>evs. Q Diverge evs \<Longrightarrow> T Diverge evs"
  shows "yields I (bnd m f) T"
  using assms by (rule yields_bnd_result)

text \<open>A pure first part has one result and no entries.\<close>

lemma yields_bnd_lift:
  assumes "\<And>x. r = Ret x \<Longrightarrow> yields I (f x) Q" and "Q Panic []" and "Q Diverge []"
  shows "yields I (bnd (lift r) f) Q"
  using assms by (cases r) (auto simp: bnd_def lift_def yields_def)

lemma emits_mono: "emits G m \<Longrightarrow> (\<And>evs. G evs \<Longrightarrow> H evs) \<Longrightarrow> emits H m"
  unfolding emits_def by (rule yields_mono)

lemma emits_trace:
  assumes "emits G m" and "m s = (r, s')"
  obtains evs where "syTrace s' = syTrace s @ evs" and "G evs"
  using assms unfolding emits_def yields_def by (metis snd_conv)

section \<open>The interface of a trace property\<close>

locale trace_discipline =
  fixes G :: "event list \<Rightarrow> bool"
  assumes trace_nil: "G []"
    and trace_append: "G evs \<Longrightarrow> G evs' \<Longrightarrow> G (evs @ evs')"
begin

lemma emits_ret [emits_intros]: "emits G (ret x)"
  by (simp add: emits_def yields_ret trace_nil)

lemma emits_lift [emits_intros]: "emits G (lift r)"
  by (simp add: emits_def yields_lift trace_nil)

lemma emits_load [emits_intros]: "emits G (load p)"
  by (simp add: emits_def yields_def load_def trace_nil)

lemma emits_store [emits_intros]: "emits G (store p rc)"
  by (simp add: emits_def yields_def store_def trace_nil)

lemma emits_alloc [emits_intros]: "emits G (alloc rc)"
  by (simp add: emits_def yields_def alloc_def trace_nil)

lemma emits_bnd [emits_intros]: "emits G m \<Longrightarrow> (\<And>x. emits G (f x)) \<Longrightarrow> emits G (bnd m f)"
  unfolding emits_def by (erule yields_bnd [where R = "\<lambda>_ _. G"]) (auto intro: trace_append)

lemma emits_if [emits_intros]:
  "(b \<Longrightarrow> emits G m) \<Longrightarrow> (\<not> b \<Longrightarrow> emits G n) \<Longrightarrow> emits G (if b then m else n)"
  by simp

lemma emits_case_prod [emits_intros]:
  "(\<And>a b. emits G (f a b)) \<Longrightarrow> emits G (case p of (a, b) \<Rightarrow> f a b)"
  by (simp split: prod.splits)

lemma emits_case_option [emits_intros]:
  "emits G m \<Longrightarrow> (\<And>x. emits G (f x)) \<Longrightarrow> emits G (case y of None \<Rightarrow> m | Some x \<Rightarrow> f x)"
  by (simp split: option.splits)

lemma emits_case_list [emits_intros]:
  "emits G m \<Longrightarrow> (\<And>x xs. emits G (f x xs)) \<Longrightarrow> emits G (case y of [] \<Rightarrow> m | x # xs \<Rightarrow> f x xs)"
  by (simp split: list.splits)

lemma emits_Let [emits_intros]: "(\<And>x. emits G (f x)) \<Longrightarrow> emits G (let x = y in f x)"
  by simp

lemma emits_call: "(\<And>r. G (ev r)) \<Longrightarrow> emits G (call f ev)"
  by (simp add: emits_def yields_call)

lemma emits_silent [emits_intros]: "emits G (call f (\<lambda>_. []))"
  by (rule emits_call) (rule trace_nil)

lemma emits_now [emits_intros]: "emits G (now rco)"
  unfolding now_def by (rule emits_silent)

text \<open>
  Polling. When every run of the condition keeps \<open>G\<close>, and a run that says yes has \<open>L\<close>, then a poll
  keeps \<open>G\<close>, and a poll that succeeds ends in entries with \<open>L\<close>.
\<close>

definition pollPost :: "('x \<Rightarrow> event list \<Rightarrow> bool) \<Rightarrow> (error \<times> 'x) outcome \<Rightarrow> event list \<Rightarrow> bool" where
  "pollPost L r evs \<longleftrightarrow> G evs \<and> (\<forall>x. r = Ret (None, x) \<longrightarrow> (\<exists>ys zs. evs = ys @ zs \<and> L x zs))"

definition condPost ::
    "('x \<Rightarrow> event list \<Rightarrow> bool) \<Rightarrow> (bool \<times> error \<times> 'x) outcome \<Rightarrow> event list \<Rightarrow> bool" where
  "condPost L r evs \<longleftrightarrow> G evs \<and> (\<forall>x. r = Ret (True, None, x) \<longrightarrow> L x evs)"

lemma pollPost_append: "G evs \<Longrightarrow> pollPost L r evs' \<Longrightarrow> pollPost L r (evs @ evs')"
  unfolding pollPost_def by (metis append.assoc trace_append)

lemma yields_pollBody:
  assumes "yields I (fn x) (condPost L)" and "\<And>x'. yields I (k x') (pollPost L)"
  shows "yields I (bnd (fn x) (\<lambda>(ok, err, x').
     if err \<noteq> None then ret (err, x') else if ok then ret (None, x') else k x')) (pollPost L)"
proof (rule yields_bnd [OF assms(1),
      where R = "\<lambda>(ok, err, x') r evs.
        if err \<noteq> None then r = Ret (err, x') \<and> evs = [] else if ok then r = Ret (None, x') \<and> evs = []
        else pollPost L r evs"])
  fix y :: "bool \<times> error \<times> 'b"
  show "yields I (case y of (ok, err, x') \<Rightarrow>
      if err \<noteq> None then ret (err, x') else if ok then ret (None, x') else k x')
    ((\<lambda>(ok, err, x') r evs.
        if err \<noteq> None then r = Ret (err, x') \<and> evs = [] else if ok then r = Ret (None, x') \<and> evs = []
        else pollPost L r evs) y)"
    using assms(2) by (cases y) (auto intro!: yields_ret)
next
  fix y :: "bool \<times> error \<times> 'b" and r evs evs'
  assume "condPost L (Ret y) evs"
    and "(\<lambda>(ok, err, x') r evs.
        if err \<noteq> None then r = Ret (err, x') \<and> evs = [] else if ok then r = Ret (None, x') \<and> evs = []
        else pollPost L r evs) y r evs'"
  then show "pollPost L r (evs @ evs')"
    by (cases y) (auto simp: condPost_def pollPost_append split: if_splits, auto simp: pollPost_def intro: exI [of _ "[]"])
qed (auto simp: condPost_def pollPost_def)

lemma yields_waitFor:
  assumes "yields I tick (\<lambda>_ evs. evs = [])" and "\<And>x. yields I (fn x) (condPost L)"
  shows "yields I (waitFor tick fn n x) (pollPost L)"
proof (induction n arbitrary: x)
  case 0
  have "yields I (ret (Some ErrWaitTimeout, x')) (pollPost L)" for x'
    by (rule yields_ret) (simp add: pollPost_def trace_nil)
  from yields_pollBody [OF assms(2) this] show ?case by simp
next
  case (Suc n)
  have "yields I (if \<not> isOpen then ret (Some ErrWaitTimeout, x') else waitFor tick fn n x') (pollPost L)"
    for isOpen x' using Suc.IH by (cases isOpen) (simp_all add: yields_ret pollPost_def [of L "Ret (Some y, x)" for y x] trace_nil)
  from yields_pollBody [OF assms(2) this] show ?case
    unfolding waitFor.simps
    by (intro yields_bnd [OF assms(1), where R = "\<lambda>_. pollPost L"])
      (auto simp: pollPost_def trace_nil)
qed

lemma waitForever_trace:
  fixes fn :: "'x \<Rightarrow> (bool \<times> error \<times> 'x, 'w) op"
  assumes "\<forall>x. yields I (fn x) (condPost L)" and "I s" and "waitForever fn x s = Some r"
  shows "I (snd r) \<and> (\<exists>evs. syTrace (snd r) = syTrace s @ evs \<and> pollPost L (fst r) evs)"
proof (rule mp [OF waitForever.raw_induct
    [where P = "\<lambda>fn x s r. (\<forall>x. yields I (fn x) (condPost L)) \<and> I s \<longrightarrow>
        I (snd r) \<and> (\<exists>evs. syTrace (snd r) = syTrace s @ evs \<and> pollPost L (fst r) evs)"
      and xa = "((fn, x), s)" and y = r, unfolded prod.case, OF _ assms(3)] conjI [OF assms(1,2)]], intro impI)
  fix rec :: "('x \<Rightarrow> (bool \<times> error \<times> 'x, 'w) op) \<Rightarrow> 'x \<Rightarrow> 'w sys \<Rightarrow> ((error \<times> 'x) outcome \<times> 'w sys) option"
    and fn x and s :: "'w sys" and r
  assume rec: "\<And>fn x s r. rec fn x s = Some r \<Longrightarrow> (\<forall>x. yields I (fn x) (condPost L)) \<and> I s \<longrightarrow>
      I (snd r) \<and> (\<exists>evs. syTrace (snd r) = syTrace s @ evs \<and> pollPost L (fst r) evs)"
    and body: "(case fn x s of
        (Ret (ok, err, x'), s') \<Rightarrow>
          if err \<noteq> None then Some (Ret (err, x'), s')
          else if ok then Some (Ret (None, x'), s') else rec fn x' s'
      | (Panic, s') \<Rightarrow> Some (Panic, s') | (Diverge, s') \<Rightarrow> Some (Diverge, s')) = Some r"
    and pre: "(\<forall>x. yields I (fn x) (condPost L)) \<and> I s"
  obtain q s' where step: "fn x s = (q, s')" by (cases "fn x s")
  obtain evs where evs: "I s'" "syTrace s' = syTrace s @ evs" "condPost L q evs"
    using yieldsE [OF spec [OF conjunct1 [OF pre]] conjunct2 [OF pre] step] .
  show "I (snd r) \<and> (\<exists>evs. syTrace (snd r) = syTrace s @ evs \<and> pollPost L (fst r) evs)"
  proof (cases "\<exists>x'. q = Ret (False, None, x')")
    case True
    then obtain x' where "rec fn x' s' = Some r" using body step by auto
    then obtain evs' where more: "I (snd r)" "syTrace (snd r) = syTrace s' @ evs'" "pollPost L (fst r) evs'"
      using rec pre evs(1) by blast
    have "pollPost L (fst r) (evs @ evs')"
      using evs(3) more(3) by (intro pollPost_append) (simp_all add: condPost_def)
    then show ?thesis
      using evs(2) more(1,2) by (intro conjI exI [of _ "evs @ evs'"]) simp_all
  next
    case False
    then have "snd r = s'" "\<forall>x. fst r = Ret (None, x) \<longrightarrow> q = Ret (True, None, x)"
      using body step by (auto split: outcome.splits prod.splits if_splits)
    then show ?thesis
      using evs by (intro conjI exI [of _ evs]) (auto simp: condPost_def pollPost_def intro: exI [of _ "[]"])
  qed
qed

lemma yields_Poll:
  assumes "yields I tick (\<lambda>_ evs. evs = [])" and "\<And>x. yields I (fn x) (condPost L)"
  shows "yields I (Poll tick interval timeout fn x) (pollPost L)"
proof (cases "timeout = 0")
  case False
  then have "Poll tick interval timeout fn x = waitFor tick fn (maxTicks interval timeout) x"
    by (intro ext) (simp add: Poll_def)
  then show ?thesis using yields_waitFor [OF assms] by simp
next
  case True
  show ?thesis
  proof (rule yieldsI)
    fix s assume I: "I s"
    show "I (snd (Poll tick interval timeout fn x s)) \<and>
        (\<exists>evs. syTrace (snd (Poll tick interval timeout fn x s)) = syTrace s @ evs \<and>
          pollPost L (fst (Poll tick interval timeout fn x s)) evs)"
    proof (cases "waitForever fn x s")
      case None
      then show ?thesis using True I by (simp add: Poll_def pollPost_def trace_nil)
    next
      case (Some r)
      then show ?thesis using True waitForever_trace [where I = I and L = L, OF _ _ Some] I assms(2) by (simp add: Poll_def)
    qed
  qed
qed

lemma yields_pollOp:
  "aboutHeap I \<Longrightarrow> (\<And>x. yields I (fn x) (condPost L)) \<Longrightarrow> yields I (pollOp rco fn x) (pollPost L)"
  unfolding pollOp_def by (rule yields_Poll) (simp_all add: yields_call)

lemma emits_pollOp [emits_intros]:
  assumes "\<And>x. emits G (fn x)"
  shows "emits G (pollOp rco fn x)"
proof -
  have "yields (\<lambda>_. True) (fn x) (condPost (\<lambda>_ _. True))" for x
    using assms [of x] unfolding emits_def by (rule yields_mono) (simp add: condPost_def)
  from yields_pollOp [OF aboutHeap_True this] show ?thesis
    by (rule yields_emits) (simp add: pollPost_def)
qed

end

text \<open>The simplest instance: a property that every single entry has.\<close>

interpretation every: trace_discipline "list_all P" for P
  by unfold_locales auto

section \<open>Code that leaves the objects alone\<close>

definition quiet :: "('a, 'w) op \<Rightarrow> bool" where
  "quiet m \<longleftrightarrow> (\<forall>h n. yields (\<lambda>s. syHeap s = h \<and> syNext s = n) m (\<lambda>_ _. True))"

lemma quiet_heap: "quiet m \<Longrightarrow> m s = (r, s') \<Longrightarrow> syHeap s' = syHeap s \<and> syNext s' = syNext s"
  unfolding quiet_def yields_def by (metis snd_conv)

lemma quiet_yields:
  fixes m :: "('a, 'w) op"
  assumes "quiet m"
  shows "yields (\<lambda>_. True) m (\<lambda>_ _. True)"
  unfolding yields_def
proof (intro allI impI conjI TrueI)
  fix s :: "'w sys"
  have "yields (\<lambda>t. syHeap t = syHeap s \<and> syNext t = syNext s) m (\<lambda>_ _. True)"
    using assms by (simp add: quiet_def)
  then show "\<exists>evs. syTrace (snd (m s)) = syTrace s @ evs \<and> True"
    unfolding yields_def by blast
qed

lemma yields_frame:
  assumes "quiet m" and "yields (\<lambda>_. True) m Q"
    and "\<And>s t. I s \<Longrightarrow> syHeap t = syHeap s \<Longrightarrow> syNext t = syNext s \<Longrightarrow> I t"
  shows "yields I m Q"
proof (rule yieldsI)
  fix s assume I: "I s"
  obtain r s' where m: "m s = (r, s')" by (cases "m s")
  have "I s'" using quiet_heap [OF assms(1) m] assms(3) [OF I] by simp
  moreover have "\<exists>evs. syTrace (snd (m s)) = syTrace s @ evs \<and> Q (fst (m s)) evs"
    using assms(2) unfolding yields_def by blast
  ultimately show "I (snd (m s)) \<and> (\<exists>evs. syTrace (snd (m s)) = syTrace s @ evs \<and> Q (fst (m s)) evs)"
    using m by simp
qed

lemma quiet_ret [quiet_intros]: "quiet (ret x)"
  by (simp add: quiet_def yields_ret)

lemma quiet_lift [quiet_intros]: "quiet (lift r)"
  by (simp add: quiet_def yields_lift)

lemma quiet_load [quiet_intros]: "quiet (load p)"
  by (simp add: quiet_def yields_load)

lemma quiet_call [quiet_intros]: "quiet (call f ev)"
  unfolding quiet_def by (intro allI yields_call) (simp_all add: aboutHeap_def)

lemma quiet_bnd [quiet_intros]: "quiet m \<Longrightarrow> (\<And>x. quiet (f x)) \<Longrightarrow> quiet (bnd m f)"
  unfolding quiet_def by (intro allI yields_bnd [where Q = "\<lambda>_ _. True" and R = "\<lambda>_ _ _. True"]) auto

lemma quiet_if [quiet_intros]: "(b \<Longrightarrow> quiet m) \<Longrightarrow> (\<not> b \<Longrightarrow> quiet n) \<Longrightarrow> quiet (if b then m else n)"
  by simp

lemma quiet_case_prod [quiet_intros]:
  "(\<And>a b. quiet (f a b)) \<Longrightarrow> quiet (case p of (a, b) \<Rightarrow> f a b)"
  by (simp split: prod.splits)

lemma quiet_case_option [quiet_intros]:
  "quiet m \<Longrightarrow> (\<And>x. quiet (f x)) \<Longrightarrow> quiet (case y of None \<Rightarrow> m | Some x \<Rightarrow> f x)"
  by (simp split: option.splits)

lemma quiet_case_list [quiet_intros]:
  "quiet m \<Longrightarrow> (\<And>x xs. quiet (f x xs)) \<Longrightarrow> quiet (case y of [] \<Rightarrow> m | x # xs \<Rightarrow> f x xs)"
  by (simp split: list.splits)

lemma quiet_Let [quiet_intros]: "(\<And>x. quiet (f x)) \<Longrightarrow> quiet (let x = y in f x)"
  by simp

lemma quiet_pollOp [quiet_intros]:
  fixes fn :: "'x \<Rightarrow> (bool \<times> error \<times> 'x, 'w) op"
  assumes "\<And>x. quiet (fn x)"
  shows "quiet (pollOp rco fn x)"
  unfolding quiet_def
proof (intro allI)
  fix h n
  let ?I = "\<lambda>s. syHeap s = h \<and> syNext s = n"
  have any: "every.condPost (\<lambda>_. True) (\<lambda>_ _. True) r evs" for r :: "(bool \<times> error \<times> 'x) outcome" and evs
    by (simp add: every.condPost_def list_all_iff)
  have cond: "yields ?I (fn x) (every.condPost (\<lambda>_. True) (\<lambda>_ _. True))" for x
    using assms [of x] unfolding quiet_def by (blast intro: yields_mono any)
  have "aboutHeap ?I" by (simp add: aboutHeap_def)
  from every.yields_pollOp [OF this cond] show "yields ?I (pollOp rco fn x) (\<lambda>_ _. True)"
    by (rule yields_mono) simp
qed

lemmas client_defs = endpointsGet_def statefulSetsGet_def nodesList_def now_def

lemma quiet_clients [quiet_intros]:
  "quiet (endpointsGet rco ns name)" "quiet (statefulSetsGet rco ns name)" "quiet (nodesList rco)"
  "quiet (now rco)"
  by (simp_all add: client_defs quiet_call)

section \<open>What a poll does\<close>

text \<open>
  The number of entries of a poll with timeout: one run of the condition per tick, and one more.
\<close>

lemma waitFor_length:
  fixes fn :: "'x \<Rightarrow> (bool \<times> error \<times> 'x, 'w) op"
  assumes "emits (\<lambda>evs. evs = []) tick" and "\<And>x. emits (\<lambda>evs. length evs \<le> k) (fn x)"
  shows "emits (\<lambda>evs. length evs \<le> k * Suc n) (waitFor tick fn n x)"
proof (induction n arbitrary: x)
  case 0
  show ?case
    unfolding waitFor.simps emits_def
    by (rule yields_bnd [OF assms(2) [unfolded emits_def], where R = "\<lambda>_ _ evs. evs = []"])
      (auto simp: split_def intro!: yields_ret)
next
  case (Suc n)
  have inner: "yields (\<lambda>_. True) (case y of (ok, err, x') \<Rightarrow>
      if err \<noteq> None then ret (err, x') else if ok then ret (None, x')
      else if \<not> isOpen then ret (Some ErrWaitTimeout, x') else waitFor tick fn n x')
      (\<lambda>_ evs. length evs \<le> k * Suc n)" for y isOpen
    using Suc.IH [unfolded emits_def] by (auto split: prod.splits intro!: yields_ret)
  have step: "yields (\<lambda>_. True) (bnd (fn x) (\<lambda>(ok, err, x').
      if err \<noteq> None then ret (err, x') else if ok then ret (None, x')
      else if \<not> isOpen then ret (Some ErrWaitTimeout, x') else waitFor tick fn n x'))
      (\<lambda>_ evs. length evs \<le> k * Suc (Suc n))" for isOpen
    by (rule yields_bnd [OF assms(2) [unfolded emits_def] inner]) auto
  show ?case
    unfolding waitFor.simps emits_def
    by (rule yields_bnd [OF assms(1) [unfolded emits_def] step]) auto
qed

section \<open>Code that always returns\<close>

definition returns :: "('a, 's) go \<Rightarrow> bool" where
  "returns m \<longleftrightarrow> (\<forall>s. \<exists>x s'. m s = (Ret x, s'))"

lemma returns_ret [simp]: "returns (ret x)"
  by (simp add: returns_def ret_def)

lemma returns_call [simp]: "returns (call f ev)"
  by (auto simp: returns_def call_def split: prod.splits)

lemma returns_bnd: "returns m \<Longrightarrow> (\<And>x. returns (f x)) \<Longrightarrow> returns (bnd m f)"
  unfolding returns_def by (metis bnd_Ret)

lemma returns_waitFor:
  assumes "returns tick" and "\<And>x. returns (fn x)"
  shows "returns (waitFor tick fn n x)"
proof (induction n arbitrary: x)
  case 0
  show ?case
    by (simp, rule returns_bnd [OF assms(2)]) (simp split: prod.splits)
next
  case (Suc n)
  show ?case
    by (simp, intro returns_bnd [OF assms(1)] returns_bnd [OF assms(2)]) (simp add: Suc split: prod.splits)
qed

lemma returns_pollOp:
  assumes "minutes (optClusterTimeOut rco) \<noteq> 0" and "\<And>x. returns (fn x)"
  shows "returns (pollOp rco fn x)"
proof -
  have "pollOp rco fn x = waitFor (call (pollTick rco) (\<lambda>_. [])) fn
      (maxTicks (2 * nsPerSecond) (minutes (optClusterTimeOut rco))) x"
    using assms(1) by (intro ext) (simp add: pollOp_def Poll_def)
  then show ?thesis
    using returns_waitFor [of "call (pollTick rco) (\<lambda>_. [])" fn, OF returns_call assms(2)] by simp
qed

text \<open>The number of ticks for a timeout of sensible size: thirty a minute.\<close>

lemma minutes_int: "minutes t = word_of_int (sint t * 60000000000)"
proof -
  have "(60 * nsPerSecond) = word_of_int 60000000000" by (simp add: nsPerSecond_def)
  then show ?thesis unfolding minutes_def scast_eq by (simp only: wi_hom_mult)
qed
lemma sint_minutes:
  assumes "0 < sint t" and "sint t \<le> 100000000"
  shows "sint (minutes t) = sint t * 60000000000"
proof -
  have "sint (minutes t) = signed_take_bit 63 (sint t * 60000000000)"
    unfolding minutes_int by (simp only: sint_sbintrunc' len_num1 len_bit0 One_nat_def) simp
  also have "\<dots> = sint t * 60000000000"
  using assms by (intro signed_take_bit_int_eq_self) simp_all
  finally show ?thesis .
qed

lemma poll_ticks:
  assumes "0 < sint t" and "sint t \<le> 100000000"
  shows "minutes t \<noteq> 0" and "maxTicks (2 * nsPerSecond) (minutes t) = 30 * nat (sint t)"
proof -
  show "minutes t \<noteq> 0"
    using sint_minutes [OF assms] assms(1) by auto
  have "sint (2 * nsPerSecond) = 2000000000"
    by (simp add: nsPerSecond_def)
  moreover have "sint t * 60000000000 div 2000000000 = 30 * sint t"
    by (simp add: mult.commute)
  ultimately show "maxTicks (2 * nsPerSecond) (minutes t) = 30 * nat (sint t)"
    using sint_minutes [OF assms] by (simp add: maxTicks_def nat_mult_distrib)
qed

lemma pollOp_length:
  fixes fn :: "'x \<Rightarrow> (bool \<times> error \<times> 'x, 'w) op"
  assumes "0 < sint (optClusterTimeOut rco)" and "sint (optClusterTimeOut rco) \<le> 100000000"
    and "\<And>x. emits (\<lambda>evs. length evs \<le> k) (fn x)"
  shows "emits (\<lambda>evs. length evs \<le> k * (30 * nat (sint (optClusterTimeOut rco)) + 1)) (pollOp rco fn x)"
proof -
  have "pollOp rco fn x = waitFor (call (pollTick rco) (\<lambda>_. [])) fn
      (30 * nat (sint (optClusterTimeOut rco))) x"
    using poll_ticks [OF assms(1,2)] by (intro ext) (simp add: pollOp_def Poll_def)
  moreover have "emits (\<lambda>evs. evs = []) (call (pollTick rco) (\<lambda>_. []))"
    by (simp add: emits_def yields_call)
  from waitFor_length [OF this assms(3)]
  have "emits (\<lambda>evs. length evs \<le> k * Suc (30 * nat (sint (optClusterTimeOut rco))))
      (waitFor (call (pollTick rco) (\<lambda>_. [])) fn (30 * nat (sint (optClusterTimeOut rco))) x)" .
  ultimately show ?thesis by simp
qed

end
