(* ===== verification/Commands.thy ===== *)
theory Commands
  imports Effects ClusterText
begin

text \<open>
  The commands the operator runs inside a pod, one definition per function of
  \<^verbatim>\<open>sync_rediscluster.go\<close> and \<^verbatim>\<open>check_rediscluster.go\<close>: the queries, the
  waiting for a consistent cluster, and the loops that add masters and slaves and move slots.
\<close>

section \<open>The model\<close>

definition shellCmd :: "string \<Rightarrow> string list" where
  "shellCmd c = [''/bin/sh'', ''-c'', c]"

text \<open>The tail every command error has: the outputs and the error itself.\<close>

definition outputsText :: "string \<Rightarrow> string \<Rightarrow> error \<Rightarrow> string" where
  "outputsText out errOut err =
     '' -- stdout: '' @ out @ [nl] @ '' -- stderr: '' @ errOut @ [nl] @ '' -- error: '' @ fmtError err"

definition clusterInfoCmd :: "string \<Rightarrow> string list" where
  "clusterInfoCmd ip = shellCmd (''redis-cli -c -h '' @ ip @ '' -p 6379 cluster info'')"

definition execClusterInfo :: "'w RedisClusterOperator \<Rightarrow> string \<Rightarrow> string \<Rightarrow> string \<Rightarrow>
    (bool \<times> bool \<times> error, 'w) op" where
  "execClusterInfo rco clusterInstanceIp podName namespace =
     bnd (ExecToPodThroughAPI rco (clusterInfoCmd clusterInstanceIp) redisContainerName podName namespace)
       (\<lambda>(out, errOut, err).
     if err \<noteq> None \<or> errOut \<noteq> []
     then ret (False, False, Some (Err (''exec cluster info Command: '' @
            fmtStrings (clusterInfoCmd clusterInstanceIp) @ [nl] @ outputsText out errOut err)))
     else
       (case parseClusterInfo out of
          None \<Rightarrow> ret (False, False, Some (Err (''cluster info by podName: '' @ namespace @ ''/'' @ podName @
                   '' match cluster_known_nodes error. stdout: '' @ out @ [nl])))
        | Some (isOK, isOnlyKnownSelf) \<Rightarrow> ret (isOK, isOnlyKnownSelf, None)))"

definition checkCmd :: "string \<Rightarrow> string list" where
  "checkCmd ip = shellCmd ('' redis-trib.rb check '' @ ip @ '':6379 '')"

definition execCheckRedisCluster :: "'w RedisClusterOperator \<Rightarrow> string \<Rightarrow> string \<Rightarrow> string \<Rightarrow>
    (bool \<times> error, 'w) op" where
  "execCheckRedisCluster rco existInstanceIp podName namespace =
     bnd (ExecToPodThroughAPI rco (checkCmd existInstanceIp) redisContainerName podName namespace)
       (\<lambda>(out, errOut, err).
     if err \<noteq> None \<or> errOut \<noteq> []
     then ret (False, Some (Err (''redisClusterInstance: '' @ namespace @ ''/'' @ podName @
            '' -- checkCmd: '' @ fmtStrings (checkCmd existInstanceIp) @ [nl] @ outputsText out errOut err)))
     else if contains out ''[ERR]'' then ret (False, None)
     else ret (True, None))"

text \<open>The condition polled by \<^verbatim>\<open>waitRedisStatusOK\<close>; it captures no variable.\<close>

definition statusOKCond :: "'w RedisClusterOperator \<Rightarrow> string \<Rightarrow> string \<Rightarrow> string \<Rightarrow> unit \<Rightarrow>
    (bool \<times> error \<times> unit, 'w) op" where
  "statusOKCond rco existInstanceIp podName namespace u =
     bnd (execCheckRedisCluster rco existInstanceIp podName namespace) (\<lambda>(isOK, err).
     if err \<noteq> None then ret (False, Some (Err (''check redis cluster is error: '' @ fmtError err)), ())
     else if \<not> isOK then ret (False, None, ())
     else ret (True, None, ()))"

text \<open>The error made on a failed poll carries the error of the poll.\<close>

definition waitRedisStatusOK :: "'w RedisClusterOperator \<Rightarrow> string \<Rightarrow> string \<Rightarrow> string \<Rightarrow>
    (error, 'w) op" where
  "waitRedisStatusOK rco existInstanceIp podName namespace =
     bnd (pollOp rco (statusOKCond rco existInstanceIp podName namespace) ()) (\<lambda>(err, _).
     if err \<noteq> None
     then ret (Some (Err (''check redisCluster: '' @ namespace @ ''/'' @ podName @ '' status error: '' @
            fmtError err)))
     else ret None)"

definition clusterNodesCmd :: "string \<Rightarrow> string list" where
  "clusterNodesCmd ip = shellCmd (''redis-cli -c -h '' @ ip @ '' -p 6379 cluster nodes'')"

definition execClusterNodes :: "'w RedisClusterOperator \<Rightarrow> string \<Rightarrow> string \<Rightarrow> string \<Rightarrow>
    (redisNodeInfo list \<times> error, 'w) op" where
  "execClusterNodes rco clusterInstanceIp namespace podName =
     bnd (waitRedisStatusOK rco clusterInstanceIp podName namespace) (\<lambda>err.
     if err \<noteq> None then ret ([], err)
     else
       bnd (ExecToPodThroughAPI rco (clusterNodesCmd clusterInstanceIp) redisContainerName podName namespace)
         (\<lambda>(out, errOut, err).
       if err \<noteq> None \<or> errOut \<noteq> []
       then ret ([], Some (Err (''exec cluster nodes Command: '' @
              fmtStrings (clusterNodesCmd clusterInstanceIp) @ [nl] @ outputsText out errOut err @ '' '' @ [nl])))
       else bnd (lift (parseClusterNodes out)) (\<lambda>nodeInfos. ret (nodeInfos, None))))"

definition tribInfoCmd :: "string \<Rightarrow> string list" where
  "tribInfoCmd ip = shellCmd ('' redis-trib.rb info '' @ ip @ '':6379 '')"

definition execRedisTribInfo :: "'w RedisClusterOperator \<Rightarrow> string \<Rightarrow> string \<Rightarrow> string \<Rightarrow>
    (redisTribInfo list \<times> error, 'w) op" where
  "execRedisTribInfo rco existInstanceIp podName namespace =
     bnd (ExecToPodThroughAPI rco (tribInfoCmd existInstanceIp) redisContainerName podName namespace)
       (\<lambda>(out, errOut, err).
     if err \<noteq> None \<or> errOut \<noteq> [] \<or> contains out ''[ERR]''
     then ret ([], Some (Err (''redisClusterInstance: '' @ namespace @ ''/'' @ podName @
            '' -- infoCmd: '' @ fmtStrings (tribInfoCmd existInstanceIp) @ [nl] @ outputsText out errOut err)))
     else ret (parseTribInfo out, None))"

definition createCmd :: "string list \<Rightarrow> string list" where
  "createCmd masterInstanceIps = shellCmd (''echo yes | redis-trib.rb create '' @
     concat (map (\<lambda>ip. ip @ '':6379'' @ '' '') masterInstanceIps))"

text \<open>The reference comes from an endpoint address and is dereferenced after the command is built.\<close>

definition createCluster :: "'w RedisClusterOperator \<Rightarrow> string list \<Rightarrow> ObjectReference option \<Rightarrow>
    (error, 'w) op" where
  "createCluster rco masterInstanceIps reference =
     bnd (lift (deref reference)) (\<lambda>r.
     bnd (ExecToPodThroughAPI rco (createCmd masterInstanceIps) redisContainerName (orName r) (orNamespace r))
       (\<lambda>(out, errOut, err).
     if err \<noteq> None \<or> errOut \<noteq> []
     then ret (Some (Err (''exec create Master Command: '' @ fmtStrings (createCmd masterInstanceIps) @
            [nl] @ outputsText out errOut err)))
     else ret None))"

text \<open>One command of a batch, and the error made when it fails.\<close>

definition runCommand :: "'w RedisClusterOperator \<Rightarrow> string list \<Rightarrow> string \<Rightarrow> string \<Rightarrow> string \<Rightarrow>
    string \<Rightarrow> (error, 'w) op" where
  "runCommand rco cmd podName namespace msg tailText =
     bnd (ExecToPodThroughAPI rco cmd redisContainerName podName namespace) (\<lambda>(out, errOut, err).
     if err \<noteq> None \<or> errOut \<noteq> []
     then ret (Some (Err (''redisCluster: '' @ namespace @ ''/'' @ podName @ msg @
            outputsText out errOut err @ tailText)))
     else ret None)"

definition addSlaveCmd :: "string \<Rightarrow> string \<Rightarrow> string \<Rightarrow> string list" where
  "addSlaveCmd nodeId slaveIp masterIp = shellCmd (''redis-trib.rb add-node --slave --master-id '' @
     nodeId @ '' '' @ slaveIp @ '':6379 '' @ masterIp @ '':6379'')"

text \<open>
  The loop over the slaves; its index runs over the three slices at once, so it is a recursion
  on their element-wise triples.
\<close>

fun addSlaveLoop :: "'w RedisClusterOperator \<Rightarrow> string \<Rightarrow> string \<Rightarrow> string \<Rightarrow>
    (string \<times> string \<times> string) list \<Rightarrow> (error, 'w) op" where
  "addSlaveLoop rco firstMasterIp namespace podName [] = ret None"
| "addSlaveLoop rco firstMasterIp namespace podName ((slaveIp, masterIp, nodeId) # rest) =
     bnd (waitRedisStatusOK rco firstMasterIp podName namespace) (\<lambda>err.
     if err \<noteq> None then ret err
     else
       bnd (runCommand rco (addSlaveCmd nodeId slaveIp masterIp) podName namespace
          '' -- add new slave to cluster is error'' []) (\<lambda>err.
       if err \<noteq> None then ret err
       else addSlaveLoop rco firstMasterIp namespace podName rest))"

definition addSlaveToClusterMaster :: "'w RedisClusterOperator \<Rightarrow> string list \<Rightarrow> string list \<Rightarrow>
    string list \<Rightarrow> string \<Rightarrow> string \<Rightarrow> (error, 'w) op" where
  "addSlaveToClusterMaster rco slaveInstanceIps masterInstanceIps masterInstanceNodeIds namespace podName =
     (if length slaveInstanceIps \<noteq> length masterInstanceIps \<or>
         length masterInstanceIps \<noteq> length masterInstanceNodeIds
      then ret (Some (Err (''add Slave To ClusterMaster check len error, slaveInstanceIps: '' @
             fmtStrings slaveInstanceIps @ '', masterInstanceIps: '' @ fmtStrings masterInstanceIps @
             '', masterInstanceNodeIds: '' @ fmtStrings masterInstanceNodeIds)))
      else addSlaveLoop rco (hd masterInstanceIps) namespace podName
             (zip slaveInstanceIps (zip masterInstanceIps masterInstanceNodeIds)))"

definition addMasterCmd :: "string \<Rightarrow> string \<Rightarrow> string list" where
  "addMasterCmd newIp existIp =
     shellCmd ('' redis-trib.rb add-node '' @ newIp @ '':6379 '' @ existIp @ '':6379 '')"

fun addMasterNodeToRedisCluster :: "'w RedisClusterOperator \<Rightarrow> string list \<Rightarrow> string \<Rightarrow> string \<Rightarrow>
    string \<Rightarrow> (error, 'w) op" where
  "addMasterNodeToRedisCluster rco [] existInstanceIp podName namespace = ret None"
| "addMasterNodeToRedisCluster rco (newIp # newIps) existInstanceIp podName namespace =
     bnd (waitRedisStatusOK rco existInstanceIp podName namespace) (\<lambda>err.
     if err \<noteq> None then ret err
     else
       bnd (runCommand rco (addMasterCmd newIp existInstanceIp) podName namespace
          '' -- add new master to cluster is error'' []) (\<lambda>err.
       if err \<noteq> None then ret err
       else addMasterNodeToRedisCluster rco newIps existInstanceIp podName namespace))"

definition pipelineOf :: "string \<Rightarrow> string" where
  "pipelineOf crdPipeline = (if crdPipeline \<noteq> [] then crdPipeline else defaultPipeline)"

definition rebalanceCmd :: "string \<Rightarrow> string \<Rightarrow> string list" where
  "rebalanceCmd pipeline existIp = shellCmd ('' redis-trib.rb  rebalance --use-empty-masters --pipeline '' @
     pipeline @ '' '' @ existIp @ '':6379 '')"

definition rebalanceRedisClusterSlotsToMasterNode :: "'w RedisClusterOperator \<Rightarrow> string \<Rightarrow> string \<Rightarrow>
    string \<Rightarrow> string \<Rightarrow> (error, 'w) op" where
  "rebalanceRedisClusterSlotsToMasterNode rco existInstanceIp podName namespace crdPipeline =
     bnd (waitRedisStatusOK rco existInstanceIp podName namespace) (\<lambda>err.
     if err \<noteq> None then ret err
     else
       let cmd = rebalanceCmd (pipelineOf crdPipeline) existInstanceIp in
       runCommand rco cmd podName namespace ('' -- rebalanceCmd: '' @ fmtStrings cmd @ [nl]) [])"

definition reshareCmd :: "SlotsAssignStrategy \<Rightarrow> int32 \<Rightarrow> string \<Rightarrow> string \<Rightarrow> string \<Rightarrow> string list" where
  "reshareCmd strategy slots nodeId pipeline existIp = shellCmd ('' redis-trib.rb reshard --from '' @
     sasFromReplicas strategy @ '' --to '' @ nodeId @ '' --slots '' @ showInt (sint slots) @
     '' --pipeline '' @ pipeline @ '' --yes '' @ existIp @ '':6379 '')"

text \<open>
  The loop over the new masters with its index, which selects the strategy; a missing strategy
  or a nil slot count panics after the waiting.
\<close>

fun reshareLoop :: "'w RedisClusterOperator \<Rightarrow> SlotsAssignStrategy list \<Rightarrow> string \<Rightarrow> string \<Rightarrow>
    string \<Rightarrow> string \<Rightarrow> (nat \<times> string) list \<Rightarrow> (error, 'w) op" where
  "reshareLoop rco strategies pipeline existInstanceIp podName namespace [] = ret None"
| "reshareLoop rco strategies pipeline existInstanceIp podName namespace ((i, nodeId) # rest) =
     bnd (waitRedisStatusOK rco existInstanceIp podName namespace) (\<lambda>err.
     if err \<noteq> None then ret err
     else
       bnd (lift (idx strategies i)) (\<lambda>strategy.
       bnd (lift (deref (sasSlots strategy))) (\<lambda>slots.
       let cmd = reshareCmd strategy slots nodeId pipeline existInstanceIp in
       bnd (runCommand rco cmd podName namespace ('' -- reshareCmd: '' @ fmtStrings cmd @ [nl]) ('' '' @ [nl]))
         (\<lambda>err.
       if err \<noteq> None then ret err
       else reshareLoop rco strategies pipeline existInstanceIp podName namespace rest))))"

definition reshareRedisClusterSlotsToMasterNode :: "'w RedisClusterOperator \<Rightarrow>
    RedisClusterUpdateStrategy \<Rightarrow> string \<Rightarrow> string \<Rightarrow> string \<Rightarrow> string list \<Rightarrow> (error, 'w) op" where
  "reshareRedisClusterSlotsToMasterNode rco assignStrategies existInstanceIp podName namespace newMasterNodeIds =
     reshareLoop rco (usAssignStrategies assignStrategies) (pipelineOf (usPipeline assignStrategies))
       existInstanceIp podName namespace (List.enumerate 0 newMasterNodeIds)"

text \<open>
  \<^verbatim>\<open>getIsClusteredAndOnlyKnownSelfAddress\<close>: the last component is the error; note that the exit
  on a failed cluster returns the nil error of the successful command.
\<close>

fun classifyAddresses :: "'w RedisClusterOperator \<Rightarrow> EndpointAddress list \<Rightarrow>
    EndpointAddress list \<times> EndpointAddress list \<Rightarrow>
    (EndpointAddress list \<times> EndpointAddress list \<times> error, 'w) op" where
  "classifyAddresses rco [] (clustered, onlySelf) = ret (clustered, onlySelf, None)"
| "classifyAddresses rco (addr # addrs) (clustered, onlySelf) =
     bnd (lift (deref (eaTargetRef addr))) (\<lambda>r.
     bnd (execClusterInfo rco (eaIP addr) (orName r) (orNamespace r)) (\<lambda>(isOK, isOnlyKnownSelf, err).
     if err \<noteq> None then ret ([], [], err)
     else if \<not> isOnlyKnownSelf \<and> \<not> isOK then ret ([], [], err)
     else if \<not> isOnlyKnownSelf \<and> isOK then classifyAddresses rco addrs (clustered @ [addr], onlySelf)
     else classifyAddresses rco addrs (clustered, onlySelf @ [addr])))"

definition getIsClusteredAndOnlyKnownSelfAddress :: "'w RedisClusterOperator \<Rightarrow> EndpointAddress list \<Rightarrow>
    (EndpointAddress list \<times> EndpointAddress list \<times> error, 'w) op" where
  "getIsClusteredAndOnlyKnownSelfAddress rco addresses = classifyAddresses rco addresses ([], [])"

text \<open>
  The condition polled by \<^verbatim>\<open>checkPodInstanceIsReadyByEndpoint\<close>, with the captured
  \<open>endpoints\<close>. A lister that reports success hands out an object, so that the test for nil
  guards the dereference of the replica count.
\<close>

definition noReplicas :: "StatefulSet option \<Rightarrow> bool outcome" where
  "noReplicas sts = (case sts of None \<Rightarrow> Ret True | Some s \<Rightarrow> obnd (deref (ssReplicas s)) (\<lambda>n. Ret (n = 0)))"

definition podsReadyReply :: "'w RedisClusterOperator \<Rightarrow> RedisCluster \<Rightarrow> Endpoints \<times> error \<Rightarrow>
    (bool \<times> error \<times> Endpoints option, 'w) op" where
  "podsReadyReply rco rc = (\<lambda>(endpoints, err).
     if err \<noteq> None
     then ret (False, Some (Err (''get redis cluster endpoint is error: '' @ fmtError err)), Some endpoints)
     else
       (case epSubsets endpoints of
          None \<Rightarrow>
            bnd (call (stsListerGet rco (rcNamespace rc) (rcName rc)) (\<lambda>_. [])) (\<lambda>(sts, err).
            if err \<noteq> None
            then ret (False, Some (Err (''get redis cluster StatefulSets: '' @ rcNamespace rc @ ''/'' @
                   rcName rc @ '' is error: '' @ fmtError err)), Some endpoints)
            else
              bnd (lift (noReplicas sts)) (\<lambda>none.
              if none
              then ret (False, Some (Err (''redis cluster StatefulSets: '' @ rcNamespace rc @ ''/'' @
                     rcName rc @ '' is not exist or Spec.Replicas is 0'')), Some endpoints)
              else ret (False, None, Some endpoints)))
        | Some [] \<Rightarrow> ret (False, None, Some endpoints)
        | Some (addresses # _) \<Rightarrow>
            bnd (lift (deref (spReplicas (rcSpec rc)))) (\<lambda>replicas.
            ret (lenInt32 addresses = replicas, None, Some endpoints))))"

definition podsReadyCond :: "'w RedisClusterOperator \<Rightarrow> rcPtr \<Rightarrow> Endpoints option \<Rightarrow>
    (bool \<times> error \<times> Endpoints option, 'w) op" where
  "podsReadyCond rco p old =
     bnd (load p) (\<lambda>rc.
     bnd (endpointsGet rco (rcNamespace rc) (rcName rc)) (podsReadyReply rco rc))"

definition checkPodInstanceIsReadyByEndpoint :: "'w RedisClusterOperator \<Rightarrow> rcPtr \<Rightarrow>
    (Endpoints option \<times> error, 'w) op" where
  "checkPodInstanceIsReadyByEndpoint rco p =
     bnd (pollOp rco (podsReadyCond rco p) None) (\<lambda>(err, endpoints).
     if err \<noteq> None then ret (Some emptyEndpoints, err) else ret (endpoints, None))"

section \<open>The entries of commands\<close>

text \<open>
  The shell text of a command, the commands that change the Redis cluster, a check that went
  well, and a command that succeeded in the sense of the code (no error, nothing on stderr).
\<close>

definition shellText :: "string list \<Rightarrow> string" where
  "shellText cmd = (if length cmd = 3 then cmd ! 2 else [])"

definition changingCommand :: "string list \<Rightarrow> bool" where
  "changingCommand cmd \<longleftrightarrow> prefix '' redis-trib.rb add-node'' (shellText cmd) \<or>
     prefix ''redis-trib.rb add-node'' (shellText cmd) \<or>
     prefix '' redis-trib.rb  rebalance'' (shellText cmd) \<or>
     prefix '' redis-trib.rb reshard'' (shellText cmd)"

definition changesCluster :: "event \<Rightarrow> bool" where
  "changesCluster e = (case e of ExecEv cmd c pod ns out errOut err \<Rightarrow> changingCommand cmd | _ \<Rightarrow> False)"

text \<open>The command that creates the Redis cluster; it runs before there is a cluster to check.\<close>

definition creatingCommand :: "string list \<Rightarrow> bool" where
  "creatingCommand cmd \<longleftrightarrow> prefix ''echo yes | redis-trib.rb create'' (shellText cmd)"

definition createsCluster :: "event \<Rightarrow> bool" where
  "createsCluster e = (case e of ExecEv cmd c pod ns out errOut err \<Rightarrow> creatingCommand cmd | _ \<Rightarrow> False)"

definition succeeded :: "event \<Rightarrow> bool" where
  "succeeded e = (case e of ExecEv cmd c pod ns out errOut err \<Rightarrow> errOut = [] \<and> err = None | _ \<Rightarrow> True)"

definition okCheck :: "event \<Rightarrow> bool" where
  "okCheck e = (case e of ExecEv cmd c pod ns out errOut err \<Rightarrow>
       prefix '' redis-trib.rb check'' (shellText cmd) \<and> errOut = [] \<and> err = None \<and> \<not> contains out ''[ERR]''
     | _ \<Rightarrow> False)"

definition inRedisContainer :: "event \<Rightarrow> bool" where
  "inRedisContainer e = (case e of ExecEv cmd c pod ns out errOut err \<Rightarrow> c = redisContainerName | _ \<Rightarrow> True)"

definition isExec :: "event \<Rightarrow> bool" where
  "isExec e = (case e of ExecEv cmd c pod ns out errOut err \<Rightarrow> True | _ \<Rightarrow> False)"

lemmas event_class_simps = changesCluster_def createsCluster_def succeeded_def okCheck_def inRedisContainer_def isExec_def

lemma exec_classes:
  "changesCluster (ExecEv cmd c pod ns out errOut err) \<longleftrightarrow> changingCommand cmd"
  "createsCluster (ExecEv cmd c pod ns out errOut err) \<longleftrightarrow> creatingCommand cmd"
  "succeeded (ExecEv cmd c pod ns out errOut err) \<longleftrightarrow> errOut = [] \<and> err = None"
  by (simp_all add: event_class_simps)

lemma shellText_shellCmd [simp]: "shellText (shellCmd c) = c"
  by (simp add: shellText_def shellCmd_def)

lemma command_classes [simp]:
  "\<not> changingCommand (clusterInfoCmd ip)" "\<not> changingCommand (checkCmd ip)"
  "\<not> changingCommand (clusterNodesCmd ip)" "\<not> changingCommand (tribInfoCmd ip)"
  "\<not> changingCommand (createCmd ips)"
  "changingCommand (addSlaveCmd n s m)" "changingCommand (addMasterCmd n m)"
  "changingCommand (rebalanceCmd pl m)" "changingCommand (reshareCmd st sl n pl m)"
  "\<not> creatingCommand (clusterInfoCmd ip)" "\<not> creatingCommand (checkCmd ip)"
  "\<not> creatingCommand (clusterNodesCmd ip)" "\<not> creatingCommand (tribInfoCmd ip)"
  "creatingCommand (createCmd ips)"
  "\<not> creatingCommand (addSlaveCmd n s m)" "\<not> creatingCommand (addMasterCmd n m)"
  "\<not> creatingCommand (rebalanceCmd pl m)" "\<not> creatingCommand (reshareCmd st sl n pl m)"
  "prefix '' redis-trib.rb check'' (shellText (checkCmd ip))"
  by (simp_all add: changingCommand_def creatingCommand_def clusterInfoCmd_def checkCmd_def clusterNodesCmd_def
      tribInfoCmd_def createCmd_def addSlaveCmd_def addMasterCmd_def rebalanceCmd_def reshareCmd_def)

text \<open>
  The order the operator keeps: a command that changes the cluster comes directly after a check
  that went well.
\<close>

fun guardedFrom :: "bool \<Rightarrow> event list \<Rightarrow> bool" where
  "guardedFrom ok [] = True"
| "guardedFrom ok (e # es) = ((changesCluster e \<longrightarrow> ok) \<and> guardedFrom (okCheck e) es)"

definition guardedTrace :: "event list \<Rightarrow> bool" where
  "guardedTrace evs = guardedFrom False evs"

lemma guardedFrom_mono: "guardedFrom False evs \<Longrightarrow> guardedFrom ok evs"
  by (cases evs) auto

lemma guardedFrom_append: "guardedFrom ok evs \<Longrightarrow> guardedFrom False evs' \<Longrightarrow> guardedFrom ok (evs @ evs')"
  by (induction evs arbitrary: ok) (auto intro: guardedFrom_mono)

text \<open>
  What the guard means for a trace: each changing command has its check right before it.
\<close>

lemma guardedFrom_nth:
  assumes "guardedFrom ok evs" and "i < length evs" and "changesCluster (evs ! i)"
  shows "if i = 0 then ok else okCheck (evs ! (i - 1))"
  using assms
proof (induction evs arbitrary: ok i)
  case (Cons e es)
  show ?case
  proof (cases i)
    case (Suc j)
    then show ?thesis
      using Cons.IH [of "okCheck e" j] Cons.prems by (cases j) auto
  qed (use Cons.prems in auto)
qed simp

section \<open>What one command yields\<close>

text \<open>Every result of running a command, with its entry.\<close>

definition execPost :: "string list \<Rightarrow> string \<Rightarrow> string \<Rightarrow> (string \<times> string \<times> error) outcome \<Rightarrow>
    event list \<Rightarrow> bool" where
  "execPost cmd pod ns r evs \<longleftrightarrow>
     (evs = [] \<and> (\<exists>e. r = Ret ([], [], Some e))) \<or>
     (\<exists>out errOut err err'. evs = [ExecEv cmd redisContainerName pod ns out errOut err] \<and>
        r = Ret (out, errOut, err') \<and> (err' = None \<longleftrightarrow> err = None))"

lemma yields_exec:
  "aboutHeap I \<Longrightarrow> yields I (ExecToPodThroughAPI rco cmd redisContainerName pod ns) (execPost cmd pod ns)"
  unfolding ExecToPodThroughAPI_def
proof (rule yields_bnd [where Q = "\<lambda>r evs. evs = [] \<and> (\<exists>x. r = Ret x)" and R = "\<lambda>_. execPost cmd pod ns"])
  assume I: "aboutHeap I"
  show "yields I (call (apiAddToScheme rco) (\<lambda>_. [])) (\<lambda>r evs. evs = [] \<and> (\<exists>x. r = Ret x))"
    by (rule yields_call [OF I]) simp
  have stream: "yields I (bnd (call f (\<lambda>(out, errOut, err).
        [ExecEv cmd redisContainerName pod ns out errOut err]))
      (\<lambda>(out, errOut, err).
        if err \<noteq> None then ret (out, errOut, Some (Err (''error in Stream: '' @ fmtError err)))
        else ret (out, errOut, None))) (execPost cmd pod ns)" for f
    by (rule yields_bnd [where Q = "\<lambda>r evs. \<exists>out errOut err. r = Ret (out, errOut, err) \<and>
          evs = [ExecEv cmd redisContainerName pod ns out errOut err]"
          and R = "\<lambda>(out, errOut, err) r evs. evs = [] \<and>
            (\<exists>err'. r = Ret (out, errOut, err') \<and> (err' = None \<longleftrightarrow> err = None))"])
      (auto simp: execPost_def split: prod.splits intro!: yields_ret yields_call [OF I])
  show "yields I (if err \<noteq> None then ret ([], [], Some (Err (''error adding to scheme: '' @ fmtError err)))
     else bnd (call (apiNewSPDYExecutor rco cmd redisContainerName pod ns) (\<lambda>_. [])) (\<lambda>err.
       if err \<noteq> None then ret ([], [], Some (Err (''error while creating Executor: '' @ fmtError err)))
       else
         bnd (call (apiStream rco cmd redisContainerName pod ns)
            (\<lambda>(out, errOut, err). [ExecEv cmd redisContainerName pod ns out errOut err]))
          (\<lambda>(out, errOut, err).
          if err \<noteq> None then ret (out, errOut, Some (Err (''error in Stream: '' @ fmtError err)))
          else ret (out, errOut, None)))) (execPost cmd pod ns)" for err
    using stream
    by (auto simp: execPost_def intro!: yields_ret yields_call [OF I]
        yields_bnd [where Q = "\<lambda>r evs. evs = [] \<and> (\<exists>x. r = Ret x)" and R = "\<lambda>_. execPost cmd pod ns"])
qed auto

text \<open>The check, and the wait for a good check.\<close>

definition checkEvent :: "string \<Rightarrow> string \<Rightarrow> string \<Rightarrow> event \<Rightarrow> bool" where
  "checkEvent ip pod ns e \<longleftrightarrow>
     (\<exists>out errOut err. e = ExecEv (checkCmd ip) redisContainerName pod ns out errOut err)"

definition okCheckEvent :: "string \<Rightarrow> string \<Rightarrow> string \<Rightarrow> event \<Rightarrow> bool" where
  "okCheckEvent ip pod ns e \<longleftrightarrow> checkEvent ip pod ns e \<and> okCheck e"

lemma yields_check:
  assumes "aboutHeap I"
  shows "yields I (execCheckRedisCluster rco ip pod ns) (\<lambda>r evs. list_all (checkEvent ip pod ns) evs \<and>
    length evs \<le> 1 \<and> (r = Ret (True, None) \<longrightarrow> (\<exists>e. evs = [e] \<and> okCheckEvent ip pod ns e)))"
  unfolding execCheckRedisCluster_def
  by (rule yields_bnd [OF yields_exec [OF assms],
        where R = "\<lambda>(out, errOut, err) r evs. evs = [] \<and> (r = Ret (True, None) \<longrightarrow>
          err = None \<and> errOut = [] \<and> \<not> contains out ''[ERR]'')"])
    (auto simp: execPost_def okCheckEvent_def checkEvent_def okCheck_def split: prod.splits
      intro!: yields_ret)

lemma yields_statusOKCond:
  assumes "aboutHeap I"
  shows "yields I (statusOKCond rco ip pod ns u) (\<lambda>r evs. list_all (checkEvent ip pod ns) evs \<and>
    length evs \<le> 1 \<and> (r = Ret (True, None, ()) \<longrightarrow> (\<exists>e. evs = [e] \<and> okCheckEvent ip pod ns e)))"
  unfolding statusOKCond_def
  by (rule yields_bnd [OF yields_check [OF assms],
        where R = "\<lambda>(isOK, err) r evs. evs = [] \<and> (r = Ret (True, None, ()) \<longrightarrow> isOK \<and> err = None)"])
    (auto split: prod.splits intro!: yields_ret)

lemma yields_wait:
  assumes "aboutHeap I"
  shows "yields I (waitRedisStatusOK rco ip pod ns) (\<lambda>r evs. list_all (checkEvent ip pod ns) evs \<and>
    (r = Ret None \<longrightarrow> (\<exists>ys e. evs = ys @ [e] \<and> okCheckEvent ip pod ns e)))"
proof -
  have cond: "yields I (statusOKCond rco ip pod ns u)
      (every.condPost (checkEvent ip pod ns) (\<lambda>_ evs. \<exists>e. evs = [e] \<and> okCheckEvent ip pod ns e))" for u
    by (rule yields_mono [OF yields_statusOKCond [OF assms]]) (simp add: every.condPost_def)
  show ?thesis
    unfolding waitRedisStatusOK_def
    by (rule yields_bnd [OF every.yields_pollOp [OF assms cond],
          where R = "\<lambda>(err, _) r evs. evs = [] \<and> (r = Ret None \<longleftrightarrow> err = None)"])
      (fastforce simp: every.pollPost_def split: prod.splits intro!: yields_ret)+
qed

section \<open>Batches of guarded commands\<close>

text \<open>
  The loops that add masters, add slaves and move slots have one shape: wait for a good check, run
  the command for the next item, stop at the first failure. The interface of such a batch:
\<close>

definition stepPost :: "string list \<Rightarrow> error outcome \<Rightarrow> event list \<Rightarrow> bool" where
  "stepPost cmd r evs \<longleftrightarrow>
     (evs = [] \<and> r \<noteq> Ret None) \<or>
     (\<exists>pod ns out errOut err. evs = [ExecEv cmd redisContainerName pod ns out errOut err] \<and>
        (r = Ret None \<longleftrightarrow> err = None \<and> errOut = []))"

text \<open>
  What a batch does: its changing commands are the commands of an initial part of the items, in
  order, all but possibly the last succeeded, and the batch succeeds exactly when every item's
  command was sent and succeeded.
\<close>

definition changes :: "event list \<Rightarrow> event list" where
  "changes evs = filter changesCluster evs"

definition batchPost :: "string list list \<Rightarrow> error outcome \<Rightarrow> event list \<Rightarrow> bool" where
  "batchPost cmds r evs \<longleftrightarrow> guardedTrace evs \<and>
     prefix (map evCommand (changes evs)) cmds \<and>
     list_all succeeded (butlast (changes evs)) \<and>
     (r = Ret None \<longleftrightarrow> length (changes evs) = length cmds \<and> list_all succeeded (changes evs))"

lemma check_not_change: "checkEvent ip pod ns e \<Longrightarrow> \<not> changesCluster e"
  by (auto simp: checkEvent_def changesCluster_def)

lemma guardedFrom_checks:
  "list_all (checkEvent ip pod ns) evs \<Longrightarrow> guardedFrom ok evs"
  by (induction evs arbitrary: ok) (auto dest: check_not_change)

lemma guardedFrom_checks_then:
  "list_all (checkEvent ip pod ns) evs \<Longrightarrow> okCheckEvent ip pod ns e \<Longrightarrow> guardedFrom True evs' \<Longrightarrow>
    guardedFrom ok (evs @ e # evs')"
  by (induction evs arbitrary: ok) (auto simp: okCheckEvent_def dest: check_not_change)

lemma changes_append [simp]: "changes (evs @ evs') = changes evs @ changes evs'"
  by (simp add: changes_def)

lemma changes_checks: "list_all (checkEvent ip pod ns) evs \<Longrightarrow> changes evs = []"
  by (auto simp: changes_def filter_empty_conv list_all_iff dest: check_not_change)

locale guarded_batch =
  fixes run :: "'i list \<Rightarrow> (error, 'w) op" and wait :: "(error, 'w) op"
    and command :: "'i \<Rightarrow> string list" and step :: "'i \<Rightarrow> (error, 'w) op"
  assumes run_Nil: "run [] = ret None"
    and run_Cons: "run (x # xs) = bnd wait (\<lambda>err. if err \<noteq> None then ret err
        else bnd (step x) (\<lambda>err. if err \<noteq> None then ret err else run xs))"
    and waits: "yields (\<lambda>_. True) wait (\<lambda>r evs. \<exists>ip pod ns. list_all (checkEvent ip pod ns) evs \<and>
        (r = Ret None \<longrightarrow> (\<exists>ys e. evs = ys @ [e] \<and> okCheckEvent ip pod ns e)))"
    and steps: "yields (\<lambda>_. True) (step x) (stepPost (command x))"
    and changing: "changingCommand (command x)"
begin

definition itemPost :: "'i \<Rightarrow> 'i list \<Rightarrow> error outcome \<Rightarrow> event list \<Rightarrow> bool" where
  "itemPost x xs r evs \<longleftrightarrow> (evs = [] \<and> r \<noteq> Ret None) \<or>
     (\<exists>e evs'. evs = e # evs' \<and> changesCluster e \<and> evCommand e = command x \<and>
        (if succeeded e then batchPost (map command xs) r evs' else r \<noteq> Ret None \<and> evs' = []))"

lemma itemPost_simps:
  "itemPost x xs r [] \<longleftrightarrow> r \<noteq> Ret None"
  "itemPost x xs r (e # evs) \<longleftrightarrow> changesCluster e \<and> evCommand e = command x \<and>
     (if succeeded e then batchPost (map command xs) r evs else r \<noteq> Ret None \<and> evs = [])"
  by (auto simp: itemPost_def)

lemma item:
  assumes "yields (\<lambda>_. True) (run xs) (batchPost (map command xs))"
  shows "yields (\<lambda>_. True) (bnd (step x) (\<lambda>err. if err \<noteq> None then ret err else run xs)) (itemPost x xs)"
proof (rule yields_bnd [OF steps, where R = "\<lambda>err r evs.
      if err \<noteq> None then evs = [] \<and> r = Ret err else batchPost (map command xs) r evs"])
  show "yields (\<lambda>_. True) (if err \<noteq> None then ret err else run xs) (\<lambda>r evs.
      if err \<noteq> None then evs = [] \<and> r = Ret err else batchPost (map command xs) r evs)" for err
    using assms by (auto intro!: yields_ret)
qed (auto simp: stepPost_def itemPost_simps exec_classes changing split: if_splits)

lemma batch: "yields (\<lambda>_. True) (run xs) (batchPost (map command xs))"
proof (induction xs)
  case Nil
  show ?case
    unfolding run_Nil by (rule yields_ret) (simp add: batchPost_def changes_def guardedTrace_def)
next
  case (Cons x xs)
  show ?case
    unfolding run_Cons
  proof (rule yields_bnd [OF waits, where R = "\<lambda>err r evs.
        if err \<noteq> None then evs = [] \<and> r = Ret err else itemPost x xs r evs"])
    show "yields (\<lambda>_. True) (if err \<noteq> None then ret err
        else bnd (step x) (\<lambda>err. if err \<noteq> None then ret err else run xs)) (\<lambda>r evs.
          if err \<noteq> None then evs = [] \<and> r = Ret err else itemPost x xs r evs)" for err
      using item [OF Cons.IH] by (auto intro!: yields_ret)
  next
    fix err r evs evs'
    assume wait: "\<exists>ip pod ns. list_all (checkEvent ip pod ns) evs \<and>
        (Ret err = Ret None \<longrightarrow> (\<exists>ys e. evs = ys @ [e] \<and> okCheckEvent ip pod ns e))"
      and rest: "if err \<noteq> None then evs' = [] \<and> r = Ret err else itemPost x xs r evs'"
    then obtain ip pod ns where checks: "list_all (checkEvent ip pod ns) evs"
      and ok: "err = None \<Longrightarrow> \<exists>ys e. evs = ys @ [e] \<and> okCheckEvent ip pod ns e" by auto
    note none = changes_checks [OF checks]
    show "batchPost (map command (x # xs)) r (evs @ evs')"
    proof (cases "err = None \<and> evs' \<noteq> []")
      case False
      then have "evs' = []" "r \<noteq> Ret None"
        using rest by (auto simp: itemPost_def split: if_splits)
      then show ?thesis
        using checks none by (simp add: batchPost_def guardedTrace_def guardedFrom_checks)
    next
      case True
      then obtain ys c where evs: "evs = ys @ [c]" "okCheckEvent ip pod ns c"
        using ok by blast
      obtain e tl where e: "evs' = e # tl" "changesCluster e" "evCommand e = command x"
        "if succeeded e then batchPost (map command xs) r tl else r \<noteq> Ret None \<and> tl = []"
        using True rest by (auto simp: itemPost_def)
      have "guardedFrom False tl"
        using e(4) by (auto simp: batchPost_def guardedTrace_def split: if_splits)
      then have "guardedFrom True (e # tl)"
        by (simp add: guardedFrom_mono)
      then have guarded: "guardedTrace (evs @ evs')"
        using checks evs(2) guardedFrom_checks_then unfolding evs(1) e(1) guardedTrace_def by auto
      have ch: "changes (evs @ evs') = e # changes tl"
        using none e(1,2) by (simp add: changes_def)
      show ?thesis
        using e(3,4) guarded unfolding batchPost_def ch
        by (auto split: if_splits simp: changes_def)
    qed
  qed (auto simp: batchPost_def guardedTrace_def changes_checks guardedFrom_checks)
qed

end

end
