(* ===== verification/Guarded.thy ===== *)
theory Guarded
  imports Commands
begin

text \<open>
  What the commands of \<^verbatim>\<open>Commands\<close> guarantee: the waiting for a good check, the three
  batches of guarded commands (adding masters, adding slaves, moving slots), the readiness of
  pods, the classification of instances; and the interface \<open>operator_trace\<close> through which the
  handlers above them are proved.
\<close>

section \<open>Commands leave the resources alone\<close>

lemma quiet_exec [quiet_intros]: "quiet (ExecToPodThroughAPI rco cmd c pod ns)"
  unfolding ExecToPodThroughAPI_def by (intro quiet_intros)

lemma quiet_wait [quiet_intros]: "quiet (waitRedisStatusOK rco ip pod ns)"
  unfolding waitRedisStatusOK_def statusOKCond_def execCheckRedisCluster_def by (intro quiet_intros)

lemma quiet_queries [quiet_intros]:
  "quiet (execClusterInfo rco ip pod ns)" "quiet (execClusterNodes rco ip ns pod)"
  "quiet (execRedisTribInfo rco ip pod ns)" "quiet (createCluster rco ips reference)"
  unfolding execClusterInfo_def execClusterNodes_def execRedisTribInfo_def createCluster_def
  by (intro quiet_intros)+

lemma quiet_runCommand [quiet_intros]: "quiet (runCommand rco cmd pod ns msg tailText)"
  unfolding runCommand_def by (intro quiet_intros)

lemma quiet_addMasters [quiet_intros]: "quiet (addMasterNodeToRedisCluster rco ips ip pod ns)"
  by (induction ips) (simp_all only: addMasterNodeToRedisCluster.simps, (intro quiet_intros | assumption)+)

lemma quiet_addSlaves [quiet_intros]: "quiet (addSlaveToClusterMaster rco ss ms ids ns pod)"
proof -
  have "quiet (addSlaveLoop rco m0 ns pod items)" for m0 items
    by (induction items) (simp_all only: addSlaveLoop.simps split_paired_all, (intro quiet_intros | assumption)+)
  then show ?thesis unfolding addSlaveToClusterMaster_def by (intro quiet_intros)
qed

lemma quiet_rebalance [quiet_intros]: "quiet (rebalanceRedisClusterSlotsToMasterNode rco ip pod ns pl)"
  unfolding rebalanceRedisClusterSlotsToMasterNode_def by (intro quiet_intros)

lemma quiet_reshare [quiet_intros]: "quiet (reshareRedisClusterSlotsToMasterNode rco us ip pod ns ids)"
proof -
  have "quiet (reshareLoop rco sts pl ip pod ns items)" for sts pl items
    by (induction items) (simp_all only: reshareLoop.simps split_paired_all, (intro quiet_intros | assumption)+)
  then show ?thesis unfolding reshareRedisClusterSlotsToMasterNode_def .
qed

lemma quiet_classify [quiet_intros]: "quiet (getIsClusteredAndOnlyKnownSelfAddress rco addrs)"
proof -
  have "quiet (classifyAddresses rco addrs st)" for st
    by (induction addrs arbitrary: st)
      (simp_all only: classifyAddresses.simps split_paired_all, (intro quiet_intros | assumption)+)
  then show ?thesis unfolding getIsClusteredAndOnlyKnownSelfAddress_def .
qed

lemma quiet_podsReadyReply [quiet_intros]: "quiet (podsReadyReply rco rc x)"
  unfolding podsReadyReply_def by (cases x) (simp, intro conjI impI quiet_intros)

lemma quiet_checkPods [quiet_intros]: "quiet (checkPodInstanceIsReadyByEndpoint rco p)"
  unfolding checkPodInstanceIsReadyByEndpoint_def podsReadyCond_def by (intro quiet_intros)

section \<open>The batches\<close>

lemma yields_runCommand:
  "yields (\<lambda>_. True) (runCommand rco cmd pod ns msg tailText) (stepPost cmd)"
  unfolding runCommand_def
  by (rule yields_bnd [OF yields_exec [OF aboutHeap_True],
        where R = "\<lambda>(out, errOut, err) r evs. evs = [] \<and> (r = Ret None \<longleftrightarrow> err = None \<and> errOut = [])"])
    (auto simp: execPost_def stepPost_def split: prod.splits intro!: yields_ret)

lemma yields_waits:
  "yields (\<lambda>_. True) (waitRedisStatusOK rco ip pod ns) (\<lambda>r evs. \<exists>ip pod ns.
     list_all (checkEvent ip pod ns) evs \<and>
     (r = Ret None \<longrightarrow> (\<exists>ys e. evs = ys @ [e] \<and> okCheckEvent ip pod ns e)))"
  by (rule yields_mono [OF yields_wait [OF aboutHeap_True]]) blast

interpretation masters: guarded_batch "\<lambda>ips. addMasterNodeToRedisCluster rco ips ip pod ns"
  "waitRedisStatusOK rco ip pod ns" "\<lambda>new. addMasterCmd new ip"
  "\<lambda>new. runCommand rco (addMasterCmd new ip) pod ns '' -- add new master to cluster is error'' []"
  for rco ip pod ns
  by unfold_locales (simp_all add: yields_waits yields_runCommand)

interpretation slaves: guarded_batch "addSlaveLoop rco m0 ns pod"
  "waitRedisStatusOK rco m0 pod ns" "\<lambda>(s, m, n). addSlaveCmd n s m"
  "\<lambda>(s, m, n). runCommand rco (addSlaveCmd n s m) pod ns '' -- add new slave to cluster is error'' []"
  for rco m0 ns pod
  by unfold_locales (auto simp: yields_waits yields_runCommand split: prod.splits)

definition reshareStep :: "'w RedisClusterOperator \<Rightarrow> SlotsAssignStrategy list \<Rightarrow> string \<Rightarrow> string \<Rightarrow>
    string \<Rightarrow> string \<Rightarrow> nat \<times> string \<Rightarrow> (error, 'w) op" where
  "reshareStep rco strategies pipeline ip pod ns item = (case item of (i, nodeId) \<Rightarrow>
     bnd (lift (idx strategies i)) (\<lambda>strategy.
     bnd (lift (deref (sasSlots strategy))) (\<lambda>slots.
     let cmd = reshareCmd strategy slots nodeId pipeline ip in
     runCommand rco cmd pod ns ('' -- reshareCmd: '' @ fmtStrings cmd @ [nl]) ('' '' @ [nl]))))"

definition reshareItemCmd :: "SlotsAssignStrategy list \<Rightarrow> string \<Rightarrow> string \<Rightarrow> nat \<times> string \<Rightarrow> string list" where
  "reshareItemCmd strategies pipeline ip item = (case item of (i, nodeId) \<Rightarrow>
     reshareCmd (strategies ! i) (the (sasSlots (strategies ! i))) nodeId pipeline ip)"

lemma yields_reshareStep:
  "yields (\<lambda>_. True) (reshareStep rco strategies pipeline ip pod ns item)
     (stepPost (reshareItemCmd strategies pipeline ip item))"
proof (cases item)
  case (Pair i nodeId)
  show ?thesis
  proof (cases "i < length strategies \<and> sasSlots (strategies ! i) \<noteq> None")
    case True
    then show ?thesis
      using Pair by (auto simp: reshareStep_def reshareItemCmd_def idx_def Let_def yields_runCommand)
  next
    case False
    then have "reshareStep rco strategies pipeline ip pod ns item = lift Panic"
      using Pair by (cases "i < length strategies") (auto simp: reshareStep_def idx_def)
    then show ?thesis by (simp add: yields_lift stepPost_def)
  qed
qed

interpretation reshares: guarded_batch "reshareLoop rco strategies pipeline ip pod ns"
  "waitRedisStatusOK rco ip pod ns" "reshareItemCmd strategies pipeline ip"
  "reshareStep rco strategies pipeline ip pod ns"
  for rco strategies pipeline ip pod ns
proof unfold_locales
  show "reshareLoop rco strategies pipeline ip pod ns (x # xs) =
      bnd (waitRedisStatusOK rco ip pod ns) (\<lambda>err. if err \<noteq> None then ret err
        else bnd (reshareStep rco strategies pipeline ip pod ns x)
          (\<lambda>err. if err \<noteq> None then ret err else reshareLoop rco strategies pipeline ip pod ns xs))"
    for x xs
    by (cases x) (simp add: reshareStep_def bnd_assoc Let_def cong: if_cong)
  show "changingCommand (reshareItemCmd strategies pipeline ip x)" for x
    by (simp add: reshareItemCmd_def split: prod.splits)
qed (simp_all add: yields_waits yields_reshareStep)

lemma yields_explicit:
  assumes "yields (\<lambda>_. True) m Q"
  shows "\<exists>evs. syTrace (snd (m s)) = syTrace s @ evs \<and> Q (fst (m s)) evs"
  using assms by (simp add: yields_def)

text \<open>
  Adding masters. Whatever the environment answers, the add-node commands that
  \<open>addMasterNodeToRedisCluster\<close> sends are those of an initial part of the given instances, in their
  order; each is sent right after a check that went well; all but possibly the last succeeded; and
  the call returns without error exactly when every instance's command was sent and succeeded.
\<close>

theorem addMasterNodeToRedisCluster_sends:
  "\<exists>evs. syTrace (snd (addMasterNodeToRedisCluster rco ips ip pod ns s)) = syTrace s @ evs \<and>
     guardedTrace evs \<and>
     prefix (map evCommand (changes evs)) (map (\<lambda>new. addMasterCmd new ip) ips) \<and>
     list_all succeeded (butlast (changes evs)) \<and>
     (fst (addMasterNodeToRedisCluster rco ips ip pod ns s) = Ret None \<longleftrightarrow>
        length (changes evs) = length ips \<and> list_all succeeded (changes evs))"
  using yields_explicit [OF masters.batch [where rco = rco and ip = ip and pod = pod and ns = ns and xs = ips], of s]
  by (simp add: batchPost_def)

text \<open>
  Adding slaves. With slices of equal length, the commands sent are an initial part of the
  slave, master and node-id triples in order, each after a good check, and the call succeeds
  exactly when all of them were sent and succeeded; with slices of different length it sends
  nothing at all and fails.
\<close>

theorem addSlaveToClusterMaster_sends:
  "\<exists>evs. syTrace (snd (addSlaveToClusterMaster rco ss ms ids ns pod s)) = syTrace s @ evs \<and>
     guardedTrace evs \<and>
     (if length ss = length ms \<and> length ms = length ids
      then prefix (map evCommand (changes evs)) (map (\<lambda>(s, m, n). addSlaveCmd n s m) (zip ss (zip ms ids))) \<and>
        list_all succeeded (butlast (changes evs)) \<and>
        (fst (addSlaveToClusterMaster rco ss ms ids ns pod s) = Ret None \<longleftrightarrow>
           length (changes evs) = length ss \<and> list_all succeeded (changes evs))
      else evs = [] \<and> (\<exists>e. fst (addSlaveToClusterMaster rco ss ms ids ns pod s) = Ret (Some e)))"
proof (cases "length ss = length ms \<and> length ms = length ids")
  case True
  then show ?thesis
    using yields_explicit [OF slaves.batch [where rco = rco and ?m0.0 = "hd ms" and ns = ns and pod = pod and xs = "zip ss (zip ms ids)"], of s]
    by (simp add: batchPost_def addSlaveToClusterMaster_def)
next
  case False
  then show ?thesis
    by (intro exI [of _ "[]"]) (auto simp: addSlaveToClusterMaster_def ret_def guardedTrace_def)
qed

text \<open>
  Moving slots to the new masters. The reshard commands pair the new masters with the
  strategies by position, are sent in order and each after a good check, and the call returns
  without error exactly when every new master got its command and all of them succeeded.
\<close>

theorem reshareRedisClusterSlots_sends:
  "\<exists>evs. syTrace (snd (reshareRedisClusterSlotsToMasterNode rco us ip pod ns ids s)) = syTrace s @ evs \<and>
     guardedTrace evs \<and>
     prefix (map evCommand (changes evs)) (map (\<lambda>(i, n). reshareCmd (usAssignStrategies us ! i)
         (the (sasSlots (usAssignStrategies us ! i))) n (pipelineOf (usPipeline us)) ip)
       (List.enumerate 0 ids)) \<and>
     list_all succeeded (butlast (changes evs)) \<and>
     (fst (reshareRedisClusterSlotsToMasterNode rco us ip pod ns ids s) = Ret None \<longleftrightarrow>
        length (changes evs) = length ids \<and> list_all succeeded (changes evs))"
proof -
  have "reshareItemCmd sts pl ip = (\<lambda>(i, n). reshareCmd (sts ! i) (the (sasSlots (sts ! i))) n pl ip)"
    for sts pl by (rule ext) (simp add: reshareItemCmd_def split: prod.splits)
  then show ?thesis
    using yields_explicit [OF reshares.batch [where rco = rco and strategies = "usAssignStrategies us" and
          pipeline = "pipelineOf (usPipeline us)" and ip = ip and pod = pod and ns = ns and
          xs = "List.enumerate 0 ids"], of s]
    by (simp add: batchPost_def reshareRedisClusterSlotsToMasterNode_def)
qed

section \<open>Waiting\<close>

lemma returns_exec: "returns (ExecToPodThroughAPI rco cmd c pod ns)"
  unfolding ExecToPodThroughAPI_def
  by (intro returns_bnd returns_call) (auto intro!: returns_bnd split: prod.splits)

lemma returns_statusOKCond: "returns (statusOKCond rco ip pod ns u)"
  unfolding statusOKCond_def execCheckRedisCluster_def
  by (intro returns_bnd returns_exec) (auto split: prod.splits)

text \<open>
  C37: waiting for a consistent cluster ends, and says yes only on evidence. With a timeout between
  1 minute and 100 million minutes the wait returns; it executes only checks of the given instance,
  at most one every two seconds of the timeout and one more; and it returns no error only if the
  last of them had no error, an empty stderr and no \<open>[ERR]\<close> in its output.
\<close>

theorem waitRedisStatusOK_bounded:
  assumes "0 < sint (optClusterTimeOut rco)" and "sint (optClusterTimeOut rco) \<le> 100000000"
  shows "\<exists>err s' evs. waitRedisStatusOK rco ip pod ns s = (Ret err, s') \<and>
    syTrace s' = syTrace s @ evs \<and> list_all (checkEvent ip pod ns) evs \<and>
    length evs \<le> 30 * nat (sint (optClusterTimeOut rco)) + 1 \<and>
    (err = None \<longrightarrow> evs \<noteq> [] \<and> okCheck (last evs))"
proof -
  have "returns (waitRedisStatusOK rco ip pod ns)"
    unfolding waitRedisStatusOK_def
    by (intro returns_bnd returns_pollOp returns_statusOKCond poll_ticks(1) [OF assms])
      (auto split: prod.splits)
  then obtain err s' where run: "waitRedisStatusOK rco ip pod ns s = (Ret err, s')"
    unfolding returns_def by blast
  have "emits (\<lambda>evs. length evs \<le> 1) (statusOKCond rco ip pod ns u)" for u
    using yields_statusOKCond [OF aboutHeap_True] by (rule yields_emits) simp
  from pollOp_length [OF assms this]
  have "emits (\<lambda>evs. length evs \<le> 30 * nat (sint (optClusterTimeOut rco)) + 1)
      (pollOp rco (statusOKCond rco ip pod ns) ())" by simp
  then have "yields (\<lambda>_. True) (waitRedisStatusOK rco ip pod ns)
      (\<lambda>_ evs. length evs \<le> 30 * nat (sint (optClusterTimeOut rco)) + 1)"
    unfolding waitRedisStatusOK_def emits_def
    by (rule yields_bnd [where R = "\<lambda>_ _ evs. evs = []"]) (auto split: prod.splits intro!: yields_ret)
  from yields_explicit [OF yields_conj [OF this yields_wait [OF aboutHeap_True]], of s]
  show ?thesis using run by (fastforce simp: okCheckEvent_def)
qed

text \<open>An environment in which every call succeeds, with four ready pods on two nodes.\<close>

definition readyAddress :: "string \<Rightarrow> string \<Rightarrow> string \<Rightarrow> EndpointAddress" where
  "readyAddress ip node pod = \<lparr>eaIP = ip, eaNodeName = Some node,
     eaTargetRef = Some \<lparr>orName = pod, orNamespace = ''ns''\<rparr>\<rparr>"

definition readyEndpoints :: Endpoints where
  "readyEndpoints = \<lparr>epName = ''r'', epNamespace = ''ns'', epSubsets = Some
     [[readyAddress ''10.0.0.1'' ''node-a'' ''r-0'', readyAddress ''10.0.0.2'' ''node-b'' ''r-1'',
       readyAddress ''10.0.0.3'' ''node-a'' ''r-2'', readyAddress ''10.0.0.4'' ''node-b'' ''r-3'']]\<rparr>"

definition exampleSts :: StatefulSet where
  "exampleSts = \<lparr>ssMeta = \<lparr>omName = ''r'', omNamespace = ''ns'',
       omAnnotations = [MiddlewareRedisTypeKey \<mapsto> ''redisclusters-r''],
       omLabels = Map.empty, omOwnerReferences = []\<rparr>,
     ssResourceVersion = ''1'', ssDeletionTimestamp = None, ssUpdateStrategy = [],
     ssReplicas = Some 4, ssRevisionHistoryLimit = 10, ssSelector = Map.empty, ssServiceName = ''r'',
     ssTemplate = \<lparr>tplLabels = Map.empty, tplAnnotations = None, tplContainers = [], tplDNSPolicy = [],
       tplInitContainers = [], tplRestartPolicy = [], tplAffinity = None, tplVolumes = []\<rparr>,
     ssStatusReplicas = 4, ssStatusRest = []\<rparr>"

definition exampleRc :: RedisCluster where
  "exampleRc = \<lparr>rcName = ''r'', rcNamespace = ''ns'', rcUID = ''u'', rcResourceVersion = ''7'',
     rcSpec = \<lparr>spReplicas = Some 4, spPause = False, spFinalizers = [], spRepository = [], spVersion = [],
       spUpdateStrategy = \<lparr>usType = AutoReceiveStrategyType, usPipeline = [], usAssignStrategies = []\<rparr>,
       spPod = []\<rparr>,
     rcStatus = zeroStatus\<rparr>"

definition exampleOperator :: "unit RedisClusterOperator" where
  "exampleOperator = \<lparr>
     apiAddToScheme = \<lambda>w. (None, w),
     apiNewSPDYExecutor = \<lambda>_ _ _ _ w. (None, w),
     apiStream = \<lambda>_ _ _ _ w. (([], [], None), w),
     apiEndpointsGet = \<lambda>_ _ w. ((readyEndpoints, None), w),
     apiNodesList = \<lambda>w. (([], None), w),
     apiServicesCreate = \<lambda>_ _ w. (None, w),
     apiStatefulSetsGet = \<lambda>_ _ w. ((exampleSts, None), w),
     apiStatefulSetsCreate = \<lambda>_ sts w. ((sts, None), w),
     apiStatefulSetsUpdate = \<lambda>_ sts w. ((sts, None), w),
     apiRedisClustersUpdate = \<lambda>_ rc w. ((rc, None), w),
     apiRedisClustersDelete = \<lambda>_ _ _ w. (None, w),
     stsListerGet = \<lambda>_ _ w. ((Some exampleSts, None), w),
     stsListerList = \<lambda>_ w. (([exampleSts], None), w),
     redisIndexerGet = \<lambda>_ w. ((Some exampleRc, None), w),
     clockNow = \<lambda>w. (0, w),
     pollTick = \<lambda>w. (True, w),
     optClusterTimeOut = 20\<rparr>"

definition exampleSys :: "unit sys" where
  "exampleSys = \<lparr>syWorld = (), syHeap = \<lambda>_. exampleRc, syNext = 1, syTrace = []\<rparr>"

theorem waitRedisStatusOK_bounded_witness:
  "\<exists>err s' evs. waitRedisStatusOK exampleOperator ''10.0.0.1'' ''r-0'' ''ns'' exampleSys = (Ret err, s') \<and>
     syTrace s' = evs \<and> length evs \<le> 601"
proof -
  have t: "sint (optClusterTimeOut exampleOperator) = 20"
    by (simp add: exampleOperator_def)
  show ?thesis
    using waitRedisStatusOK_bounded [of exampleOperator "''10.0.0.1''" "''r-0''" "''ns''" exampleSys]
    unfolding t by (auto simp: exampleSys_def)
qed

section \<open>Readiness of the pods\<close>

lemma yields_then:
  assumes "yields I m (\<lambda>_ _. True)" and "\<And>x. yields I (f x) (\<lambda>r _. P r)" and "P Panic" and "P Diverge"
  shows "yields I (bnd m f) (\<lambda>r _. P r)"
  by (rule yields_bnd [OF assms(1,2)]) (simp_all add: assms(3,4))

definition podsReady :: "RedisCluster \<Rightarrow> Endpoints option \<Rightarrow> bool" where
  "podsReady rc ep \<longleftrightarrow> (\<exists>e addresses rest. ep = Some e \<and> epSubsets e = Some (addresses # rest) \<and>
     spReplicas (rcSpec rc) = Some (lenInt32 addresses))"

abbreviation saysReady :: "RedisCluster \<Rightarrow> (bool \<times> error \<times> Endpoints option) outcome \<Rightarrow> bool" where
  "saysReady rc r \<equiv> \<forall>ep. r = Ret (True, None, ep) \<longrightarrow> podsReady rc ep"

lemma yields_podsReadyReply:
  assumes "aboutHeap I"
  shows "yields I (podsReadyReply rco rc x) (\<lambda>r _. saysReady rc r)"
proof -
  have no: "yields I (ret (False, e, ep)) (\<lambda>r _. saysReady rc r)" for e ep
    by (rule yields_ret) simp
  have some: "yields I (bnd (lift (deref (spReplicas (rcSpec rc)))) (\<lambda>replicas.
      ret (lenInt32 addresses = replicas, None, Some ep))) (\<lambda>r _. saysReady rc r)"
    if "epSubsets ep = Some (addresses # rest)" for ep addresses rest
    using that by (cases "spReplicas (rcSpec rc)")
      (auto simp: podsReady_def intro!: yields_ret yields_lift)
  have quiet: "yields I (call (stsListerGet rco ns name) (\<lambda>_. [])) (\<lambda>_ _. True)" for ns name
    by (rule yields_call [OF assms]) simp
  have pure: "yields I (lift (noReplicas sts)) (\<lambda>_ _. True)" for sts
    by (rule yields_lift) simp
  show ?thesis
    unfolding podsReadyReply_def
    by (auto split: prod.splits option.splits list.splits intro!: no some
        yields_then [OF quiet] yields_then [OF pure])
qed

lemma yields_podsReadyCond:
  "yields (\<lambda>s. syHeap s p = rc) (podsReadyCond rco p old) (\<lambda>r _. saysReady rc r)"
  unfolding podsReadyCond_def
proof (rule yields_bnd [where Q = "\<lambda>r evs. r = Ret rc" and R = "\<lambda>x r evs. saysReady x r"])
  have I: "aboutHeap (\<lambda>s. syHeap s p = rc)" by (simp add: aboutHeap_def)
  show "yields (\<lambda>s. syHeap s p = rc) (load p) (\<lambda>r evs. r = Ret rc)"
    by (rule yields_load) simp
  have "yields (\<lambda>s. syHeap s p = rc) (endpointsGet rco ns name) (\<lambda>_ _. True)" for ns name
    unfolding endpointsGet_def by (rule yields_call [OF I]) simp
  then show "yields (\<lambda>s. syHeap s p = rc) (bnd (endpointsGet rco (rcNamespace x) (rcName x)) (podsReadyReply rco x))
      (\<lambda>r evs. saysReady x r)" for x
    by (rule yields_then [OF _ yields_podsReadyReply [OF I]]) simp_all
qed simp_all

lemma yields_checkPods:
  "yields (\<lambda>s. syHeap s p = rc) (checkPodInstanceIsReadyByEndpoint rco p) (\<lambda>r _. case r of
     Ret (ep, None) \<Rightarrow> podsReady rc ep | Ret (ep, Some e) \<Rightarrow> ep = Some emptyEndpoints | _ \<Rightarrow> True)"
proof -
  have cond: "yields (\<lambda>s. syHeap s p = rc) (podsReadyCond rco p old)
      (every.condPost (\<lambda>_. True) (\<lambda>ep _. podsReady rc ep))" for old
    by (rule yields_mono [OF yields_podsReadyCond]) (simp add: every.condPost_def list_all_iff)
  have "aboutHeap (\<lambda>s. syHeap s p = rc)" by (simp add: aboutHeap_def)
  from every.yields_pollOp [OF this cond, where rco = rco and x = None]
  show ?thesis
    unfolding checkPodInstanceIsReadyByEndpoint_def
    by (rule yields_bnd [where R = "\<lambda>(err, ep) r _. r = Ret (if err \<noteq> None then Some emptyEndpoints else ep, err)"])
      (auto simp: every.pollPost_def split: prod.splits intro!: yields_ret)
qed

text \<open>
  C36: the instances are complete when the wait for them says so. If
  \<open>checkPodInstanceIsReadyByEndpoint\<close> returns without error, it returns an endpoints object whose
  first subset has, counted as a 32-bit number, as many addresses as the resource asks for; in every
  other case with an error the endpoints returned are the empty object.
\<close>

theorem checkPodInstanceIsReady_complete:
  "case fst (checkPodInstanceIsReadyByEndpoint rco p s) of
     Ret (ep, None) \<Rightarrow> podsReady (syHeap s p) ep
   | Ret (ep, Some e) \<Rightarrow> ep = Some emptyEndpoints
   | _ \<Rightarrow> True"
  using yields_checkPods [of p "syHeap s p" rco] unfolding yields_def by simp

section \<open>The interface of the handlers\<close>

text \<open>The phases the operator writes.\<close>

definition writtenPhases :: "string set" where
  "writtenPhases = {RedisClusterCreating, RedisClusterRunning, RedisClusterScaling,
     RedisClusterUpgrading, RedisClusterFailed}"

text \<open>
  A trace property for the queries: it holds of a command in the redis container that neither
  creates nor changes the cluster, and of reads.
\<close>

locale query_trace = trace_discipline G for G +
  assumes query: "isExec e \<Longrightarrow> inRedisContainer e \<Longrightarrow> \<not> changesCluster e \<Longrightarrow> \<not> createsCluster e \<Longrightarrow> G [e]"
    and reads: "G [EndpointsGetEv ns name]" "G [NodesListEv]" "G [StsGetEv ns name]"

text \<open>For the status it also holds of updates that write one of the phases above.\<close>

locale status_trace = query_trace G for G +
  assumes updates: "stPhase (rcStatus rc) \<in> writtenPhases \<Longrightarrow> G [RcUpdateEv ns rc]"

text \<open>
  For the commands it holds of the creation, and of a changing command together with the good check
  before it.
\<close>

locale command_trace = query_trace G for G +
  assumes guarded: "isExec c \<Longrightarrow> inRedisContainer c \<Longrightarrow> okCheck c \<Longrightarrow>
      isExec e \<Longrightarrow> inRedisContainer e \<Longrightarrow> changesCluster e \<Longrightarrow> G [c, e]"
    and creates: "isExec e \<Longrightarrow> inRedisContainer e \<Longrightarrow> \<not> changesCluster e \<Longrightarrow> createsCluster e \<Longrightarrow> G [e]"

text \<open>Every handler that neither creates nor updates Kubernetes objects keeps both.\<close>

locale operator_trace = status_trace G + command_trace G for G

text \<open>A handler that also creates the service and creates or updates the stateful set.\<close>

locale lifecycle_trace = operator_trace G for G +
  assumes objects: "G [SvcCreateEv ns svc]" "G [StsCreateEv ns sts]" "G [StsUpdateEv ns sts]"

abbreviation inContainer :: "event \<Rightarrow> bool" where
  "inContainer e \<equiv> isExec e \<and> inRedisContainer e \<and> \<not> createsCluster e"

lemma change_not_check: "changesCluster e \<Longrightarrow> \<not> okCheck e"
  by (cases e) (auto simp: changesCluster_def okCheck_def changingCommand_def prefix_def)

context command_trace
begin

lemma guarded_split:
  assumes "list_all inContainer evs" and "guardedFrom False evs"
  shows "G evs"
  using assms
proof (induction "length evs" arbitrary: evs rule: less_induct)
  case less
  show ?case
  proof (cases evs)
    case Nil
    then show ?thesis using trace_nil by simp
  next
    case (Cons e es)
    show ?thesis
    proof (cases "es = [] \<or> \<not> changesCluster (hd es)")
      case True
      then have "guardedFrom False es"
        using less.prems Cons by (cases es) auto
      then have "G [e]" "G es"
        using less Cons query by auto
      then show ?thesis using trace_append [of "[e]" es] Cons by simp
    next
      case False
      then obtain f fs where f: "es = f # fs" "changesCluster f" by (cases es) auto
      then have "okCheck e" "guardedFrom False fs"
        using less.prems Cons change_not_check by auto
      then have "G [e, f]" "G fs"
        using less Cons f guarded by auto
      then show ?thesis using trace_append [of "[e, f]" fs] Cons f by simp
    qed
  qed
qed

lemma emits_guarded:
  assumes "emits (list_all inContainer) m" and "emits guardedTrace m"
  shows "emits G m"
  using yields_conj [OF assms [unfolded emits_def]] unfolding emits_def
  by (rule yields_mono) (auto intro: guarded_split simp: guardedTrace_def)

end

section \<open>Commands run in the redis container\<close>

lemma emits_exec_inContainer:
  assumes "\<not> creatingCommand cmd"
  shows "emits (list_all inContainer) (ExecToPodThroughAPI rco cmd redisContainerName pod ns)"
  by (rule yields_emits [OF yields_exec [OF aboutHeap_True]])
    (use assms in \<open>auto simp: execPost_def isExec_def inRedisContainer_def createsCluster_def\<close>)

lemma emits_wait_inContainer: "emits (list_all inContainer) (waitRedisStatusOK rco ip pod ns)"
  by (rule yields_emits [OF yields_wait [OF aboutHeap_True]])
    (auto simp: list_all_iff checkEvent_def event_class_simps)

lemma emits_runCommand_inContainer:
  "\<not> creatingCommand cmd \<Longrightarrow> emits (list_all inContainer) (runCommand rco cmd pod ns msg tailText)"
  unfolding runCommand_def by (intro emits_intros emits_exec_inContainer)

lemma emits_addMasters_inContainer:
  "emits (list_all inContainer) (addMasterNodeToRedisCluster rco ips ip pod ns)"
  by (induction ips)
    (simp_all only: addMasterNodeToRedisCluster.simps, (intro emits_intros emits_wait_inContainer
      emits_runCommand_inContainer command_classes | assumption)+)

lemma emits_addSlaves_inContainer: "emits (list_all inContainer) (addSlaveLoop rco m0 ns pod items)"
  by (induction items)
    (simp_all only: addSlaveLoop.simps split_paired_all, (intro emits_intros emits_wait_inContainer
      emits_runCommand_inContainer command_classes | assumption)+)

lemma emits_reshares_inContainer:
  "emits (list_all inContainer) (reshareLoop rco sts pl ip pod ns items)"
  by (induction items)
    (simp_all only: reshareLoop.simps split_paired_all Let_def, (intro emits_intros emits_wait_inContainer
      emits_runCommand_inContainer command_classes | assumption)+)

lemma batch_guarded: "yields (\<lambda>_. True) m (batchPost cmds) \<Longrightarrow> emits guardedTrace m"
  by (erule yields_emits) (simp add: batchPost_def)

section \<open>The commands keep the interface\<close>

context query_trace
begin

lemma emits_query:
  assumes "\<not> changingCommand cmd" and "\<not> creatingCommand cmd"
  shows "emits G (ExecToPodThroughAPI rco cmd redisContainerName pod ns)"
proof (rule yields_emits [OF yields_exec [OF aboutHeap_True]])
  fix r evs
  assume "execPost cmd pod ns r evs"
  then show "G evs"
    using assms query trace_nil
    by (auto simp: execPost_def isExec_def inRedisContainer_def changesCluster_def createsCluster_def)
qed

lemma emits_wait [emits_intros]: "emits G (waitRedisStatusOK rco ip pod ns)"
  unfolding waitRedisStatusOK_def statusOKCond_def execCheckRedisCluster_def
  by (intro emits_intros emits_query) simp_all

lemma emits_endpointsGet [emits_intros]: "emits G (endpointsGet rco ns name)"
  unfolding endpointsGet_def by (rule emits_call) (rule reads)

lemma emits_nodesList [emits_intros]: "emits G (nodesList rco)"
  unfolding nodesList_def by (rule emits_call) (rule reads)

lemma emits_statefulSetsGet [emits_intros]: "emits G (statefulSetsGet rco ns name)"
  unfolding statefulSetsGet_def by (rule emits_call) (rule reads)

lemma emits_execClusterInfo [emits_intros]: "emits G (execClusterInfo rco ip pod ns)"
  unfolding execClusterInfo_def by (intro emits_intros emits_query) simp_all

lemma emits_execClusterNodes [emits_intros]: "emits G (execClusterNodes rco ip ns pod)"
  unfolding execClusterNodes_def by (intro emits_intros emits_query) simp_all

lemma emits_execRedisTribInfo [emits_intros]: "emits G (execRedisTribInfo rco ip pod ns)"
  unfolding execRedisTribInfo_def by (intro emits_intros emits_query) simp_all

lemma emits_classify [emits_intros]: "emits G (getIsClusteredAndOnlyKnownSelfAddress rco addrs)"
proof -
  have "emits G (classifyAddresses rco addrs st)" for st
    by (induction addrs arbitrary: st)
      (simp_all only: classifyAddresses.simps split_paired_all, (intro emits_intros | assumption)+)
  then show ?thesis unfolding getIsClusteredAndOnlyKnownSelfAddress_def .
qed

lemma emits_podsReadyReply: "emits G (podsReadyReply rco rc x)"
  unfolding podsReadyReply_def by (cases x) (simp, intro conjI impI emits_intros)

lemma emits_checkPods [emits_intros]: "emits G (checkPodInstanceIsReadyByEndpoint rco p)"
  unfolding checkPodInstanceIsReadyByEndpoint_def podsReadyCond_def
  by (intro emits_intros emits_podsReadyReply)

end

context command_trace
begin

lemma emits_addMasters [emits_intros]: "emits G (addMasterNodeToRedisCluster rco ips ip pod ns)"
  by (rule emits_guarded [OF emits_addMasters_inContainer batch_guarded]) (rule masters.batch)

lemma emits_addSlaves [emits_intros]:
  "emits G (addSlaveToClusterMaster rco ss ms ids ns pod)"
proof -
  have "emits G (addSlaveLoop rco m0 ns pod items)" for m0 items
    by (rule emits_guarded [OF emits_addSlaves_inContainer batch_guarded]) (rule slaves.batch)
  then show ?thesis
    unfolding addSlaveToClusterMaster_def by (intro emits_intros)
qed

lemma emits_reshare [emits_intros]:
  "emits G (reshareRedisClusterSlotsToMasterNode rco us ip pod ns ids)"
  unfolding reshareRedisClusterSlotsToMasterNode_def
  by (rule emits_guarded [OF emits_reshares_inContainer batch_guarded]) (rule reshares.batch)

end

text \<open>Rebalancing is a batch of one command.\<close>

fun rebalances :: "'w RedisClusterOperator \<Rightarrow> string \<Rightarrow> string \<Rightarrow> string \<Rightarrow> string list \<Rightarrow> (error, 'w) op" where
  "rebalances rco ip pod ns [] = ret None"
| "rebalances rco ip pod ns (pl # pls) =
     bnd (waitRedisStatusOK rco ip pod ns) (\<lambda>err. if err \<noteq> None then ret err
       else bnd (runCommand rco (rebalanceCmd (pipelineOf pl) ip) pod ns
         ('' -- rebalanceCmd: '' @ fmtStrings (rebalanceCmd (pipelineOf pl) ip) @ [nl]) [])
         (\<lambda>err. if err \<noteq> None then ret err else rebalances rco ip pod ns pls))"

interpretation rebalances: guarded_batch "rebalances rco ip pod ns" "waitRedisStatusOK rco ip pod ns"
  "\<lambda>pl. rebalanceCmd (pipelineOf pl) ip"
  "\<lambda>pl. runCommand rco (rebalanceCmd (pipelineOf pl) ip) pod ns
     ('' -- rebalanceCmd: '' @ fmtStrings (rebalanceCmd (pipelineOf pl) ip) @ [nl]) []"
  for rco ip pod ns
  by unfold_locales (simp_all add: yields_waits yields_runCommand)

lemma bnd_error_ret: "bnd m (\<lambda>err. if err \<noteq> None then ret err else ret None) = m"
  by (rule ext) (auto simp: bnd_def ret_def split: prod.splits outcome.splits)

lemma rebalance_batch:
  "rebalanceRedisClusterSlotsToMasterNode rco ip pod ns pl = rebalances rco ip pod ns [pl]"
  by (simp only: rebalanceRedisClusterSlotsToMasterNode_def rebalances.simps Let_def bnd_error_ret)

lemma emits_rebalances_inContainer: "emits (list_all inContainer) (rebalances rco ip pod ns pls)"
  by (induction pls)
    (simp_all only: rebalances.simps, (intro emits_intros emits_wait_inContainer
      emits_runCommand_inContainer command_classes | assumption)+)

context command_trace
begin

lemma emits_rebalance [emits_intros]: "emits G (rebalanceRedisClusterSlotsToMasterNode rco ip pod ns pl)"
  unfolding rebalance_batch
  by (rule emits_guarded [OF emits_rebalances_inContainer batch_guarded]) (rule rebalances.batch)

lemma emits_createCluster [emits_intros]: "emits G (createCluster rco ips reference)"
proof -
  have "emits G (ExecToPodThroughAPI rco (createCmd ips) redisContainerName pod ns)" for pod ns
  proof (rule yields_emits [OF yields_exec [OF aboutHeap_True]])
    show "execPost (createCmd ips) pod ns r evs \<Longrightarrow> G evs" for r evs
      using creates trace_nil
      by (auto simp: execPost_def isExec_def inRedisContainer_def changesCluster_def createsCluster_def)
  qed
  then show ?thesis
    unfolding createCluster_def by (intro emits_intros)
qed

end

text \<open>
  Three instances: changing commands are guarded by checks; everything executed is executed in the
  redis container; no phase other than the five is written.
\<close>

definition orderly :: "event list \<Rightarrow> bool" where
  "orderly evs \<longleftrightarrow> guardedTrace evs \<and> list_all inRedisContainer evs \<and>
     (\<forall>ns rc. RcUpdateEv ns rc \<in> set evs \<longrightarrow> stPhase (rcStatus rc) \<in> writtenPhases) \<and>
     (\<forall>ns name policy. RcDeleteEv ns name policy \<notin> set evs)"

interpretation orderly: lifecycle_trace orderly
proof unfold_locales
  fix c e :: event
  assume "isExec c" "inRedisContainer c" "okCheck c" "isExec e" "inRedisContainer e" "changesCluster e"
  moreover have "\<not> changesCluster c" using \<open>okCheck c\<close> change_not_check by blast
  ultimately show "orderly [c, e]"
    by (auto simp: orderly_def guardedTrace_def isExec_def)
qed (auto simp: orderly_def guardedTrace_def changesCluster_def isExec_def inRedisContainer_def
      split: event.splits intro: guardedFrom_append)

definition objectsUntouched :: "event list \<Rightarrow> bool" where
  "objectsUntouched evs \<longleftrightarrow> (\<forall>ns svc. SvcCreateEv ns svc \<notin> set evs) \<and>
     (\<forall>ns sts. StsCreateEv ns sts \<notin> set evs \<and> StsUpdateEv ns sts \<notin> set evs)"

interpretation untouched: operator_trace objectsUntouched
  by unfold_locales (auto simp: objectsUntouched_def isExec_def)

end
