(* ===== verification/Objects.thy ===== *)
theory Objects
  imports Effects
begin

text \<open>
  The Kubernetes objects the operator builds for a RedisCluster, its service and its stateful set
  (\<^verbatim>\<open>buildRedisClusterService\<close> and \<^verbatim>\<open>buildRedisClusterStatefulset\<close> of
  \<^verbatim>\<open>sync_rediscluster.go\<close>), and the two searches that find a resource's stateful set and a
  stateful set's resource again (\<^verbatim>\<open>getStatefulSetForRedisCluster\<close> of
  \<^verbatim>\<open>redis_operator.go\<close>, \<^verbatim>\<open>GetRedisClusterForStatefulSet\<close> of the lister).
\<close>

section \<open>The service\<close>

definition clusterAnnotation :: "string \<Rightarrow> string" where
  "clusterAnnotation name = MiddlewareRedisClustersPrefix @ name"

definition ownerReference :: "string \<Rightarrow> RedisCluster \<Rightarrow> OwnerReference" where
  "ownerReference name rc = \<lparr>owAPIVersion = GroupName @ ''/'' @ GroupVersion, owKind = controllerKindName,
     owName = name, owUID = rcUID rc, owBlockOwnerDeletion = True, owController = True\<rparr>"

definition buildRedisClusterService :: "RedisCluster \<Rightarrow> string \<Rightarrow> string \<Rightarrow> K8sService" where
  "buildRedisClusterService redisCluster namespace name =
     \<lparr>svcMeta = \<lparr>omName = name, omNamespace = namespace,
        omAnnotations = [MiddlewareRedisTypeKey \<mapsto> clusterAnnotation name],
        omLabels = [''app'' \<mapsto> name],
        omOwnerReferences = [ownerReference name redisCluster]\<rparr>,
      svcClusterIP = ''None'',
      svcPorts =
        [\<lparr>svName = name, svPort = redisServicePort6379, svTargetPort = redisServicePort6379\<rparr>,
         \<lparr>svName = ''redis-exporter'', svPort = redisExporterPort9105, svTargetPort = redisExporterPort9105\<rparr>],
      svcSelector = [''app'' \<mapsto> name]\<rparr>"

section \<open>The stateful set\<close>

definition baseEnv :: "string \<Rightarrow> EnvVar list" where
  "baseEnv namespace =
     [EnvFieldRef ''POD_NAME'' ''v1'' ''metadata.name'', EnvValue ''NAMESPACE'' namespace,
      EnvFieldRef ''PODIP'' [] ''status.podIP'']"

definition domainNameOf :: "EnvVar list \<Rightarrow> string" where
  "domainNameOf env =
     (case find (\<lambda>e. envName e = ''DOMAINNAME'') env of None \<Rightarrow> [] | Some e \<Rightarrow> envLiteral e)"

definition pingProbe :: Probe where
  "pingProbe = \<lparr>pbCommand = [''/bin/sh'', ''-c'', ''redis-cli -h ${POD_NAME} ping''],
     pbInitialDelaySeconds = 5, pbTimeoutSeconds = 5, pbPeriodSeconds = 5, pbSuccessThreshold = 1,
     pbFailureThreshold = 3\<rparr>"

definition dataMountPath :: "string \<Rightarrow> string \<Rightarrow> string" where
  "dataMountPath domainName namespace = ''/nfs/redis/'' @ domainName @ ''/'' @ namespace"

definition redisContainer ::
    "RedisCluster \<Rightarrow> RedisClusterPodTemplateSpec \<Rightarrow> EnvVar list \<Rightarrow> string \<Rightarrow> string \<Rightarrow> Container" where
  "redisContainer redisCluster podTpl containerEnv domainName namespace =
     \<lparr>ctCommand = [''/bin/redis-server'', dataMountPath domainName namespace @ ''/$(POD_NAME)/config/redis.conf''],
      ctImage = spRepository (rcSpec redisCluster) @ ptMiddlewareImage podTpl,
      ctImagePullPolicy = ''Always'', ctEnv = containerEnv, ctName = redisContainerName,
      ctPorts = [(''TCP'', redisServicePort16379), (''TCP'', redisServicePort6379)],
      ctLivenessProbe = Some pingProbe, ctReadinessProbe = Some pingProbe,
      ctResources = ptResources podTpl,
      ctVolumeMounts = [\<lparr>vmName = ''redis-data'', vmMountPath = dataMountPath domainName namespace, vmSubPath = []\<rparr>]\<rparr>"

definition exporterContainer ::
    "RedisCluster \<Rightarrow> RedisClusterPodTemplateSpec \<Rightarrow> EnvVar list \<Rightarrow> Container" where
  "exporterContainer redisCluster podTpl containerEnv =
     \<lparr>ctCommand = [''/redis_exporter'', ''-redis.addr=$(PODIP):6379'', ''-redis.password='',
        ''-web.listen-address=:9105'', ''-redis-only-metrics=true'', ''-redis.alias='' @ redisContainerName],
      ctImage = spRepository (rcSpec redisCluster) @ ptMonitorImage podTpl,
      ctImagePullPolicy = ''Always'', ctEnv = containerEnv, ctName = ''redis-exporter'',
      ctPorts = [(''TCP'', redisExporterPort9105)],
      ctLivenessProbe = None, ctReadinessProbe = None, ctResources = [], ctVolumeMounts = []\<rparr>"

definition initContainer ::
    "RedisCluster \<Rightarrow> RedisClusterPodTemplateSpec \<Rightarrow> EnvVar list \<Rightarrow> string \<Rightarrow> string \<Rightarrow> Container" where
  "initContainer redisCluster podTpl containerEnv domainName namespace =
     \<lparr>ctCommand = [''/bin/sh'', ''-c'', ''sh /init.sh''],
      ctImage = spRepository (rcSpec redisCluster) @ ptInitImage podTpl,
      ctImagePullPolicy = ''Always'', ctEnv = containerEnv, ctName = rcName redisCluster @ ''-init'',
      ctPorts = [(''TCP'', redisServicePort16379), (''TCP'', redisServicePort6379)],
      ctLivenessProbe = None, ctReadinessProbe = None, ctResources = [],
      ctVolumeMounts =
        [\<lparr>vmName = ''redis-data'', vmMountPath = dataMountPath domainName namespace, vmSubPath = []\<rparr>,
         \<lparr>vmName = ''redis-config'', vmMountPath = ''/config/redis.conf'', vmSubPath = ''redis.conf''\<rparr>]\<rparr>"

definition podTemplateOf ::
    "RedisCluster \<Rightarrow> RedisClusterPodTemplateSpec \<Rightarrow> stringMap \<Rightarrow> string \<Rightarrow> PodTemplate" where
  "podTemplateOf redisCluster podTpl podLabels namespace =
     (let containerEnv = baseEnv namespace @ ptEnv podTpl; domainName = domainNameOf (ptEnv podTpl) in
      \<lparr>tplLabels = podLabels, tplAnnotations = ptAnnotations podTpl,
       tplContainers = [redisContainer redisCluster podTpl containerEnv domainName namespace,
         exporterContainer redisCluster podTpl containerEnv],
       tplDNSPolicy = ''ClusterFirst'',
       tplInitContainers = [initContainer redisCluster podTpl containerEnv domainName namespace],
       tplRestartPolicy = ''Always'', tplAffinity = ptAffinity podTpl,
       tplVolumes = [ConfigMapVolume ''redis-config'' 420 (rcName redisCluster @ ''-config''),
         ClaimVolume ''redis-data'' (pvPersistentVolumeClaimName (ptVolumes podTpl))]\<rparr>)"

definition statefulSetOf ::
    "string \<Rightarrow> string \<Rightarrow> RedisCluster \<Rightarrow> RedisClusterPodTemplateSpec \<Rightarrow> stringMap \<Rightarrow> StatefulSet" where
  "statefulSetOf namespace name redisCluster podTpl podLabels =
     \<lparr>ssMeta = \<lparr>omName = name, omNamespace = namespace,
        omAnnotations = [MiddlewareRedisTypeKey \<mapsto> clusterAnnotation name,
          pauseKey \<mapsto> fmtBool (spPause (rcSpec redisCluster))],
        omLabels = [''app'' \<mapsto> name],
        omOwnerReferences = [ownerReference (rcName redisCluster) redisCluster]\<rparr>,
      ssResourceVersion = [], ssDeletionTimestamp = None,
      ssUpdateStrategy = ptUpdateStrategy podTpl, ssReplicas = spReplicas (rcSpec redisCluster),
      ssRevisionHistoryLimit = 10, ssSelector = [''app'' \<mapsto> name], ssServiceName = rcName redisCluster,
      ssTemplate = podTemplateOf redisCluster podTpl podLabels namespace,
      ssStatusReplicas = 0, ssStatusRest = []\<rparr>"

text \<open>
  The function itself. The label \<open>app\<close> is written into the template's own label map when the
  template has one, so the resource object changes with it.
\<close>

definition withLabels ::
    "RedisCluster \<Rightarrow> RedisClusterPodTemplateSpec \<Rightarrow> RedisClusterPodTemplateSpec list \<Rightarrow> stringMap \<Rightarrow> RedisCluster" where
  "withLabels rc podTpl pods labels =
     rc\<lparr>rcSpec := (rcSpec rc)\<lparr>spPod := podTpl\<lparr>ptLabels := Some labels\<rparr> # pods\<rparr>\<rparr>"

definition buildRedisClusterStatefulset :: "string \<Rightarrow> string \<Rightarrow> rcPtr \<Rightarrow> (StatefulSet, 'w) op" where
  "buildRedisClusterStatefulset namespace name p =
     bnd (load p) (\<lambda>rc.
     case spPod (rcSpec rc) of
       [] \<Rightarrow> lift Panic
     | podTpl # pods \<Rightarrow>
         (case ptLabels podTpl of
            None \<Rightarrow> ret (statefulSetOf namespace name rc podTpl [''app'' \<mapsto> name])
          | Some labels \<Rightarrow>
              (let podLabels = labels(''app'' \<mapsto> name) in
               bnd (store p (withLabels rc podTpl pods podLabels)) (\<lambda>_.
               ret (statefulSetOf namespace name rc podTpl podLabels)))))"

section \<open>Finding each other\<close>

text \<open>The test both searches make on a stateful set and a resource.\<close>

definition belongsTo :: "StatefulSet \<Rightarrow> RedisCluster \<Rightarrow> bool" where
  "belongsTo sts rc \<longleftrightarrow>
     omAnnotations (ssMeta sts) MiddlewareRedisTypeKey = Some (clusterAnnotation (rcName rc)) \<and>
     omNamespace (ssMeta sts) = rcNamespace rc \<and> omName (ssMeta sts) = rcName rc"

definition getStatefulSetForRedisCluster :: "'w RedisClusterOperator \<Rightarrow> rcPtr \<Rightarrow>
    (StatefulSet option \<times> error, 'w) op" where
  "getStatefulSetForRedisCluster rco p =
     bnd (load p) (\<lambda>rc.
     bnd (call (stsListerList rco (rcNamespace rc)) (\<lambda>_. [])) (\<lambda>(stsList, err).
     if err \<noteq> None then ret (None, err)
     else ret (find (\<lambda>sts. belongsTo sts rc) stsList, None)))"

text \<open>
  The lister's search over the resources of the stateful set's namespace; an error where there is
  none.
\<close>

definition GetRedisClusterForStatefulSet :: "RedisCluster list \<times> error \<Rightarrow> StatefulSet \<Rightarrow>
    RedisCluster option \<times> error" where
  "GetRedisClusterForStatefulSet reply sts =
     (if omAnnotations (ssMeta sts) = Map.empty
      then (None, Some (Err (''no redisclusters found for StatefulSet '' @ omName (ssMeta sts) @
             '' because it has no Annotations'')))
      else
        (case reply of (recList, err) \<Rightarrow>
          if err \<noteq> None then (None, err)
          else
            (case find (belongsTo sts) recList of
               Some r \<Rightarrow> (Some r, None)
             | None \<Rightarrow> (None, Some (Err (''could not find redisclusters set for StatefulSet '' @
                 omName (ssMeta sts) @ '' in namespace '' @ omNamespace (ssMeta sts) @
                 '' with annotation: '' @ MiddlewareRedisTypeKey))))))"

section \<open>What is built\<close>


text \<open>A resource with one pod template that has labels of its own.\<close>

definition exampleTemplate :: RedisClusterPodTemplateSpec where
  "exampleTemplate = \<lparr>ptConfigmap = [], ptMonitorImage = ''m'', ptInitImage = ''i'', ptMiddlewareImage = ''x'',
     ptVolumes = \<lparr>pvType = [], pvPersistentVolumeClaimName = ''pvc''\<rparr>,
     ptEnv = [EnvValue ''DOMAINNAME'' ''cluster.local''], ptResources = [], ptAffinity = None,
     ptAnnotations = None, ptLabels = Some [''tier'' \<mapsto> ''db''], ptUpdateStrategy = []\<rparr>"

definition exampleCluster :: RedisCluster where
  "exampleCluster = \<lparr>rcName = ''r'', rcNamespace = ''ns'', rcUID = ''u'', rcResourceVersion = ''7'',
     rcSpec = \<lparr>spReplicas = Some 4, spPause = False, spFinalizers = [], spRepository = [], spVersion = [],
       spUpdateStrategy = \<lparr>usType = AutoReceiveStrategyType, usPipeline = [], usAssignStrategies = []\<rparr>,
       spPod = [exampleTemplate]\<rparr>,
     rcStatus = zeroStatus\<rparr>"


text \<open>
  Finding the stateful set of a resource. The search returns one that belongs to the resource
  whenever the lister's list holds one, none otherwise, and passes on the lister's error.
\<close>

theorem getStatefulSetForRedisCluster_finds:
  "case stsListerList rco (rcNamespace (syHeap s p)) (syWorld s) of ((stsList, err), w) \<Rightarrow>
     (case getStatefulSetForRedisCluster rco p s of
        (Ret (found, err'), s') \<Rightarrow> err' = err \<and> syTrace s' = syTrace s \<and>
          (case found of
             Some sts \<Rightarrow> err = None \<and> sts \<in> set stsList \<and> belongsTo sts (syHeap s p)
           | None \<Rightarrow> if err = None then list_all (\<lambda>sts. \<not> belongsTo sts (syHeap s p)) stsList else True)
      | _ \<Rightarrow> False)"
  by (auto simp: getStatefulSetForRedisCluster_def bnd_def load_def call_def ret_def find_Some_iff
      find_None_iff list_all_iff split: prod.splits option.splits)

lemma owner_found:
  assumes "distinct (map rcName recList)" and "rc \<in> set recList" and "belongsTo sts rc"
  shows "GetRedisClusterForStatefulSet (recList, None) sts = (Some rc, None)"
proof -
  have "find (belongsTo sts) recList = Some rc"
  proof -
    obtain r where r: "find (belongsTo sts) recList = Some r"
      using assms(2,3) by (cases "find (belongsTo sts) recList") (auto simp: find_None_iff)
    then have "r \<in> set recList" "belongsTo sts r"
      by (auto simp: find_Some_iff)
    then have "r = rc"
      using assms by (metis belongsTo_def distinct_map inj_onD)
    then show ?thesis using r by simp
  qed
  then show ?thesis
    using assms(3) by (auto simp: GetRedisClusterForStatefulSet_def belongsTo_def)
qed

text \<open>
  The searches agree. If the resources of a namespace have different names, the resource that
  the lister finds for a stateful set is the one whose own search accepts that stateful set; so the
  events of a stateful set wake up the resource that manages it.
\<close>

theorem GetRedisClusterForStatefulSet_inverse:
  assumes "distinct (map rcName recList)" and "rc \<in> set recList" and "belongsTo sts rc"
  shows "GetRedisClusterForStatefulSet (recList, None) sts = (Some rc, None)"
  by (rule owner_found [OF assms])

theorem GetRedisClusterForStatefulSet_inverse_witness:
  "GetRedisClusterForStatefulSet ([exampleCluster], None)
     (statefulSetOf ''ns'' ''r'' exampleCluster exampleTemplate Map.empty) = (Some exampleCluster, None)"
  by (rule GetRedisClusterForStatefulSet_inverse)
    (simp_all add: belongsTo_def statefulSetOf_def exampleCluster_def)

end
