(* ===== verification/Status.thy ===== *)
theory Status
  imports Guarded
begin

text \<open>
  The status of a RedisCluster: the comparison that ignores times
  (\<^verbatim>\<open>DeepEqualRedisClusterStatus\<close> of \<^verbatim>\<open>util/rediscluster.go\<close>), the conditions built
  from the node table (\<^verbatim>\<open>buildRedisClusterStatusConditions\<close>) and the update of the resource
  (\<^verbatim>\<open>updateRedisClusterStatus\<close>), both of \<^verbatim>\<open>sync_rediscluster.go\<close>.
\<close>

section \<open>Comparing statuses\<close>

definition sameCondition :: "RedisClusterCondition \<Rightarrow> RedisClusterCondition \<Rightarrow> bool" where
  "sameCondition v w \<longleftrightarrow>
     \<not> (cdReason v \<noteq> cdReason w \<or> cdDomainName v \<noteq> cdDomainName w \<or> cdStatus v \<noteq> cdStatus w \<or>
        cdName v \<noteq> cdName w \<or> cdNodeId v \<noteq> cdNodeId w \<or> cdSlots v \<noteq> cdSlots w \<or>
        cdType v \<noteq> cdType w \<or> cdHostIP v \<noteq> cdHostIP w \<or> cdMessage v \<noteq> cdMessage w \<or>
        cdMasterNodeId v \<noteq> cdMasterNodeId w \<or> cdHostname v \<noteq> cdHostname w \<or>
        cdInstance v \<noteq> cdInstance w)"

fun sameConditions :: "RedisClusterCondition list \<Rightarrow> RedisClusterCondition list \<Rightarrow> bool" where
  "sameConditions (v # vs) (w # ws) = (sameCondition v w \<and> sameConditions vs ws)"
| "sameConditions _ _ = True"

definition DeepEqualRedisClusterStatus :: "RedisClusterStatus \<Rightarrow> RedisClusterStatus \<Rightarrow> bool" where
  "DeepEqualRedisClusterStatus a b =
     (if stReplicas a \<noteq> stReplicas b \<or> stReason a \<noteq> stReason b \<or> stPhase a \<noteq> stPhase b then False
      else if length (stConditions a) \<noteq> length (stConditions b) then False
      else if stConditions a = [] then True
      else sameConditions (stConditions a) (stConditions b))"

definition eraseTimes :: "RedisClusterStatus \<Rightarrow> RedisClusterStatus" where
  "eraseTimes st = st\<lparr>stConditions := map (\<lambda>c. c\<lparr>cdLastTransitionTime := 0\<rparr>) (stConditions st)\<rparr>"

lemma sameCondition_erase:
  "sameCondition v w \<longleftrightarrow> v\<lparr>cdLastTransitionTime := 0\<rparr> = w\<lparr>cdLastTransitionTime := (0 :: nat)\<rparr>"
  by (cases v; cases w) (auto simp: sameCondition_def)

lemma sameConditions_erase:
  "length vs = length ws \<Longrightarrow> sameConditions vs ws \<longleftrightarrow>
     map (\<lambda>c. c\<lparr>cdLastTransitionTime := 0\<rparr>) vs = map (\<lambda>c. c\<lparr>cdLastTransitionTime := (0 :: nat)\<rparr>) ws"
  by (induction vs ws rule: list_induct2) (simp_all add: sameCondition_erase)

text \<open>
  The comparison of statuses is equality up to the transition times of the conditions: it looks
  at every field of the status and of its conditions, and at nothing else.
\<close>

theorem DeepEqualRedisClusterStatus_erase:
  "DeepEqualRedisClusterStatus a b \<longleftrightarrow> eraseTimes a = eraseTimes b"
proof (cases "length (stConditions a) = length (stConditions b)")
  case True
  then show ?thesis
    using sameConditions_erase [OF True] by (cases a; cases b) (auto simp: DeepEqualRedisClusterStatus_def eraseTimes_def)
next
  case False
  then have "map (\<lambda>c. c\<lparr>cdLastTransitionTime := 0\<rparr>) (stConditions a) \<noteq> map (\<lambda>c. c\<lparr>cdLastTransitionTime := 0\<rparr>) (stConditions b)"
    by (metis length_map)
  then show ?thesis
    using False by (cases a; cases b) (auto simp: DeepEqualRedisClusterStatus_def eraseTimes_def)
qed

section \<open>Conditions from the node table\<close>

text \<open>The addresses of the Kubernetes nodes; a later internal address replaces an earlier one.\<close>

definition nodeInfoMap :: "K8sNode list \<Rightarrow> (string \<rightharpoonup> string)" where
  "nodeInfoMap nodes = foldl (\<lambda>m node. foldl (\<lambda>m (type, address).
       if type = ''InternalIP'' then m(ndName node \<mapsto> address) else m) m (ndAddresses node)) Map.empty nodes"

definition readMap :: "(string \<rightharpoonup> string) \<Rightarrow> string \<Rightarrow> string" where
  "readMap m k = (case m k of None \<Rightarrow> [] | Some v \<Rightarrow> v)"

definition instanceInfoOf :: "Endpoints \<Rightarrow> (string \<rightharpoonup> string) \<Rightarrow> EndpointAddress \<Rightarrow> instanceInfo outcome" where
  "instanceInfoOf endpoints nodes addr =
     obnd (deref (eaTargetRef addr)) (\<lambda>r.
     obnd (deref (eaNodeName addr)) (\<lambda>node.
     Ret \<lparr>iiInstanceIP = eaIP addr, iiHostName = orName r, iiHostIP = readMap nodes node, iiNodeName = node,
       iiDomainName = orName r @ ''.'' @ epName endpoints @ ''.'' @ orNamespace r @ ''.svc.cluster.local''\<rparr>))"

fun instanceInfoMap :: "Endpoints \<Rightarrow> (string \<rightharpoonup> string) \<Rightarrow> EndpointAddress list \<Rightarrow>
    (string \<rightharpoonup> instanceInfo) \<Rightarrow> (string \<rightharpoonup> instanceInfo) outcome" where
  "instanceInfoMap endpoints nodes [] m = Ret m"
| "instanceInfoMap endpoints nodes (addr # addrs) m =
     obnd (instanceInfoOf endpoints nodes addr) (\<lambda>info.
     instanceInfoMap endpoints nodes addrs (m(eaIP addr @ '':6379'' \<mapsto> info)))"

definition conditionOf :: "(string \<rightharpoonup> instanceInfo) \<Rightarrow> redisNodeInfo \<Rightarrow> nat \<Rightarrow> RedisClusterCondition" where
  "conditionOf instances info time =
     (let inst = (case instances (niIpPort info) of None \<Rightarrow> zeroInstanceInfo | Some i \<Rightarrow> i) in
      \<lparr>cdName = iiHostName inst,
       cdType = (if niFlags info = masterFlagType then MasterConditionType
         else if niFlags info = slaveFlagType then SlaveConditionType else []),
       cdInstance = niIpPort info, cdNodeId = niNodeId info, cdMasterNodeId = niMaster info,
       cdDomainName = iiDomainName inst, cdSlots = niSlot info, cdHostname = iiNodeName inst,
       cdHostIP = iiHostIP inst,
       cdStatus = (if niFlags info = masterFlagType \<or> niFlags info = slaveFlagType then ''True'' else ''False''),
       cdLastTransitionTime = time, cdReason = [], cdMessage = []\<rparr>)"

fun conditionsLoop :: "'w RedisClusterOperator \<Rightarrow> (string \<rightharpoonup> instanceInfo) \<Rightarrow> redisNodeInfo list \<Rightarrow>
    RedisClusterCondition list \<Rightarrow> (RedisClusterCondition list, 'w) op" where
  "conditionsLoop rco instances [] conditions = ret conditions"
| "conditionsLoop rco instances (info # infos) conditions =
     bnd (now rco) (\<lambda>time. conditionsLoop rco instances infos (conditions @ [conditionOf instances info time]))"

definition buildRedisClusterStatusConditions :: "'w RedisClusterOperator \<Rightarrow> RedisCluster \<Rightarrow> Endpoints \<Rightarrow>
    (RedisClusterCondition list \<times> error, 'w) op" where
  "buildRedisClusterStatusConditions rco rc endpoints =
     (case epSubsets endpoints of
        None \<Rightarrow> ret ([], Some (Err (''endpoints.Subsets is nil, maybe statefulset '' @ rcNamespace rc @ ''/'' @
                  rcName rc @ '' has been deleted'')))
      | Some subsets \<Rightarrow>
          bnd (lift (idx subsets 0)) (\<lambda>address.
          bnd (lift (idx address 0)) (\<lambda>first.
          bnd (lift (deref (eaTargetRef first))) (\<lambda>r.
          bnd (execClusterNodes rco (eaIP first) (orNamespace r) (orName r)) (\<lambda>(nodeInfos, err).
          if err \<noteq> None then ret ([], err)
          else
            bnd (nodesList rco) (\<lambda>(nodeList, err).
            if err \<noteq> None then ret ([], err)
            else
              bnd (lift (instanceInfoMap endpoints (nodeInfoMap nodeList) address Map.empty)) (\<lambda>instances.
              bnd (conditionsLoop rco instances nodeInfos []) (\<lambda>conditions.
              ret (conditions, None)))))))))"

section \<open>Updating the resource\<close>

definition updateStatusErr :: "RedisCluster \<Rightarrow> error \<Rightarrow> gerr" where
  "updateStatusErr rc err = Err (''update redisCluster:'' @ rcNamespace rc @ ''/'' @ rcName rc @
     '' status is error: '' @ fmtError err)"

text \<open>
  The switch over the phase: an early return with an error, or the new status and whether its
  conditions are the very slice of the old status.
\<close>

type_synonym newStatus = "gerr + RedisClusterStatus \<times> bool"

definition keptStatus :: "'w RedisClusterOperator \<Rightarrow> RedisCluster \<Rightarrow> RedisClusterPhase \<Rightarrow> string \<Rightarrow>
    (newStatus, 'w) op" where
  "keptStatus rco rc phase abnormalReason =
     bnd (statefulSetsGet rco (rcNamespace rc) (rcName rc)) (\<lambda>(sts, err).
     if err \<noteq> None then ret (Inl (updateStatusErr rc err))
     else
       bnd (lift (deref (ssReplicas sts))) (\<lambda>replicas.
       ret (Inr (\<lparr>stReplicas = replicas, stReason = abnormalReason, stPhase = phase,
         stConditions = stConditions (rcStatus rc)\<rparr>, True))))"

definition runningStatus :: "'w RedisClusterOperator \<Rightarrow> RedisCluster \<Rightarrow> Endpoints option \<Rightarrow> string \<Rightarrow>
    (newStatus, 'w) op" where
  "runningStatus rco rc endpoints abnormalReason =
     bnd (case endpoints of Some e \<Rightarrow> ret (e, None)
          | None \<Rightarrow> endpointsGet rco (rcNamespace rc) (rcName rc)) (\<lambda>(endpoints, err).
     if err \<noteq> None
     then ret (Inl (Err (''update redisCluster status -- get redis cluster endpoint is error: '' @ fmtError err)))
     else if epSubsets endpoints = None
     then ret (Inl (Err (''endpoints.Subsets is nil, maybe statefulset '' @ rcNamespace rc @ ''/'' @
            rcName rc @ '' has been deleted'')))
     else
       bnd (statefulSetsGet rco (rcNamespace rc) (rcName rc)) (\<lambda>(sts, err).
       if err \<noteq> None then ret (Inl (updateStatusErr rc err))
       else
         bnd (buildRedisClusterStatusConditions rco rc endpoints) (\<lambda>(conditions, err).
         if err \<noteq> None
         then ret (Inl (Err (''redisCluster:'' @ rcNamespace rc @ ''/'' @ rcName rc @
                '' status is error: '' @ fmtError err)))
         else
           bnd (lift (deref (ssReplicas sts))) (\<lambda>replicas.
           ret (Inr (\<lparr>stReplicas = replicas, stReason = abnormalReason, stPhase = RedisClusterRunning,
             stConditions = conditions\<rparr>, False))))))"

definition tempStatus :: "'w RedisClusterOperator \<Rightarrow> RedisCluster \<Rightarrow> Endpoints option \<Rightarrow>
    RedisClusterPhase \<Rightarrow> string \<Rightarrow> (newStatus, 'w) op" where
  "tempStatus rco rc endpoints phase abnormalReason =
     (if phase = RedisClusterNone
      then ret (Inr (\<lparr>stReplicas = 0, stReason = abnormalReason, stPhase = RedisClusterNone,
             stConditions = stConditions (rcStatus rc)\<rparr>, True))
      else if phase = RedisClusterCreating
      then ret (Inr (\<lparr>stReplicas = 0, stReason = abnormalReason, stPhase = RedisClusterCreating,
             stConditions = []\<rparr>, False))
      else if phase = RedisClusterRunning then runningStatus rco rc endpoints abnormalReason
      else if phase = RedisClusterScaling \<or> phase = RedisClusterUpgrading \<or> phase = RedisClusterFailed \<or>
         phase = RedisClusterDeleting
      then keptStatus rco rc phase abnormalReason
      else ret (Inr (zeroStatus, False)))"

text \<open>Sorting the conditions sorts the resource's own slice where it is shared.\<close>

definition writeStatus :: "'w RedisClusterOperator \<Rightarrow> rcPtr \<Rightarrow> RedisClusterStatus \<times> bool \<Rightarrow>
    (rcPtr \<times> error, 'w) op" where
  "writeStatus rco p st =
     bnd (load p) (\<lambda>rc.
     let sorted = sort_key cdName (stConditions (fst st));
         new = (fst st)\<lparr>stConditions := sorted\<rparr>;
         old = (if snd st then (rcStatus rc)\<lparr>stConditions := sorted\<rparr> else rcStatus rc) in
     if \<not> DeepEqualRedisClusterStatus new old
     then
       bnd (store p (rc\<lparr>rcStatus := new\<rparr>)) (\<lambda>_.
       bnd (redisClustersUpdate rco (rcNamespace rc) p) (\<lambda>(q, err).
       if err \<noteq> None then ret (q, Some (updateStatusErr rc err)) else ret (q, None)))
     else bnd (store p (rc\<lparr>rcStatus := old\<rparr>)) (\<lambda>_. ret (p, None)))"

definition updateRedisClusterStatus :: "'w RedisClusterOperator \<Rightarrow> rcPtr \<Rightarrow> Endpoints option \<Rightarrow>
    RedisClusterPhase \<Rightarrow> string \<Rightarrow> (rcPtr \<times> error, 'w) op" where
  "updateRedisClusterStatus rco p endpoints phase abnormalReason =
     bnd (load p) (\<lambda>rc.
     bnd (tempStatus rco rc endpoints phase abnormalReason) (\<lambda>new.
     case new of
       Inl err \<Rightarrow> ret (p, Some err)
     | Inr st \<Rightarrow> writeStatus rco p st))"

section \<open>What an update writes\<close>

lemma store_update:
  "bnd (store p x) (\<lambda>_. bnd (redisClustersUpdate rco ns p) k) =
   bnd (store p x) (\<lambda>_. bnd (call (apiRedisClustersUpdate rco ns x) (\<lambda>_. [RcUpdateEv ns x])) (\<lambda>(result, err).
     bnd (alloc result) (\<lambda>q. k (q, err))))"
  by (rule ext) (simp add: redisClustersUpdate_def bnd_def store_def load_def call_def ret_def alloc_def
      split: prod.splits)

definition noUpdates :: "event list \<Rightarrow> bool" where
  "noUpdates evs \<longleftrightarrow> (\<forall>ns rc. RcUpdateEv ns rc \<notin> set evs)"

interpretation reading: command_trace noUpdates
  by unfold_locales (auto simp: noUpdates_def isExec_def)

context trace_discipline
begin

lemma emits_conditionsLoop [emits_intros]: "emits G (conditionsLoop rco m infos cs)"
  by (induction infos arbitrary: cs) (simp_all only: conditionsLoop.simps, (intro emits_intros | assumption)+)

lemma emits_case_sum [emits_intros]:
  "(\<And>x. emits G (f x)) \<Longrightarrow> (\<And>y. emits G (g y)) \<Longrightarrow> emits G (case z of Inl x \<Rightarrow> f x | Inr y \<Rightarrow> g y)"
  by (simp split: sum.splits)

end

lemma quiet_conditionsLoop [quiet_intros]: "quiet (conditionsLoop rco m infos cs)"
  by (induction infos arbitrary: cs) (simp_all only: conditionsLoop.simps, (intro quiet_intros | assumption)+)

lemma quiet_tempStatus [quiet_intros]: "quiet (tempStatus rco rc ep phase reason)"
  unfolding tempStatus_def runningStatus_def keptStatus_def buildRedisClusterStatusConditions_def
  by (intro quiet_intros)

context query_trace
begin

lemma emits_buildConditions [emits_intros]: "emits G (buildRedisClusterStatusConditions rco rc ep)"
  unfolding buildRedisClusterStatusConditions_def by (intro emits_intros)

lemma emits_tempStatus [emits_intros]: "emits G (tempStatus rco rc ep phase reason)"
  unfolding tempStatus_def runningStatus_def keptStatus_def by (intro emits_intros)

end

text \<open>The status that the switch prepares: the wanted phase and reason.\<close>

definition tempPost :: "RedisCluster \<Rightarrow> RedisClusterPhase \<Rightarrow> string \<Rightarrow> newStatus outcome \<Rightarrow> bool" where
  "tempPost rc phase reason r \<longleftrightarrow> (\<forall>st shared. r = Ret (Inr (st, shared)) \<longrightarrow>
     stPhase st = phase \<and> stReason st = reason \<and>
     (shared \<longrightarrow> stConditions st = stConditions (rcStatus rc)))"

lemma yields_result:
  assumes "quiet m" and "\<And>x. yields (\<lambda>_. True) (f x) (\<lambda>r _. P r)" and "P Panic" and "P Diverge"
  shows "yields (\<lambda>_. True) (bnd m f) (\<lambda>r _. P r)"
  by (rule yields_then [OF quiet_yields [OF assms(1)] assms(2-4)])

lemma yields_keptStatus:
  "yields (\<lambda>_. True) (keptStatus rco rc phase reason) (\<lambda>r _. tempPost rc phase reason r)"
proof -
  have fin: "yields (\<lambda>_. True) (bnd (lift (deref n)) (\<lambda>replicas.
      ret (Inr (\<lparr>stReplicas = replicas, stReason = reason, stPhase = phase,
        stConditions = stConditions (rcStatus rc)\<rparr>, True)))) (\<lambda>r _. tempPost rc phase reason r)" for n
    by (cases n) (auto simp: tempPost_def intro!: yields_ret yields_lift)
  have err: "yields (\<lambda>_. True) (ret (Inl e)) (\<lambda>r _. tempPost rc phase reason r)" for e
    by (rule yields_ret) (simp add: tempPost_def)
  have p: "tempPost rc phase reason Panic" "tempPost rc phase reason Diverge"
    by (simp_all add: tempPost_def)
  show ?thesis
    unfolding keptStatus_def
    by (rule yields_result [OF quiet_clients(2) _ p]) (auto split: prod.splits intro!: fin err)
qed

lemma yields_runningStatus:
  "yields (\<lambda>_. True) (runningStatus rco rc ep reason) (\<lambda>r _. tempPost rc RedisClusterRunning reason r)"
proof -
  have fin: "yields (\<lambda>_. True) (bnd (lift (deref n)) (\<lambda>replicas.
      ret (Inr (\<lparr>stReplicas = replicas, stReason = reason, stPhase = RedisClusterRunning,
        stConditions = cs\<rparr>, False)))) (\<lambda>r _. tempPost rc RedisClusterRunning reason r)" for n cs
    by (cases n) (auto simp: tempPost_def intro!: yields_ret yields_lift)
  have err: "yields (\<lambda>_. True) (ret (Inl e)) (\<lambda>r _. tempPost rc RedisClusterRunning reason r)" for e
    by (rule yields_ret) (simp add: tempPost_def)
  have q: "quiet (case ep of Some e \<Rightarrow> ret (e, None) | None \<Rightarrow> endpointsGet rco (rcNamespace rc) (rcName rc))"
    by (intro quiet_intros)
  have b: "quiet (buildRedisClusterStatusConditions rco rc e)" for e
    unfolding buildRedisClusterStatusConditions_def by (intro quiet_intros)
  have p: "tempPost rc RedisClusterRunning reason Panic" "tempPost rc RedisClusterRunning reason Diverge"
    by (simp_all add: tempPost_def)
  show ?thesis
    unfolding runningStatus_def
    by (rule yields_result [OF q _ p])
      (auto split: prod.splits intro!: err fin yields_result [OF quiet_clients(2) _ p] yields_result [OF b _ p])
qed

lemma tempStatus_simps:
  "tempStatus rco rc ep RedisClusterRunning reason = runningStatus rco rc ep reason"
  "tempStatus rco rc ep RedisClusterScaling reason = keptStatus rco rc RedisClusterScaling reason"
  "tempStatus rco rc ep RedisClusterUpgrading reason = keptStatus rco rc RedisClusterUpgrading reason"
  "tempStatus rco rc ep RedisClusterFailed reason = keptStatus rco rc RedisClusterFailed reason"
  "tempStatus rco rc ep RedisClusterDeleting reason = keptStatus rco rc RedisClusterDeleting reason"
  "tempStatus rco rc ep RedisClusterCreating reason = ret (Inr (\<lparr>stReplicas = 0, stReason = reason,
     stPhase = RedisClusterCreating, stConditions = []\<rparr>, False))"
  by (simp_all add: tempStatus_def)

lemma yields_tempStatus:
  assumes "phase \<in> writtenPhases"
  shows "yields (\<lambda>_. True) (tempStatus rco rc ep phase reason) (\<lambda>r _. tempPost rc phase reason r)"
proof -
  have creating: "yields (\<lambda>_. True) (tempStatus rco rc ep RedisClusterCreating reason)
      (\<lambda>r _. tempPost rc RedisClusterCreating reason r)"
    unfolding tempStatus_simps by (rule yields_ret) (simp add: tempPost_def)
  consider "phase = RedisClusterCreating" | "phase = RedisClusterRunning" | "phase = RedisClusterScaling"
    | "phase = RedisClusterUpgrading" | "phase = RedisClusterFailed"
    using assms by (auto simp only: writtenPhases_def insert_iff empty_iff)
  then show ?thesis
    by cases (simp_all only: creating tempStatus_simps(1-5) yields_keptStatus yields_runningStatus)
qed

context status_trace
begin

lemma emits_writeStatus:
  assumes "stPhase (fst st) \<in> writtenPhases"
  shows "emits G (writeStatus rco p st)"
  unfolding writeStatus_def Let_def store_update
  by (intro emits_intros emits_call updates) (simp_all add: assms)

lemma emits_updateStatus:
  assumes "phase \<in> writtenPhases"
  shows "emits G (updateRedisClusterStatus rco p ep phase reason)"
proof -
  have "emits G (bnd (tempStatus rco rc ep phase reason) (\<lambda>new.
      case new of Inl err \<Rightarrow> ret (p, Some err) | Inr st \<Rightarrow> writeStatus rco p st))" for rc
    unfolding emits_def
  proof (rule yields_bnd [OF yields_conj [OF yields_tempStatus [OF assms, of rco rc ep reason]
          emits_tempStatus [of rco rc ep phase reason, unfolded emits_def]],
        where R = "\<lambda>new r evs. (case new of Inl e \<Rightarrow> True | Inr st \<Rightarrow> stPhase (fst st) = phase) \<longrightarrow> G evs"])
    fix new :: newStatus
    show "yields (\<lambda>_. True) (case new of Inl err \<Rightarrow> ret (p, Some err) | Inr st \<Rightarrow> writeStatus rco p st)
        (\<lambda>r evs. (case new of Inl e \<Rightarrow> True | Inr st \<Rightarrow> stPhase (fst st) = phase) \<longrightarrow> G evs)"
    proof (cases "case new of Inl e \<Rightarrow> True | Inr st \<Rightarrow> stPhase (fst st) = phase")
      case True
      then have "emits G (case new of Inl err \<Rightarrow> ret (p, Some err) | Inr st \<Rightarrow> writeStatus rco p st)"
        using assms emits_writeStatus by (cases new) (auto intro: emits_ret)
      then show ?thesis using True by (simp add: emits_def)
    next
      case False
      have "yields (\<lambda>_. True) m (\<lambda>_ _. True)" if "emits (list_all (\<lambda>_. True)) m" for m :: "('x, 'w) op"
        using that unfolding emits_def by (rule yields_mono) simp
      moreover have "emits (list_all (\<lambda>_. True))
          (case new of Inl err \<Rightarrow> ret (p, Some err) | Inr st \<Rightarrow> writeStatus rco p st)"
        unfolding writeStatus_def Let_def store_update by (intro emits_intros every.emits_call) simp_all
      ultimately show ?thesis using False by simp
    qed
  qed (auto simp: tempPost_def intro: trace_append split: sum.splits)
  then show ?thesis
    unfolding updateRedisClusterStatus_def by (rule emits_bnd [OF emits_load])
qed

lemma emits_updates [emits_intros]:
  "emits G (updateRedisClusterStatus rco p ep RedisClusterCreating reason)"
  "emits G (updateRedisClusterStatus rco p ep RedisClusterRunning reason)"
  "emits G (updateRedisClusterStatus rco p ep RedisClusterScaling reason)"
  "emits G (updateRedisClusterStatus rco p ep RedisClusterUpgrading reason)"
  "emits G (updateRedisClusterStatus rco p ep RedisClusterFailed reason)"
  by (rule emits_updateStatus, simp add: writtenPhases_def)+

end

lemma writeStatus_changed:
  assumes "\<not> DeepEqualRedisClusterStatus (st\<lparr>stConditions := sort_key cdName (stConditions st)\<rparr>)
      (if shared then (rcStatus (syHeap s p))\<lparr>stConditions := sort_key cdName (stConditions st)\<rparr>
       else rcStatus (syHeap s p))"
    and "p \<noteq> syNext s" and "writeStatus rco p (st, shared) s = (r, s')"
  shows "\<exists>q err. r = Ret (q, err) \<and>
    syTrace s' = syTrace s @ [RcUpdateEv (rcNamespace (syHeap s p))
      ((syHeap s p)\<lparr>rcStatus := st\<lparr>stConditions := sort_key cdName (stConditions st)\<rparr>\<rparr>)] \<and>
    syHeap s' p = (syHeap s p)\<lparr>rcStatus := st\<lparr>stConditions := sort_key cdName (stConditions st)\<rparr>\<rparr>"
  using assms
  by (auto simp: writeStatus_def Let_def store_update bnd_def load_def store_def call_def alloc_def ret_def
      split: prod.splits if_splits)

lemma writeStatus_same:
  assumes "DeepEqualRedisClusterStatus (st\<lparr>stConditions := sort_key cdName (stConditions st)\<rparr>)
      (if shared then (rcStatus (syHeap s p))\<lparr>stConditions := sort_key cdName (stConditions st)\<rparr>
       else rcStatus (syHeap s p))"
    and "writeStatus rco p (st, shared) s = (r, s')"
  shows "r = Ret (p, None) \<and> syTrace s' = syTrace s \<and>
    syHeap s' p = (syHeap s p)\<lparr>rcStatus := if shared
      then (rcStatus (syHeap s p))\<lparr>stConditions := sort_key cdName (stConditions st)\<rparr>
      else rcStatus (syHeap s p)\<rparr>"
  using assms
  by (auto simp: writeStatus_def Let_def bnd_def load_def store_def ret_def)



section \<open>The conditions describe the node table\<close>

lemma conditionsLoop_run:
  "\<exists>cs' s'. conditionsLoop rco m infos cs s = (Ret (cs @ cs'), s') \<and>
     list_all2 (\<lambda>i c. \<exists>t. c = conditionOf m i t) infos cs'"
proof (induction infos arbitrary: cs s)
  case Nil
  then show ?case by (simp add: ret_def)
next
  case (Cons i infos)
  obtain t s1 where "now rco s = (Ret t, s1)"
    by (cases "clockNow rco (syWorld s)") (simp add: now_def call_def)
  moreover obtain cs' s' where
    "conditionsLoop rco m infos (cs @ [conditionOf m i t]) s1 = (Ret ((cs @ [conditionOf m i t]) @ cs'), s')"
    "list_all2 (\<lambda>i c. \<exists>t. c = conditionOf m i t) infos cs'"
    using Cons.IH by blast
  ultimately show ?case
    by (intro exI [of _ "conditionOf m i t # cs'"] exI [of _ s']) (auto simp: bnd_def)
qed

definition located :: "EndpointAddress \<Rightarrow> bool" where
  "located a \<longleftrightarrow> eaTargetRef a \<noteq> None \<and> eaNodeName a \<noteq> None"

lemma instanceInfoMap_run:
  assumes "\<forall>a\<in>set addrs. located a" and "distinct (map eaIP addrs)"
  shows "\<exists>m'. instanceInfoMap ep nodes addrs m = Ret m' \<and>
    (\<forall>a\<in>set addrs. \<exists>i. instanceInfoOf ep nodes a = Ret i \<and> m' (eaIP a @ '':6379'') = Some i) \<and>
    (\<forall>k. k \<notin> (\<lambda>a. eaIP a @ '':6379'') ` set addrs \<longrightarrow> m' k = m k)"
  using assms
proof (induction addrs arbitrary: m)
  case (Cons a addrs)
  obtain i where i: "instanceInfoOf ep nodes a = Ret i"
    using Cons.prems(1) by (auto simp: located_def instanceInfoOf_def)
  have rest: "\<forall>a\<in>set addrs. located a" "distinct (map eaIP addrs)"
    using Cons.prems by auto
  obtain m' where m': "instanceInfoMap ep nodes addrs (m(eaIP a @ '':6379'' \<mapsto> i)) = Ret m'"
    "\<forall>a\<in>set addrs. \<exists>i. instanceInfoOf ep nodes a = Ret i \<and> m' (eaIP a @ '':6379'') = Some i"
    "\<forall>k. k \<notin> (\<lambda>a. eaIP a @ '':6379'') ` set addrs \<longrightarrow> m' k = (m(eaIP a @ '':6379'' \<mapsto> i)) k"
    using Cons.IH [OF rest, of "m(eaIP a @ '':6379'' \<mapsto> i)"] by blast
  have "eaIP a @ '':6379'' \<notin> (\<lambda>b. eaIP b @ '':6379'') ` set addrs"
    using Cons.prems(2) by (auto simp: image_iff)
  then have "m' (eaIP a @ '':6379'') = Some i"
    using m'(3) by simp
  then show ?case
    using i m' by (intro exI [of _ m']) auto
qed simp

text \<open>What a condition says about a line of the node table and the pod behind it.\<close>

definition describes :: "Endpoints \<Rightarrow> EndpointAddress list \<Rightarrow> redisNodeInfo \<Rightarrow> RedisClusterCondition \<Rightarrow> bool" where
  "describes ep addrs i c \<longleftrightarrow>
     cdNodeId c = niNodeId i \<and> cdInstance c = niIpPort i \<and> cdSlots c = niSlot i \<and>
     cdMasterNodeId c = niMaster i \<and>
     (if niFlags i \<in> {masterFlagType, slaveFlagType} then cdStatus c = ''True'' \<and> cdType c = niFlags i
      else cdStatus c = ''False'' \<and> cdType c = []) \<and>
     (\<forall>a r n. a \<in> set addrs \<longrightarrow> niIpPort i = eaIP a @ '':6379'' \<longrightarrow> eaTargetRef a = Some r \<longrightarrow>
        eaNodeName a = Some n \<longrightarrow> cdName c = orName r \<and> cdHostname c = n \<and>
        cdDomainName c = orName r @ ''.'' @ epName ep @ ''.'' @ orNamespace r @ ''.svc.cluster.local'')"

lemma conditionOf_describes:
  assumes "\<forall>a\<in>set addrs. \<exists>j. instanceInfoOf ep nodes a = Ret j \<and> m (eaIP a @ '':6379'') = Some j"
  shows "describes ep addrs i (conditionOf m i t)"
proof -
  have "iiHostName j = orName r \<and> iiNodeName j = n \<and>
      iiDomainName j = orName r @ ''.'' @ epName ep @ ''.'' @ orNamespace r @ ''.svc.cluster.local''"
    if "instanceInfoOf ep nodes a = Ret j" "eaTargetRef a = Some r" "eaNodeName a = Some n" for a j r n
    using that by (auto simp: instanceInfoOf_def)
  then show ?thesis
    using assms by (fastforce simp: describes_def conditionOf_def Let_def)
qed

text \<open>
  C30: the conditions are the node table, joined with the pods. When the node table can be read, the
  Kubernetes nodes can be listed and every address names its pod and its node, the conditions built
  are one per line of the table, in order: each carries the line's id, address, slots and master, is
  true exactly for a master or a slave, and names the pod, host and domain of the address that the
  line's \<open>ip:6379\<close> belongs to.
\<close>

theorem buildRedisClusterStatusConditions_describe:
  assumes "epSubsets ep = Some ((a # addrs) # rest)" and "\<forall>b\<in>set (a # addrs). located b"
    and "distinct (map eaIP (a # addrs))" and "eaTargetRef a = Some r"
    and "execClusterNodes rco (eaIP a) (orNamespace r) (orName r) s = (Ret (infos, None), s1)"
    and "apiNodesList rco (syWorld s1) = ((nodes, None), w2)"
  shows "\<exists>cs s'. buildRedisClusterStatusConditions rco rc ep s = (Ret (cs, None), s') \<and>
    list_all2 (describes ep (a # addrs)) infos cs"
proof -
  obtain m where m: "instanceInfoMap ep (nodeInfoMap nodes) (a # addrs) Map.empty = Ret m"
    "\<forall>b\<in>set (a # addrs). \<exists>j. instanceInfoOf ep (nodeInfoMap nodes) b = Ret j \<and> m (eaIP b @ '':6379'') = Some j"
    using instanceInfoMap_run [OF assms(2,3)] by blast
  let ?s2 = "s1\<lparr>syWorld := w2, syTrace := syTrace s1 @ [NodesListEv]\<rparr>"
  obtain cs s' where cs: "conditionsLoop rco m infos [] ?s2 = (Ret cs, s')"
    "list_all2 (\<lambda>i c. \<exists>t. c = conditionOf m i t) infos cs"
    using conditionsLoop_run [of rco m infos "[]" ?s2] by auto
  have "buildRedisClusterStatusConditions rco rc ep s = (Ret (cs, None), s')"
    using assms(1,4-6) m(1) cs(1)
    by (simp add: buildRedisClusterStatusConditions_def bnd_def [of "execClusterNodes rco x y z" for x y z]
        bnd_def [of "call x y" for x y] nodesList_def call_def bnd_def [of "conditionsLoop rco x y z" for x y z] ret_def
        del: instanceInfoMap.simps)
  moreover have "list_all2 (describes ep (a # addrs)) infos cs"
    using cs(2) by (rule list_all2_mono) (auto intro: conditionOf_describes [OF m(2)])
  ultimately show ?thesis by blast
qed

text \<open>An environment that answers every command with the same output.\<close>

definition answering :: "string \<Rightarrow> unit RedisClusterOperator" where
  "answering out = exampleOperator\<lparr>apiStream := \<lambda>_ _ _ _ w. ((out, [], None), w)\<rparr>"

definition nodeLine :: string where
  "nodeLine = ''id1 10.0.0.1:6379 myself,master - 0 0 1 connected 0-16383''"

lemma waitRedisStatusOK_answering:
  assumes "\<not> contains out ''[ERR]''"
  shows "\<exists>s'. waitRedisStatusOK (answering out) ip pod ns s = (Ret None, s')"
proof -
  have "\<exists>s'. statusOKCond (answering out) ip pod ns () s = (Ret (True, None, ()), s')" for s
    using assms by (simp add: statusOKCond_def execCheckRedisCluster_def ExecToPodThroughAPI_def bnd_def call_def
        ret_def answering_def exampleOperator_def)
  then obtain s1 where s1: "statusOKCond (answering out) ip pod ns () s = (Ret (True, None, ()), s1)" by blast
  have "sint (optClusterTimeOut (answering out)) = 20"
    by (simp add: answering_def exampleOperator_def)
  then have t: "minutes (optClusterTimeOut (answering out)) \<noteq> 0"
    "maxTicks (2 * nsPerSecond) (minutes (optClusterTimeOut (answering out))) = Suc 599"
    using poll_ticks [of "optClusterTimeOut (answering out)"] by simp_all
  have tick: "call (pollTick (answering out)) (\<lambda>_. []) s = (Ret True, s)"
    by (simp add: call_def answering_def exampleOperator_def)
  have "waitFor (call (pollTick (answering out)) (\<lambda>_. [])) (statusOKCond (answering out) ip pod ns) (Suc 599) () s
      = (Ret (None, ()), s1)"
    using s1 tick unfolding waitFor.simps by (simp add: bnd_def ret_def)
  then have "pollOp (answering out) (statusOKCond (answering out) ip pod ns) () s = (Ret (None, ()), s1)"
    unfolding pollOp_def Poll_def t(2) using t(1) by simp
  then show ?thesis
    by (simp add: waitRedisStatusOK_def bnd_def ret_def)
qed

theorem buildRedisClusterStatusConditions_describe_witness:
  "\<exists>c s'. buildRedisClusterStatusConditions (answering nodeLine) exampleRc readyEndpoints exampleSys = (Ret ([c], None), s') \<and>
     cdNodeId c = ''id1'' \<and> cdName c = ''r-0''"
proof -
  let ?a = "readyAddress ''10.0.0.1'' ''node-a'' ''r-0''" and ?rco = "answering nodeLine"
  let ?rest = "[readyAddress ''10.0.0.2'' ''node-b'' ''r-1'', readyAddress ''10.0.0.3'' ''node-a'' ''r-2'',
    readyAddress ''10.0.0.4'' ''node-b'' ''r-3'']"
  let ?r = "\<lparr>orName = ''r-0'', orNamespace = ''ns''\<rparr>"
  let ?i = "\<lparr>niNodeId = ''id1'', niIpPort = ''10.0.0.1:6379'', niFlags = ''master'', niMaster = ''-'',
    niPingSent = ''0'', niPongRecv = ''0'', niConfigEpoch = ''1'', niLinkState = ''connected'', niSlot = ''0-16383''\<rparr>"
  have no_err: "\<not> contains nodeLine ''[ERR]''" by code_simp
  have parse: "parseClusterNodes nodeLine = Ret [?i]" by code_simp
  obtain s1 where w: "waitRedisStatusOK ?rco (eaIP ?a) (orName ?r) (orNamespace ?r) exampleSys = (Ret None, s1)"
    using waitRedisStatusOK_answering [OF no_err] by blast
  obtain s2 where nodes: "execClusterNodes ?rco (eaIP ?a) (orNamespace ?r) (orName ?r) exampleSys = (Ret ([?i], None), s2)"
    using w parse by (simp add: execClusterNodes_def bnd_def ExecToPodThroughAPI_def call_def ret_def lift_def
        answering_def exampleOperator_def split: prod.splits)
  have ep: "epSubsets readyEndpoints = Some ((?a # ?rest) # [])" "\<forall>b\<in>set (?a # ?rest). located b"
    "distinct (map eaIP (?a # ?rest))" "eaTargetRef ?a = Some ?r"
    by (simp_all add: readyEndpoints_def readyAddress_def located_def)
  have "apiNodesList ?rco (syWorld s2) = (([], None), syWorld s2)"
    by (simp add: answering_def exampleOperator_def)
  from buildRedisClusterStatusConditions_describe [OF ep nodes this] obtain cs s' where
    "buildRedisClusterStatusConditions ?rco exampleRc readyEndpoints exampleSys = (Ret (cs, None), s')"
    "list_all2 (describes readyEndpoints (?a # ?rest)) [?i] cs" by blast
  then show ?thesis
    by (auto simp: list_all2_Cons1 describes_def readyAddress_def)
qed

end
