(* ===== verification/Lifecycle.thy ===== *)
theory Lifecycle
  imports Status Assign Compose
begin

text \<open>
  Building and growing a Redis cluster: \<^verbatim>\<open>createAndInitRedisCluster\<close>,
  \<^verbatim>\<open>scaleRedisCluster\<close>, \<^verbatim>\<open>upgradeRedisCluster\<close> with its two ways to distribute
  slots, and \<^verbatim>\<open>dropRedisCluster\<close>, all of \<^verbatim>\<open>sync_rediscluster.go\<close>. The handlers take the
  address of the resource, as the code does, and the endpoints by value: the slices that
  \<^verbatim>\<open>sortEndpointsByPodName\<close> sorts in place are the caller's own.
\<close>

section \<open>The model\<close>

text \<open>A failure is noted in the resource, whose update is not looked at, and returned.\<close>

definition recordFailure :: "'w RedisClusterOperator \<Rightarrow> rcPtr \<Rightarrow> Endpoints option \<Rightarrow> RedisClusterPhase \<Rightarrow>
    'a \<Rightarrow> error \<Rightarrow> ('a, 'w) op" where
  "recordFailure rco p endpoints phase result err =
     bnd (updateRedisClusterStatus rco p endpoints phase (fmtError err)) (\<lambda>_. ret result)"

definition subsetsNilErr :: "RedisCluster \<Rightarrow> gerr" where
  "subsetsNilErr rc = Err (''endpoints.Subsets is nil, maybe statefulset '' @ rcNamespace rc @ ''/'' @
     rcName rc @ '' has been deleted'')"

definition clusterStatusErr :: "RedisCluster \<Rightarrow> gerr" where
  "clusterStatusErr rc = Err (''current redis cluster: '' @ rcNamespace rc @ ''/'' @ rcName rc @
     '' status is error'')"

text \<open>The node ids of instances: the first node at the instance's address, if any.\<close>

definition nodeIdsAt :: "string list \<Rightarrow> redisNodeInfo list \<Rightarrow> string list" where
  "nodeIdsAt ips nodeInfos =
     List.map_filter (\<lambda>ip. map_option niNodeId (find (\<lambda>info. ip @ '':6379'' = niIpPort info) nodeInfos)) ips"

text \<open>The variant that searches the address for the IP as a substring.\<close>

definition nodeIdsContaining :: "string list \<Rightarrow> redisNodeInfo list \<Rightarrow> string list" where
  "nodeIdsContaining ips nodeInfos =
     List.map_filter (\<lambda>ip. map_option niNodeId (find (\<lambda>info. contains (niIpPort info) ip) nodeInfos)) ips"

definition currentRedisClusterInfo :: "RedisCluster \<Rightarrow> Endpoints \<Rightarrow> Endpoints \<Rightarrow>
    (string list \<times> error) outcome" where
  "currentRedisClusterInfo rc endpoints oldEndpoints =
     obnd (idx (subsetsOf oldEndpoints) 0) (\<lambda>oldAddresses.
     obnd (idx (subsetsOf endpoints) 0) (\<lambda>addresses.
     if addresses = [] \<or> oldAddresses = []
     then Ret ([], Some (Err (''endpoints.Subsets.addresses is empty, maybe statefulset '' @
            rcNamespace rc @ ''/'' @ rcName rc @ '' all replicas not ready'')))
     else Ret (map eaIP oldAddresses, None)))"

text \<open>
  \<^verbatim>\<open>scaleRedisCluster\<close> from the point where the first address is known; the result is the old
  instances, the ids of the new masters, and the error.
\<close>

definition scaleFrom :: "'w RedisClusterOperator \<Rightarrow> RedisCluster \<Rightarrow> Endpoints \<Rightarrow> string list \<Rightarrow>
    ObjectReference option \<Rightarrow> (string list \<times> string list \<times> error, 'w) op" where
  "scaleFrom rco rc endpoints existInstanceIps reference =
     bnd (lift (idx existInstanceIps 0)) (\<lambda>existIp.
     bnd (lift (deref reference)) (\<lambda>r.
     bnd (execClusterNodes rco existIp (orNamespace r) (orName r)) (\<lambda>(nodeInfos, err).
     if err \<noteq> None then ret ([], [], err)
     else
       bnd (lift (buildWillAddClusterMasterSlaveIPs nodeInfos endpoints)) (\<lambda>(newMasterIPs, newSlaveIPs, _, err).
       if err \<noteq> None then ret ([], [], err)
       else
         bnd (addMasterNodeToRedisCluster rco newMasterIPs existIp (orName r) (orNamespace r)) (\<lambda>err.
         if err \<noteq> None then ret ([], [], err)
         else
           bnd (execClusterNodes rco existIp (orNamespace r) (orName r)) (\<lambda>(nodeInfos, err).
           if err \<noteq> None then ret ([], [], err)
           else
             let newMasterNodeIds = nodeIdsContaining newMasterIPs nodeInfos in
             if length newMasterNodeIds \<noteq> length newMasterIPs
             then ret ([], [], Some (clusterStatusErr rc))
             else
               bnd (addSlaveToClusterMaster rco newSlaveIPs newMasterIPs newMasterNodeIds (orNamespace r) (orName r))
                 (\<lambda>err.
               if err \<noteq> None then ret ([], [], err)
               else ret (existInstanceIps, newMasterNodeIds, None))))))))"

definition scaleRedisCluster :: "'w RedisClusterOperator \<Rightarrow> rcPtr \<Rightarrow> Endpoints \<Rightarrow> Endpoints \<Rightarrow>
    (string list \<times> string list \<times> error, 'w) op" where
  "scaleRedisCluster rco p endpoints oldEndpoints =
     bnd (load p) (\<lambda>rc.
     if epSubsets endpoints = None then ret ([], [], Some (subsetsNilErr rc))
     else
       bnd (lift (idx (subsetsOf endpoints) 0)) (\<lambda>addresses.
       bnd (lift (idx addresses 0)) (\<lambda>first.
       bnd (lift (currentRedisClusterInfo rc endpoints oldEndpoints)) (\<lambda>(existInstanceIps, err).
       if err \<noteq> None then ret ([], [], err)
       else scaleFrom rco rc endpoints existInstanceIps (eaTargetRef first)))))"

text \<open>
  The two ways to distribute the slots share everything but the command and the namespace of the
  last query.
\<close>

definition assignSlots :: "'w RedisClusterOperator \<Rightarrow> rcPtr \<Rightarrow> Endpoints \<Rightarrow> Endpoints \<Rightarrow>
    (RedisCluster \<Rightarrow> string \<Rightarrow> ObjectReference \<Rightarrow> string list \<Rightarrow> (error, 'w) op) \<Rightarrow>
    (RedisCluster \<Rightarrow> ObjectReference \<Rightarrow> string) \<Rightarrow> (error, 'w) op" where
  "assignSlots rco p endpoints oldEndpoints distribute lastNamespace =
     bnd (scaleRedisCluster rco p endpoints oldEndpoints) (\<lambda>(existInstanceIps, newMasterNodeIds, err).
     if err \<noteq> None then recordFailure rco p (Some endpoints) RedisClusterRunning err err
     else
       bnd (load p) (\<lambda>rc.
       if epSubsets endpoints = None then ret (Some (subsetsNilErr rc))
       else
         bnd (lift (idx (subsetsOf endpoints) 0)) (\<lambda>addresses.
         bnd (lift (idx addresses 0)) (\<lambda>first.
         bnd (lift (idx existInstanceIps 0)) (\<lambda>existIp.
         bnd (lift (deref (eaTargetRef first))) (\<lambda>r.
         bnd (distribute rc existIp r newMasterNodeIds) (\<lambda>err.
         if err \<noteq> None then recordFailure rco p (Some endpoints) RedisClusterRunning err err
         else
           bnd (execClusterNodes rco existIp (lastNamespace rc r) (orName r)) (\<lambda>(_, err).
           if err \<noteq> None then ret err
           else
             bnd (updateRedisClusterStatus rco p (Some endpoints) RedisClusterRunning []) (\<lambda>_.
             ret None)))))))))"

definition autoAssignSlotToRedisCluster :: "'w RedisClusterOperator \<Rightarrow> Endpoints \<Rightarrow> rcPtr \<Rightarrow> Endpoints \<Rightarrow>
    (error, 'w) op" where
  "autoAssignSlotToRedisCluster rco endpoints p oldEndpoints =
     assignSlots rco p endpoints oldEndpoints
       (\<lambda>rc existIp r newMasterNodeIds. rebalanceRedisClusterSlotsToMasterNode rco existIp (orName r) (orNamespace r)
          (usPipeline (spUpdateStrategy (rcSpec rc))))
       (\<lambda>rc r. orNamespace r)"

definition manualAssignSlotToRedisCluster :: "'w RedisClusterOperator \<Rightarrow> Endpoints \<Rightarrow> rcPtr \<Rightarrow> Endpoints \<Rightarrow>
    (error, 'w) op" where
  "manualAssignSlotToRedisCluster rco endpoints p oldEndpoints =
     assignSlots rco p endpoints oldEndpoints
       (\<lambda>rc existIp r newMasterNodeIds. reshareRedisClusterSlotsToMasterNode rco (spUpdateStrategy (rcSpec rc))
          existIp (orName r) (orNamespace r) newMasterNodeIds)
       (\<lambda>rc r. rcNamespace rc)"

definition wrapError :: "string \<Rightarrow> error \<Rightarrow> error" where
  "wrapError msg err = (if err \<noteq> None then Some (Err (msg @ fmtError err)) else None)"

definition upgradeByStrategy :: "'w RedisClusterOperator \<Rightarrow> rcPtr \<Rightarrow> rcPtr \<Rightarrow> Endpoints \<Rightarrow> Endpoints \<Rightarrow>
    (error, 'w) op" where
  "upgradeByStrategy rco p q endpoints oldEndpoints =
     bnd (load q) (\<lambda>new.
     let upgradeType = usType (spUpdateStrategy (rcSpec new)) in
     if upgradeType = AutoReceiveStrategyType
     then bnd (autoAssignSlotToRedisCluster rco endpoints q oldEndpoints) (\<lambda>err.
            ret (wrapError ''redisCluster upgrade autoAssign slot to RedisCluster is error: '' err))
     else if upgradeType = AssignReceiveStrategyType
     then bnd (manualAssignSlotToRedisCluster rco endpoints q oldEndpoints) (\<lambda>err.
            ret (wrapError ''redisCluster upgrade manualAssign slot to RedisCluster is error: '' err))
     else bnd (load p) (\<lambda>rc. ret (Some (Err (''redisCluster: '' @ rcNamespace rc @ ''/'' @ rcName rc @
            '' UpdateStrategy Type only [AutoReceive, AssignReceive] error'')))))"

definition upgradeRedisCluster :: "'w RedisClusterOperator \<Rightarrow> rcPtr \<Rightarrow> Endpoints \<Rightarrow> (error, 'w) op" where
  "upgradeRedisCluster rco p oldEndpoints =
     bnd (load p) (\<lambda>rc.
     if subsetsOf oldEndpoints = [] \<or> hd (subsetsOf oldEndpoints) = []
     then ret (Some (Err (''RedisCluster: '' @ rcNamespace rc @ ''/'' @ rcName rc @ '' endpoints address is empty'')))
     else
       bnd (checkPodInstanceIsReadyByEndpoint rco p) (\<lambda>(endpoints, err).
       if err \<noteq> None then recordFailure rco p endpoints RedisClusterRunning err err
       else
         bnd (updateRedisClusterStatus rco p None RedisClusterUpgrading []) (\<lambda>(q, err).
         if err \<noteq> None then ret err
         else
           bnd (lift (sortEndpointsByPodName [endpoints, Some oldEndpoints])) (\<lambda>sorted.
           bnd (lift (deref (sorted ! 0))) (\<lambda>endpoints.
           bnd (lift (deref (sorted ! 1))) (\<lambda>oldEndpoints.
           upgradeByStrategy rco p q endpoints oldEndpoints))))))"

text \<open>\<^verbatim>\<open>createAndInitRedisCluster\<close> from the assignment of roles on.\<close>

definition initMasterSlaves :: "'w RedisClusterOperator \<Rightarrow> rcPtr \<Rightarrow> Endpoints \<Rightarrow> string list \<Rightarrow>
    string list \<Rightarrow> (error, 'w) op" where
  "initMasterSlaves rco p endpoints masterInstanceIps slaveInstanceIps =
     bnd (lift (idx (subsetsOf endpoints) 0)) (\<lambda>addresses.
     bnd (lift (idx addresses 0)) (\<lambda>first.
     let fail = recordFailure rco p (Some endpoints) RedisClusterFailed in
     bnd (createCluster rco masterInstanceIps (eaTargetRef first)) (\<lambda>err.
     if err \<noteq> None then fail err err
     else
       bnd (lift (deref (eaTargetRef first))) (\<lambda>r.
       bnd (lift (idx masterInstanceIps 0)) (\<lambda>firstMaster.
       bnd (execClusterNodes rco firstMaster (orNamespace r) (orName r)) (\<lambda>(nodeInfos, err).
       if err \<noteq> None then fail err err
       else
         bnd (load p) (\<lambda>rc.
         if length nodeInfos \<noteq> length slaveInstanceIps
         then fail (Some (clusterStatusErr rc)) (Some (clusterStatusErr rc))
         else
           bnd (addSlaveToClusterMaster rco slaveInstanceIps masterInstanceIps
              (nodeIdsAt masterInstanceIps nodeInfos) (orNamespace r) (orName r)) (\<lambda>err.
           if err \<noteq> None then fail err err
           else
             bnd (load p) (\<lambda>rc.
             bnd (execClusterNodes rco firstMaster (rcNamespace rc) (orName r)) (\<lambda>(_, err).
             if err \<noteq> None then fail err err
             else
               bnd (updateRedisClusterStatus rco p (Some endpoints) RedisClusterRunning []) (\<lambda>_.
               ret None)))))))))))"

definition initFromEndpoints :: "'w RedisClusterOperator \<Rightarrow> rcPtr \<Rightarrow> Endpoints \<Rightarrow> (error, 'w) op" where
  "initFromEndpoints rco p endpoints =
     (let fail = recordFailure rco p (Some endpoints) RedisClusterFailed;
          (willAssignIPAddresses, err) = assignMasterSlaveIPAddress endpoints None in
      if err \<noteq> None then fail err err
      else
        bnd (lift (assignMasterSlaveIP willAssignIPAddresses)) (\<lambda>(masterInstanceIps, slaveInstanceIps, err).
        if err \<noteq> None then fail err err
        else initMasterSlaves rco p endpoints masterInstanceIps slaveInstanceIps))"

definition createFromEndpoints :: "'w RedisClusterOperator \<Rightarrow> rcPtr \<Rightarrow> RedisCluster \<Rightarrow> Endpoints \<Rightarrow>
    (error, 'w) op" where
  "createFromEndpoints rco p rc ep =
     (if subsetsOf ep = [] \<or> hd (subsetsOf ep) = [] then ret (Some (subsetsNilErr rc))
      else
        bnd (lift (sortEndpointsByPodName [Some ep])) (\<lambda>sorted.
        bnd (lift (deref (sorted ! 0))) (initFromEndpoints rco p)))"

definition createAndInitRedisCluster :: "'w RedisClusterOperator \<Rightarrow> rcPtr \<Rightarrow> (error, 'w) op" where
  "createAndInitRedisCluster rco p =
     bnd (checkPodInstanceIsReadyByEndpoint rco p) (\<lambda>(endpoints, err).
     if err \<noteq> None then recordFailure rco p endpoints RedisClusterFailed err err
     else
       bnd (load p) (\<lambda>rc.
       case endpoints of
         None \<Rightarrow> ret (Some (subsetsNilErr rc))
       | Some ep \<Rightarrow> createFromEndpoints rco p rc ep))"

definition dropRedisCluster :: "'w RedisClusterOperator \<Rightarrow> rcPtr \<Rightarrow> (error, 'w) op" where
  "dropRedisCluster rco p =
     bnd (load p) (\<lambda>rc. redisClustersDelete rco (rcNamespace rc) (rcName rc) ''Foreground'')"

section \<open>The handlers keep the interface\<close>

context status_trace
begin

lemma emits_recordFailure [emits_intros]:
  "emits G (recordFailure rco p ep RedisClusterRunning x err)"
  "emits G (recordFailure rco p ep RedisClusterFailed x err)"
  unfolding recordFailure_def by (intro emits_intros)+

end

context operator_trace
begin

lemma emits_scaleRedisCluster [emits_intros]: "emits G (scaleRedisCluster rco p ep old)"
  unfolding scaleRedisCluster_def scaleFrom_def Let_def by (intro emits_intros)

lemma emits_assignSlots:
  "(\<And>rc ip r ids. emits G (distribute rc ip r ids)) \<Longrightarrow>
    emits G (assignSlots rco p ep old distribute lastNamespace)"
  unfolding assignSlots_def by (intro emits_intros)

lemma emits_upgradeRedisCluster [emits_intros]: "emits G (upgradeRedisCluster rco p old)"
  unfolding upgradeRedisCluster_def upgradeByStrategy_def autoAssignSlotToRedisCluster_def
    manualAssignSlotToRedisCluster_def Let_def
  by (intro emits_intros emits_assignSlots)

lemma emits_createAndInit [emits_intros]: "emits G (createAndInitRedisCluster rco p)"
  unfolding createAndInitRedisCluster_def createFromEndpoints_def initFromEndpoints_def initMasterSlaves_def Let_def
  by (intro emits_intros)

end

end
