(* ===== verification/Plans.thy ===== *)
theory Plans
  imports Lifecycle
begin

text \<open>
  What building and growing a cluster does to it: the commands that create or change the cluster,
  as lists computed by pure functions from the tables the operator read. The handlers of
  \<^verbatim>\<open>Lifecycle\<close> refine these plans: they send an initial part of the plan, and all of it when
  they report success.
\<close>

section \<open>The commands of a trace\<close>

definition clusterCommands :: "event list \<Rightarrow> string list list" where
  "clusterCommands evs = map evCommand (filter (\<lambda>e. changesCluster e \<or> createsCluster e) evs)"

definition noCommands :: "event list \<Rightarrow> bool" where
  "noCommands evs \<longleftrightarrow> clusterCommands evs = []"

lemma clusterCommands_append [simp]: "clusterCommands (evs @ evs') = clusterCommands evs @ clusterCommands evs'"
  by (simp add: clusterCommands_def)

lemma clusterCommands_Nil [simp]: "clusterCommands [] = []"
  by (simp add: clusterCommands_def)

interpretation silent: status_trace noCommands
  by unfold_locales (auto simp: noCommands_def clusterCommands_def isExec_def event_class_simps)

text \<open>A node table that was read in a trace from the given instance.\<close>

definition nodesRead :: "string \<Rightarrow> redisNodeInfo list \<Rightarrow> event list \<Rightarrow> bool" where
  "nodesRead ip nodeInfos evs \<longleftrightarrow> (\<exists>c pod ns out.
     ExecEv (clusterNodesCmd ip) c pod ns out [] None \<in> set evs \<and> parseClusterNodes out = Ret nodeInfos)"

lemma nodesRead_append: "nodesRead ip nodeInfos (evs @ evs') \<longleftrightarrow> nodesRead ip nodeInfos evs \<or> nodesRead ip nodeInfos evs'"
  by (auto simp: nodesRead_def)

lemma yields_execClusterNodes:
  "yields (\<lambda>_. True) (execClusterNodes rco ip ns pod) (\<lambda>r evs. noCommands evs \<and>
     (\<forall>nodeInfos. r = Ret (nodeInfos, None) \<longrightarrow> nodesRead ip nodeInfos evs))"
proof -
  have query: "yields (\<lambda>_. True) (ExecToPodThroughAPI rco (clusterNodesCmd ip) redisContainerName pod ns)
      (\<lambda>r evs. \<forall>out. r = Ret (out, [], None) \<longrightarrow>
         ExecEv (clusterNodesCmd ip) redisContainerName pod ns out [] None \<in> set evs)"
    by (rule yields_mono [OF yields_exec [OF aboutHeap_True]]) (auto simp: execPost_def)
  have body: "yields (\<lambda>_. True) (bnd (ExecToPodThroughAPI rco (clusterNodesCmd ip) redisContainerName pod ns)
      (\<lambda>(out, errOut, err). if err \<noteq> None \<or> errOut \<noteq> [] then ret ([], Some (f out errOut err))
        else bnd (lift (parseClusterNodes out)) (\<lambda>nodeInfos. ret (nodeInfos, None))))
      (\<lambda>r evs. \<forall>nodeInfos. r = Ret (nodeInfos, None) \<longrightarrow> nodesRead ip nodeInfos evs)" for f
  proof (rule yields_bnd [OF query, where R = "\<lambda>x r _. \<forall>nodeInfos. r = Ret (nodeInfos, None) \<longrightarrow>
          snd (snd x) = None \<and> fst (snd x) = [] \<and> parseClusterNodes (fst x) = Ret nodeInfos"])
    fix x r evs evs'
    assume "\<forall>out. Ret x = Ret (out, [], None) \<longrightarrow>
        ExecEv (clusterNodesCmd ip) redisContainerName pod ns out [] None \<in> set evs"
      and "\<forall>nodeInfos. r = Ret (nodeInfos, None) \<longrightarrow>
        snd (snd x) = None \<and> fst (snd x) = [] \<and> parseClusterNodes (fst x) = Ret nodeInfos"
    then show "\<forall>nodeInfos. r = Ret (nodeInfos, None) \<longrightarrow> nodesRead ip nodeInfos (evs @ evs')"
      unfolding nodesRead_def by (cases x) fastforce
  qed (auto split: prod.splits intro!: yields_ret yields_bnd_lift)
  have "yields (\<lambda>_. True) (execClusterNodes rco ip ns pod)
      (\<lambda>r evs. \<forall>nodeInfos. r = Ret (nodeInfos, None) \<longrightarrow> nodesRead ip nodeInfos evs)"
    unfolding execClusterNodes_def
    by (rule yields_bnd [OF quiet_yields [OF quiet_wait], where R = "\<lambda>_ r evs.
          \<forall>nodeInfos. r = Ret (nodeInfos, None) \<longrightarrow> nodesRead ip nodeInfos evs"])
      (use body in \<open>auto simp: nodesRead_append intro: yields_ret\<close>)
  from yields_conj [OF silent.emits_execClusterNodes [unfolded emits_def] this] show ?thesis .
qed

section \<open>Batches as commands\<close>

definition sendsAll :: "string list list \<Rightarrow> error outcome \<Rightarrow> event list \<Rightarrow> bool" where
  "sendsAll cmds r evs \<longleftrightarrow> prefix (clusterCommands evs) cmds \<and> (r = Ret None \<longrightarrow> clusterCommands evs = cmds)"

lemma commands_of_batch:
  "list_all inContainer evs \<Longrightarrow> clusterCommands evs = map evCommand (changes evs)"
  by (induction evs) (auto simp: clusterCommands_def changes_def)

lemma batch_sendsAll:
  assumes "yields (\<lambda>_. True) m (batchPost cmds)" and "emits (list_all inContainer) m"
  shows "yields (\<lambda>_. True) m (sendsAll cmds)"
  using yields_conj [OF assms(1) assms(2) [unfolded emits_def]]
proof (rule yields_mono)
  fix r evs
  assume post: "batchPost cmds r evs \<and> list_all inContainer evs"
  then have eq: "clusterCommands evs = map evCommand (changes evs)"
    using commands_of_batch by blast
  have "clusterCommands evs = cmds" if "r = Ret None"
  proof -
    have "prefix (clusterCommands evs) cmds" "length (clusterCommands evs) = length cmds"
      using post that by (simp_all add: batchPost_def eq)
    then show ?thesis by (auto simp: prefix_def)
  qed
  then show "sendsAll cmds r evs"
    using post by (simp add: batchPost_def sendsAll_def eq)
qed

definition slaveCommands :: "string list \<Rightarrow> string list \<Rightarrow> string list \<Rightarrow> string list list" where
  "slaveCommands slaves masters ids = map (\<lambda>(s, m, n). addSlaveCmd n s m) (zip slaves (zip masters ids))"

lemma masters_sendAll:
  "yields (\<lambda>_. True) (addMasterNodeToRedisCluster rco ips ip pod ns) (sendsAll (map (\<lambda>m. addMasterCmd m ip) ips))"
  by (rule batch_sendsAll [OF masters.batch emits_addMasters_inContainer])

lemma slaves_sendAll:
  "yields (\<lambda>_. True) (addSlaveToClusterMaster rco ss ms ids ns pod) (\<lambda>r evs.
     sendsAll (slaveCommands ss ms ids) r evs \<and> (r = Ret None \<longrightarrow> length ss = length ms \<and> length ids = length ms))"
proof (cases "length ss = length ms \<and> length ms = length ids")
  case True
  then show ?thesis
    using batch_sendsAll [OF slaves.batch [where xs = "zip ss (zip ms ids)"] emits_addSlaves_inContainer]
    by (simp add: addSlaveToClusterMaster_def slaveCommands_def)
next
  case False
  then show ?thesis
    by (auto simp: addSlaveToClusterMaster_def sendsAll_def intro!: yields_ret)
qed

lemma rebalance_sendsAll:
  "yields (\<lambda>_. True) (rebalanceRedisClusterSlotsToMasterNode rco ip pod ns pl)
     (sendsAll [rebalanceCmd (pipelineOf pl) ip])"
  unfolding rebalance_batch
  using batch_sendsAll [OF rebalances.batch [where xs = "[pl]"] emits_rebalances_inContainer] by simp

definition reshareCommands :: "RedisClusterUpdateStrategy \<Rightarrow> string \<Rightarrow> string list \<Rightarrow> string list list" where
  "reshareCommands us ip ids =
     map (reshareItemCmd (usAssignStrategies us) (pipelineOf (usPipeline us)) ip) (List.enumerate 0 ids)"

lemma reshare_sendsAll:
  "yields (\<lambda>_. True) (reshareRedisClusterSlotsToMasterNode rco us ip pod ns ids) (sendsAll (reshareCommands us ip ids))"
  unfolding reshareRedisClusterSlotsToMasterNode_def reshareCommands_def
  by (rule batch_sendsAll [OF reshares.batch emits_reshares_inContainer])

section \<open>Growing a cluster\<close>

definition scalePlan :: "string \<Rightarrow> string list \<Rightarrow> string list \<Rightarrow> string list \<Rightarrow> string list list" where
  "scalePlan existIp masters slaves ids = map (\<lambda>m. addMasterCmd m existIp) masters @ slaveCommands slaves masters ids"

text \<open>The last part of \<open>scaleFrom\<close>, after the second reading of the node table.\<close>

definition slavesStep :: "'w RedisClusterOperator \<Rightarrow> RedisCluster \<Rightarrow> string list \<Rightarrow> ObjectReference \<Rightarrow>
    string list \<Rightarrow> string list \<Rightarrow> redisNodeInfo list \<Rightarrow> (string list \<times> string list \<times> error, 'w) op" where
  "slavesStep rco rc exist r masters slaves nodeInfos =
     (let ids = nodeIdsContaining masters nodeInfos in
      if length ids \<noteq> length masters then ret ([], [], Some (clusterStatusErr rc))
      else
        bnd (addSlaveToClusterMaster rco slaves masters ids (orNamespace r) (orName r)) (\<lambda>err.
        if err \<noteq> None then ret ([], [], err) else ret (exist, ids, None)))"

definition slavesPost :: "string list \<Rightarrow> string list \<Rightarrow> string list \<Rightarrow> string list \<Rightarrow>
    (string list \<times> string list \<times> error) outcome \<Rightarrow> event list \<Rightarrow> bool" where
  "slavesPost exist masters slaves ids r evs \<longleftrightarrow>
     prefix (clusterCommands evs) (slaveCommands slaves masters ids) \<and>
     (\<forall>x ids'. r = Ret (x, ids', None) \<longrightarrow> x = exist \<and> ids' = ids \<and>
        clusterCommands evs = slaveCommands slaves masters ids \<and>
        length slaves = length masters \<and> length ids = length masters)"

lemma yields_slavesStep:
  "yields (\<lambda>_. True) (slavesStep rco rc exist r masters slaves nodeInfos)
     (slavesPost exist masters slaves (nodeIdsContaining masters nodeInfos))"
proof (cases "length (nodeIdsContaining masters nodeInfos) = length masters")
  case True
  show ?thesis
    unfolding slavesStep_def Let_def
    by (simp only: True not_True_eq_False if_False simp_thms)
      (rule yields_bnd [OF slaves_sendAll, where R = "\<lambda>err r evs. evs = [] \<and> (\<forall>x ids'. r = Ret (x, ids', None) \<longrightarrow>
          err = None \<and> x = exist \<and> ids' = nodeIdsContaining masters nodeInfos)"],
        auto simp: slavesPost_def sendsAll_def True intro!: yields_ret)
next
  case False
  then show ?thesis
    by (auto simp: slavesStep_def slavesPost_def intro!: yields_ret)
qed

definition scalesBy :: "string list \<Rightarrow> Endpoints \<Rightarrow> (string list \<times> string list \<times> error) outcome \<Rightarrow>
    event list \<Rightarrow> bool" where
  "scalesBy exist ep r evs \<longleftrightarrow>
     (noCommands evs \<and> (\<forall>x ids. r \<noteq> Ret (x, ids, None))) \<or>
     (\<exists>nodeInfos masters slaves parents ids.
        nodesRead (hd exist) nodeInfos evs \<and>
        buildWillAddClusterMasterSlaveIPs nodeInfos ep = Ret (masters, slaves, parents, None) \<and>
        prefix (clusterCommands evs) (scalePlan (hd exist) masters slaves ids) \<and>
        (\<forall>x ids'. r = Ret (x, ids', None) \<longrightarrow> x = exist \<and> ids' = ids \<and>
           clusterCommands evs = scalePlan (hd exist) masters slaves ids \<and>
           length slaves = length masters \<and> length ids = length masters \<and>
           (\<exists>nodeInfos'. nodesRead (hd exist) nodeInfos' evs \<and> ids = nodeIdsContaining masters nodeInfos')))"

text \<open>After the first reading: the masters, the second reading and the slaves.\<close>

definition mastersPost :: "string list \<Rightarrow> string list \<Rightarrow> string list \<Rightarrow>
    (string list \<times> string list \<times> error) outcome \<Rightarrow> event list \<Rightarrow> bool" where
  "mastersPost exist masters slaves r evs \<longleftrightarrow>
     (\<exists>ids. prefix (clusterCommands evs) (scalePlan (hd exist) masters slaves ids) \<and>
        (\<forall>x ids'. r = Ret (x, ids', None) \<longrightarrow> x = exist \<and> ids' = ids \<and>
           clusterCommands evs = scalePlan (hd exist) masters slaves ids \<and>
           length slaves = length masters \<and> length ids = length masters \<and>
           (\<exists>nodeInfos'. nodesRead (hd exist) nodeInfos' evs \<and> ids = nodeIdsContaining masters nodeInfos')))"

definition secondPost :: "string list \<Rightarrow> string list \<Rightarrow> string list \<Rightarrow>
    (string list \<times> string list \<times> error) outcome \<Rightarrow> event list \<Rightarrow> bool" where
  "secondPost exist masters slaves r evs \<longleftrightarrow>
     (\<exists>ids. slavesPost exist masters slaves ids r evs \<and>
        (\<forall>x ids'. r = Ret (x, ids', None) \<longrightarrow>
           (\<exists>nodeInfos'. nodesRead (hd exist) nodeInfos' evs \<and> ids = nodeIdsContaining masters nodeInfos')))"

lemma no_commands_prefix: "noCommands evs \<Longrightarrow> prefix (clusterCommands evs) xs"
  by (simp add: noCommands_def)

lemma yields_second:
  "yields (\<lambda>_. True) (bnd (execClusterNodes rco (hd exist) (orNamespace r) (orName r)) (\<lambda>(nodeInfos, err).
     if err \<noteq> None then ret ([], [], err) else slavesStep rco rc exist r masters slaves nodeInfos))
     (secondPost exist masters slaves)"
proof (rule yields_bnd [OF yields_execClusterNodes])
  show "yields (\<lambda>_. True) (case x of (nodeInfos, err) \<Rightarrow> if err \<noteq> None then ret ([], [], err)
      else slavesStep rco rc exist r masters slaves nodeInfos) (\<lambda>r evs. if snd x \<noteq> None
        then evs = [] \<and> r = Ret ([], [], snd x)
        else slavesPost exist masters slaves (nodeIdsContaining masters (fst x)) r evs)" for x
    using yields_slavesStep by (auto split: prod.splits intro!: yields_ret)
next
  fix x r evs evs'
  assume first: "noCommands evs \<and> (\<forall>nodeInfos. Ret x = Ret (nodeInfos, None) \<longrightarrow> nodesRead (hd exist) nodeInfos evs)"
    and rest: "if snd x \<noteq> None then evs' = [] \<and> r = Ret ([], [], snd x)
      else slavesPost exist masters slaves (nodeIdsContaining masters (fst x)) r evs'"
  then show "secondPost exist masters slaves r (evs @ evs')"
    unfolding secondPost_def slavesPost_def
    by (intro exI [of _ "nodeIdsContaining masters (fst x)"], cases x)
      (auto simp: noCommands_def nodesRead_append split: if_splits)
qed (auto simp: secondPost_def slavesPost_def noCommands_def)

definition mastersStep :: "'w RedisClusterOperator \<Rightarrow> RedisCluster \<Rightarrow> string list \<Rightarrow> ObjectReference \<Rightarrow>
    string list \<Rightarrow> string list \<Rightarrow> (string list \<times> string list \<times> error, 'w) op" where
  "mastersStep rco rc exist r masters slaves =
     bnd (addMasterNodeToRedisCluster rco masters (hd exist) (orName r) (orNamespace r)) (\<lambda>err.
     if err \<noteq> None then ret ([], [], err)
     else bnd (execClusterNodes rco (hd exist) (orNamespace r) (orName r)) (\<lambda>(nodeInfos, err).
       if err \<noteq> None then ret ([], [], err) else slavesStep rco rc exist r masters slaves nodeInfos))"

lemma yields_masters:
  "yields (\<lambda>_. True) (mastersStep rco rc exist r masters slaves) (mastersPost exist masters slaves)"
  unfolding mastersStep_def
proof (rule yields_bnd [OF masters_sendAll])
  show "yields (\<lambda>_. True) (if err \<noteq> None then ret ([], [], err)
     else bnd (execClusterNodes rco (hd exist) (orNamespace r) (orName r)) (\<lambda>(nodeInfos, err).
       if err \<noteq> None then ret ([], [], err) else slavesStep rco rc exist r masters slaves nodeInfos))
     (\<lambda>r evs. if err \<noteq> None then evs = [] \<and> r = Ret ([], [], err) else secondPost exist masters slaves r evs)" for err
    using yields_second by (auto intro!: yields_ret)
qed (auto simp: mastersPost_def secondPost_def slavesPost_def sendsAll_def scalePlan_def nodesRead_append
      prefix_append split: if_splits intro: prefix_order.trans)

lemma scaleFrom_eq:
  assumes "exist \<noteq> []"
  shows "scaleFrom rco rc ep exist (Some r) =
     bnd (execClusterNodes rco (hd exist) (orNamespace r) (orName r)) (\<lambda>(nodeInfos, err).
     if err \<noteq> None then ret ([], [], err)
     else bnd (lift (buildWillAddClusterMasterSlaveIPs nodeInfos ep)) (\<lambda>(masters, slaves, _, err).
       if err \<noteq> None then ret ([], [], err) else mastersStep rco rc exist r masters slaves))"
proof -
  obtain a tl where "exist = a # tl" using assms by (cases exist) auto
  then show ?thesis
    by (simp only: scaleFrom_def slavesStep_def mastersStep_def idx_Cons_0 bnd_lift_Ret deref.simps list.sel)
qed

lemma scalesBy_failed: "\<forall>x ids. r \<noteq> Ret (x, ids, None) \<Longrightarrow> noCommands evs \<Longrightarrow> scalesBy exist ep r evs"
  by (simp add: scalesBy_def)

definition plannedPost :: "string list \<Rightarrow> Endpoints \<Rightarrow> redisNodeInfo list \<Rightarrow>
    (string list \<times> string list \<times> error) outcome \<Rightarrow> event list \<Rightarrow> bool" where
  "plannedPost exist ep nodeInfos r evs \<longleftrightarrow> (noCommands evs \<and> (\<forall>x ids. r \<noteq> Ret (x, ids, None))) \<or>
     (\<exists>masters slaves parents. buildWillAddClusterMasterSlaveIPs nodeInfos ep = Ret (masters, slaves, parents, None) \<and>
        mastersPost exist masters slaves r evs)"

lemma yields_planned:
  "yields (\<lambda>_. True) (bnd (lift (buildWillAddClusterMasterSlaveIPs nodeInfos ep)) (\<lambda>(masters, slaves, _, err).
     if err \<noteq> None then ret ([], [], err) else mastersStep rco rc exist r masters slaves))
     (plannedPost exist ep nodeInfos)"
proof (rule yields_bnd_lift)
  fix x assume x: "buildWillAddClusterMasterSlaveIPs nodeInfos ep = Ret x"
  obtain masters slaves parents err where "x = (masters, slaves, parents, err)" by (cases x)
  with x show "yields (\<lambda>_. True) (case x of (masters, slaves, _, err) \<Rightarrow>
      if err \<noteq> None then ret ([], [], err) else mastersStep rco rc exist r masters slaves)
      (plannedPost exist ep nodeInfos)"
    by (cases err) (auto simp: plannedPost_def noCommands_def intro!: yields_ret yields_mono [OF yields_masters])
qed (simp_all add: noCommands_def plannedPost_def)

lemma yields_scaleFrom:
  assumes "exist \<noteq> []"
  shows "yields (\<lambda>_. True) (scaleFrom rco rc ep exist reference) (scalesBy exist ep)"
proof (cases reference)
  case None
  then show ?thesis
    using assms by (cases exist) (auto simp: scaleFrom_def noCommands_def intro!: yields_lift scalesBy_failed)
next
  case (Some r)
  show ?thesis
    unfolding Some scaleFrom_eq [OF assms]
  proof (rule yields_bnd [OF yields_execClusterNodes])
    show "yields (\<lambda>_. True) (case x of (nodeInfos, err) \<Rightarrow> if err \<noteq> None then ret ([], [], err)
        else bnd (lift (buildWillAddClusterMasterSlaveIPs nodeInfos ep)) (\<lambda>(masters, slaves, _, err).
          if err \<noteq> None then ret ([], [], err) else mastersStep rco rc exist r masters slaves))
      (\<lambda>r' evs. if snd x \<noteq> None then evs = [] \<and> r' = Ret ([], [], snd x) else plannedPost exist ep (fst x) r' evs)" for x
      using yields_planned by (auto split: prod.splits intro!: yields_ret)
  next
    fix x r' evs evs'
    assume "noCommands evs \<and> (\<forall>nodeInfos. Ret x = Ret (nodeInfos, None) \<longrightarrow> nodesRead (hd exist) nodeInfos evs)"
      and "if snd x \<noteq> None then evs' = [] \<and> r' = Ret ([], [], snd x) else plannedPost exist ep (fst x) r' evs'"
    then show "scalesBy exist ep r' (evs @ evs')"
      unfolding scalesBy_def plannedPost_def mastersPost_def
      by (cases x) (simp add: noCommands_def nodesRead_append split: if_splits; blast)
  qed (simp_all add: scalesBy_def noCommands_def)
qed

lemma fst_bnd_load: "bnd (load p) f s = f (syHeap s p) s"
  by (simp add: bnd_def load_def)

lemma yields_scaleRedisCluster:
  "yields (\<lambda>_. True) (scaleRedisCluster rco p ep old) (scalesBy (map eaIP (hd (subsetsOf old))) ep)"
proof -
  have from_first: "yields (\<lambda>_. True) (scaleFrom rco rc ep exist reference)
      (scalesBy (map eaIP (hd (subsetsOf old))) ep)"
    if "currentRedisClusterInfo rc ep old = Ret (exist, None)" for rc exist reference
    using that
    by (cases "subsetsOf old"; cases "subsetsOf ep")
      (auto simp: currentRedisClusterInfo_def split: if_splits intro!: yields_scaleFrom)
  show ?thesis
    unfolding scaleRedisCluster_def
    by (rule yields_bnd [where Q = "\<lambda>_ evs. evs = []" and R = "\<lambda>_. scalesBy (map eaIP (hd (subsetsOf old))) ep"])
      (auto simp: noCommands_def intro!: yields_load yields_ret yields_bnd_lift scalesBy_failed from_first)
qed

text \<open>
  C7: growing a cluster follows a plan computed from what was read. The commands that
  \<open>scaleRedisCluster\<close> sends are none, with an error or a panic, or an initial part of: add-node for
  each new master through the first old instance, then add-node --slave for each new slave, with
  the new masters and slaves that \<open>buildWillAddClusterMasterSlaveIPs\<close> computed from a node table
  read from that instance. On success the whole plan was sent, there are as many slaves as masters,
  and their ids are those that a second table shows at addresses containing the masters' IPs.
\<close>

theorem scaleRedisCluster_plan:
  "\<exists>evs. syTrace (snd (scaleRedisCluster rco p ep old s)) = syTrace s @ evs \<and>
     scalesBy (map eaIP (hd (subsetsOf old))) ep (fst (scaleRedisCluster rco p ep old s)) evs"
  by (rule yields_explicit [OF yields_scaleRedisCluster])

section \<open>Creating a cluster\<close>

definition creationPlan :: "string list \<Rightarrow> string list \<Rightarrow> string list \<Rightarrow> string list list" where
  "creationPlan masters slaves ids = createCmd masters # slaveCommands slaves masters ids"

definition initPost :: "string list \<Rightarrow> string list \<Rightarrow> error outcome \<Rightarrow> event list \<Rightarrow> bool" where
  "initPost masters slaves r evs \<longleftrightarrow> (\<exists>ids. prefix (clusterCommands evs) (creationPlan masters slaves ids) \<and>
     (r = Ret None \<longrightarrow> clusterCommands evs = creationPlan masters slaves ids \<and>
        length slaves = length masters \<and> length ids = length masters \<and>
        (\<exists>nodeInfos. nodesRead (hd masters) nodeInfos evs \<and> ids = nodeIdsAt masters nodeInfos)))"

definition failsSilently :: "error outcome \<Rightarrow> event list \<Rightarrow> bool" where
  "failsSilently r evs \<longleftrightarrow> noCommands evs \<and> r \<noteq> Ret None"

lemma yields_recordFailure:
  assumes "emits noCommands (updateRedisClusterStatus rco p ep phase (fmtError err))"
  shows "yields (\<lambda>_. True) (recordFailure rco p ep phase x err) (\<lambda>r evs. noCommands evs \<and> (\<forall>y. r = Ret y \<longrightarrow> y = x))"
  unfolding recordFailure_def
  by (rule yields_bnd [OF assms [unfolded emits_def], where R = "\<lambda>_ r evs. evs = [] \<and> r = Ret x"])
    (auto intro!: yields_ret)

lemma yields_failed:
  "err \<noteq> None \<Longrightarrow> yields (\<lambda>_. True) (recordFailure rco p ep RedisClusterFailed err err) failsSilently"
  "err \<noteq> None \<Longrightarrow> yields (\<lambda>_. True) (recordFailure rco p ep RedisClusterRunning err err) failsSilently"
  by (rule yields_mono [OF yields_recordFailure], rule silent.emits_updates, auto simp: failsSilently_def)+

lemma createCluster_sendsAll:
  "yields (\<lambda>_. True) (createCluster rco masters reference) (sendsAll [createCmd masters])"
proof -
  have "yields (\<lambda>_. True) (bnd (ExecToPodThroughAPI rco (createCmd masters) redisContainerName pod ns)
      (\<lambda>(out, errOut, err). if err \<noteq> None \<or> errOut \<noteq> [] then ret (Some (f out errOut err)) else ret None))
      (sendsAll [createCmd masters])" for pod ns f
    by (rule yields_bnd [OF yields_exec [OF aboutHeap_True], where R = "\<lambda>x r evs. evs = [] \<and>
          (r = Ret None \<longrightarrow> snd (snd x) = None)"])
      (auto simp: sendsAll_def execPost_def clusterCommands_def exec_classes split: prod.splits intro!: yields_ret)
  then show ?thesis
    unfolding createCluster_def by (intro yields_bnd_lift) (simp_all add: sendsAll_def)
qed

text \<open>A step with commands, whose failure only notes the failure.\<close>

lemma yields_chain:
  assumes "yields (\<lambda>_. True) m (\<lambda>r evs. sendsAll xs r evs \<and> (r = Ret None \<longrightarrow> L))"
    and "\<And>err. err \<noteq> None \<Longrightarrow> yields (\<lambda>_. True) (f err) failsSilently"
    and "yields (\<lambda>_. True) (f None) Q"
    and "\<And>r evs evs'. L \<Longrightarrow> clusterCommands evs = xs \<Longrightarrow> Q r evs' \<Longrightarrow> T r (evs @ evs')"
    and "\<And>r evs. r \<noteq> Ret None \<Longrightarrow> prefix (clusterCommands evs) xs \<Longrightarrow> T r evs"
  shows "yields (\<lambda>_. True) (bnd m f) T"
proof (rule yields_bnd [OF assms(1)])
  show "yields (\<lambda>_. True) (f err) (\<lambda>r evs. if err = None then Q r evs else failsSilently r evs)" for err
    using assms(2,3) by (cases err) simp_all
next
  fix err r evs evs'
  assume "sendsAll xs (Ret err) evs \<and> (Ret err = Ret None \<longrightarrow> L)"
    and "if err = None then Q r evs' else failsSilently r evs'"
  then show "T r (evs @ evs')"
    using assms(4) assms(5) [of r "evs @ evs'"]
    by (cases err) (auto simp: sendsAll_def failsSilently_def noCommands_def)
qed (use assms(5) in \<open>simp_all add: sendsAll_def\<close>)

definition initLast :: "'w RedisClusterOperator \<Rightarrow> rcPtr \<Rightarrow> Endpoints \<Rightarrow> string \<Rightarrow> ObjectReference \<Rightarrow>
    (error, 'w) op" where
  "initLast rco p ep firstMaster r =
     bnd (load p) (\<lambda>rc.
     bnd (execClusterNodes rco firstMaster (rcNamespace rc) (orName r)) (\<lambda>(_, err).
     if err \<noteq> None then recordFailure rco p (Some ep) RedisClusterFailed err err
     else bnd (updateRedisClusterStatus rco p (Some ep) RedisClusterRunning []) (\<lambda>_. ret None)))"

definition initSlaves :: "'w RedisClusterOperator \<Rightarrow> rcPtr \<Rightarrow> Endpoints \<Rightarrow> string list \<Rightarrow> string list \<Rightarrow>
    ObjectReference \<Rightarrow> redisNodeInfo list \<Rightarrow> (error, 'w) op" where
  "initSlaves rco p ep masters slaves r nodeInfos =
     bnd (load p) (\<lambda>rc.
     if length nodeInfos \<noteq> length slaves
     then recordFailure rco p (Some ep) RedisClusterFailed (Some (clusterStatusErr rc)) (Some (clusterStatusErr rc))
     else
       bnd (addSlaveToClusterMaster rco slaves masters (nodeIdsAt masters nodeInfos) (orNamespace r) (orName r)) (\<lambda>err.
       if err \<noteq> None then recordFailure rco p (Some ep) RedisClusterFailed err err
       else initLast rco p ep (hd masters) r))"

definition initNodes :: "'w RedisClusterOperator \<Rightarrow> rcPtr \<Rightarrow> Endpoints \<Rightarrow> string list \<Rightarrow> string list \<Rightarrow>
    ObjectReference \<Rightarrow> (error, 'w) op" where
  "initNodes rco p ep masters slaves r =
     bnd (execClusterNodes rco (hd masters) (orNamespace r) (orName r)) (\<lambda>(nodeInfos, err).
     if err \<noteq> None then recordFailure rco p (Some ep) RedisClusterFailed err err
     else initSlaves rco p ep masters slaves r nodeInfos)"

lemma initMasterSlaves_eq:
  "initMasterSlaves rco p ep masters slaves =
     bnd (lift (idx (subsetsOf ep) 0)) (\<lambda>addresses.
     bnd (lift (idx addresses 0)) (\<lambda>first.
     bnd (createCluster rco masters (eaTargetRef first)) (\<lambda>err.
     if err \<noteq> None then recordFailure rco p (Some ep) RedisClusterFailed err err
     else bnd (lift (deref (eaTargetRef first))) (\<lambda>r.
       if masters = [] then lift Panic else initNodes rco p ep masters slaves r))))"
proof (cases masters)
  case Nil
  show ?thesis by (simp only: initMasterSlaves_def Nil idx_Nil bnd_lift_Panic Let_def simp_thms if_True)
next
  case (Cons a tl)
  then show ?thesis
    by (simp only: initMasterSlaves_def initNodes_def initSlaves_def initLast_def idx_Cons_0 bnd_lift_Ret
        list.sel list.distinct if_False Let_def)
qed

lemma emits_initLast: "emits noCommands (initLast rco p ep m r)"
  unfolding initLast_def by (intro emits_intros)

definition initSlavesPost :: "string list \<Rightarrow> string list \<Rightarrow> string list \<Rightarrow> error outcome \<Rightarrow> event list \<Rightarrow> bool" where
  "initSlavesPost masters slaves ids r evs \<longleftrightarrow> prefix (clusterCommands evs) (slaveCommands slaves masters ids) \<and>
     (r = Ret None \<longrightarrow> clusterCommands evs = slaveCommands slaves masters ids \<and>
        length slaves = length masters \<and> length ids = length masters)"

lemma failsSilently_initSlavesPost: "failsSilently r evs \<Longrightarrow> initSlavesPost masters slaves ids r evs"
  by (simp add: failsSilently_def initSlavesPost_def noCommands_def)

lemma yields_initSlaves:
  "yields (\<lambda>_. True) (initSlaves rco p ep masters slaves r nodeInfos)
     (initSlavesPost masters slaves (nodeIdsAt masters nodeInfos))"
proof -
  let ?ids = "nodeIdsAt masters nodeInfos"
  have add: "yields (\<lambda>_. True)
      (bnd (addSlaveToClusterMaster rco slaves masters ?ids (orNamespace r) (orName r)) (\<lambda>err.
       if err \<noteq> None then recordFailure rco p (Some ep) RedisClusterFailed err err
       else initLast rco p ep (hd masters) r)) (initSlavesPost masters slaves ?ids)"
    by (rule yields_chain [OF slaves_sendAll, where Q = "\<lambda>_. noCommands"])
      (auto simp: initSlavesPost_def emits_initLast [unfolded emits_def] intro!: yields_failed,
        simp_all add: noCommands_def)
  show ?thesis
    unfolding initSlaves_def
    by (rule yields_bnd [where Q = "\<lambda>_ evs. evs = []" and R = "\<lambda>_. initSlavesPost masters slaves ?ids"])
      (use add in \<open>auto simp: initSlavesPost_def intro!: yields_load
          intro: yields_mono [OF yields_failed(1) failsSilently_initSlavesPost]\<close>)
qed

definition initNodesPost :: "string list \<Rightarrow> string list \<Rightarrow> error outcome \<Rightarrow> event list \<Rightarrow> bool" where
  "initNodesPost masters slaves r evs \<longleftrightarrow> (\<exists>ids. initSlavesPost masters slaves ids r evs \<and>
     (r = Ret None \<longrightarrow> (\<exists>nodeInfos. nodesRead (hd masters) nodeInfos evs \<and> ids = nodeIdsAt masters nodeInfos)))"

lemma yields_initNodes:
  "yields (\<lambda>_. True) (initNodes rco p ep masters slaves r) (initNodesPost masters slaves)"
  unfolding initNodes_def
proof (rule yields_bnd [OF yields_execClusterNodes])
  show "yields (\<lambda>_. True) (case x of (nodeInfos, err) \<Rightarrow>
      if err \<noteq> None then recordFailure rco p (Some ep) RedisClusterFailed err err
      else initSlaves rco p ep masters slaves r nodeInfos)
      (\<lambda>r evs. if snd x \<noteq> None then failsSilently r evs
        else initSlavesPost masters slaves (nodeIdsAt masters (fst x)) r evs)" for x
    by (auto split: prod.splits intro!: yields_failed yields_initSlaves)
next
  fix x r evs evs'
  assume "noCommands evs \<and> (\<forall>nodeInfos. Ret x = Ret (nodeInfos, None) \<longrightarrow> nodesRead (hd masters) nodeInfos evs)"
    and "if snd x \<noteq> None then failsSilently r evs'
      else initSlavesPost masters slaves (nodeIdsAt masters (fst x)) r evs'"
  then show "initNodesPost masters slaves r (evs @ evs')"
    unfolding initNodesPost_def
    by (intro exI [of _ "nodeIdsAt masters (fst x)"], cases x)
      (auto simp: noCommands_def nodesRead_append initSlavesPost_def failsSilently_def split: if_splits)
qed (auto simp: initNodesPost_def initSlavesPost_def noCommands_def)

lemma yields_initMasterSlaves:
  "yields (\<lambda>_. True) (initMasterSlaves rco p ep masters slaves) (initPost masters slaves)"
proof -
  have rest: "yields (\<lambda>_. True) (bnd (lift (deref reference)) (\<lambda>r.
      if masters = [] then lift Panic else initNodes rco p ep masters slaves r)) (initNodesPost masters slaves)"
    for reference
    by (intro yields_bnd_lift)
      (auto simp: initNodesPost_def initSlavesPost_def intro!: yields_initNodes yields_lift)
  have "yields (\<lambda>_. True) (bnd (createCluster rco masters reference) (\<lambda>err.
      if err \<noteq> None then recordFailure rco p (Some ep) RedisClusterFailed err err
      else bnd (lift (deref reference)) (\<lambda>r.
        if masters = [] then lift Panic else initNodes rco p ep masters slaves r))) (initPost masters slaves)"
    for reference
  proof (rule yields_chain [where L = True and xs = "[createCmd masters]" and Q = "initNodesPost masters slaves"])
    show "yields (\<lambda>_. True) (createCluster rco masters reference)
        (\<lambda>r evs. sendsAll [createCmd masters] r evs \<and> (r = Ret None \<longrightarrow> True))"
      using createCluster_sendsAll by simp
  next
    show "initPost masters slaves r evs" if "r \<noteq> Ret None" "prefix (clusterCommands evs) [createCmd masters]" for r evs
      using that unfolding initPost_def creationPlan_def by (auto simp: prefix_Cons)
  qed (use rest in \<open>auto simp: yields_failed initPost_def initNodesPost_def initSlavesPost_def creationPlan_def
      nodesRead_append\<close>)
  then show ?thesis
    unfolding initMasterSlaves_eq by (intro yields_bnd_lift) (simp_all add: initPost_def)
qed

definition createsBy :: "RedisCluster \<Rightarrow> error outcome \<Rightarrow> event list \<Rightarrow> bool" where
  "createsBy rc r evs \<longleftrightarrow> failsSilently r evs \<or>
     (\<exists>ep addresses masters slaves. podsReady rc (Some ep) \<and>
        addresses = sort_key podName (hd (subsetsOf ep)) \<and>
        assignMasterSlaveIP addresses = Ret (masters, slaves, None) \<and> initPost masters slaves r evs)"

lemma yields_first:
  assumes "yields I m Q" and "\<And>x evs. Q (Ret x) evs \<Longrightarrow> yields (\<lambda>_. True) (f x) (R x)" and "I s"
    and "\<And>x r evs evs'. Q (Ret x) evs \<Longrightarrow> R x r evs' \<Longrightarrow> T r (evs @ evs')"
    and "\<And>evs. Q Panic evs \<Longrightarrow> T Panic evs" and "\<And>evs. Q Diverge evs \<Longrightarrow> T Diverge evs"
  shows "\<exists>evs. syTrace (snd (bnd m f s)) = syTrace s @ evs \<and> T (fst (bnd m f s)) evs"
proof -
  obtain r s' where m: "m s = (r, s')" by (cases "m s")
  obtain evs where evs: "syTrace s' = syTrace s @ evs" "Q r evs"
    using yieldsE [OF assms(1,3) m] .
  show ?thesis
  proof (cases r)
    case (Ret x)
    obtain r' s'' where f: "f x s' = (r', s'')" by (cases "f x s'")
    obtain evs' where "syTrace s'' = syTrace s' @ evs'" "R x r' evs'"
      using yieldsE [OF assms(2) TrueI f] evs(2) Ret by blast
    then show ?thesis
      using Ret m f evs assms(4) by (intro exI [of _ "evs @ evs'"]) (simp add: bnd_def)
  qed (use m evs assms(5,6) in \<open>auto simp: bnd_def\<close>)
qed

lemma sortAddresses_key: "sortAddresses as = Ret bs \<Longrightarrow> bs = sort_key podName as"
proof -
  have "length as \<le> 1 \<Longrightarrow> sort_key podName as = as"
    by (cases as) auto
  then show "sortAddresses as = Ret bs \<Longrightarrow> bs = sort_key podName as"
    by (auto simp: sortAddresses_def split: if_splits)
qed

lemma sort_one:
  assumes "sortEndpointsByPodName [Some ep] = Ret out" and "subsetsOf ep = as # others"
  obtains ep' where "out ! 0 = Some ep'" and "subsetsOf ep' = sort_key podName as # others"
proof -
  obtain bs where "sortAddresses as = Ret bs" "out = [Some (ep\<lparr>epSubsets := Some (bs # others)\<rparr>)]"
    using assms by (cases "sortAddresses as") auto
  then show ?thesis
    using that sortAddresses_key by (simp add: subsetsOf_def)
qed

definition assignedPost :: "EndpointAddress list \<Rightarrow> error outcome \<Rightarrow> event list \<Rightarrow> bool" where
  "assignedPost addresses r evs \<longleftrightarrow> failsSilently r evs \<or>
     (\<exists>masters slaves. assignMasterSlaveIP addresses = Ret (masters, slaves, None) \<and> initPost masters slaves r evs)"

lemma yields_initFromEndpoints:
  assumes "subsetsOf ep = as # others" and "as \<noteq> []"
  shows "yields (\<lambda>_. True) (initFromEndpoints rco p ep) (assignedPost as)"
proof -
  have "yields (\<lambda>_. True) (bnd (lift (assignMasterSlaveIP as)) (\<lambda>(masters, slaves, err).
      if err \<noteq> None then recordFailure rco p (Some ep) RedisClusterFailed err err
      else initMasterSlaves rco p ep masters slaves)) (assignedPost as)"
  proof (rule yields_bnd_lift)
    fix x assume x: "assignMasterSlaveIP as = Ret x"
    obtain masters slaves err where "x = (masters, slaves, err)" by (cases x)
    with x show "yields (\<lambda>_. True) (case x of (masters, slaves, err) \<Rightarrow>
        if err \<noteq> None then recordFailure rco p (Some ep) RedisClusterFailed err err
        else initMasterSlaves rco p ep masters slaves) (assignedPost as)"
      by (cases "err = None") (auto simp: assignedPost_def intro: yields_mono [OF yields_failed(1)]
          yields_mono [OF yields_initMasterSlaves])
  qed (simp_all add: assignedPost_def failsSilently_def noCommands_def)
  then show ?thesis
    unfolding initFromEndpoints_def Let_def
    using assms by (simp add: assignMasterSlaveIPAddress_def)
qed

lemma yields_createFrom:
  assumes "podsReady rc (Some ep)"
  shows "yields (\<lambda>_. True) (createFromEndpoints rco p rc' ep) (createsBy rc)"
proof -
  have silent: "failsSilently r evs \<Longrightarrow> createsBy rc r evs" for r evs
    by (simp add: createsBy_def)
  have none: "failsSilently Panic []" "failsSilently Diverge []" "failsSilently (Ret (Some e)) []" for e
    by (simp_all add: failsSilently_def noCommands_def)
  have assigned: "assignedPost (sort_key podName (hd (subsetsOf ep))) r evs \<Longrightarrow> createsBy rc r evs" for r evs
    using assms unfolding assignedPost_def createsBy_def by blast
  have "yields (\<lambda>_. True) (initFromEndpoints rco p ep') (createsBy rc)"
    if out: "sortEndpointsByPodName [Some ep] = Ret out" and ss: "subsetsOf ep = as # others" and as: "as \<noteq> []"
      and ep': "deref (out ! 0) = Ret ep'" for out as others ep'
  proof -
    obtain e where e: "out ! 0 = Some e" "subsetsOf e = sort_key podName as # others"
      using sort_one [OF out ss] .
    then have sub: "subsetsOf ep' = sort_key podName as # others"
      using ep' by simp
    have "sort_key podName as \<noteq> []"
      using as by (metis length_0_conv length_sort)
    then show ?thesis
      by (rule yields_mono [OF yields_initFromEndpoints [OF sub]]) (rule assigned, simp add: ss)
  qed
  then show ?thesis
    unfolding createFromEndpoints_def
    by (cases "subsetsOf ep") (auto intro!: silent none yields_ret yields_bnd_lift
        simp del: sortEndpointsByPodName.simps)
qed

lemma initPost_after: "noCommands evs \<Longrightarrow> initPost masters slaves r evs' \<Longrightarrow> initPost masters slaves r (evs @ evs')"
  unfolding initPost_def by (auto simp: noCommands_def nodesRead_append)

lemma createsBy_after: "noCommands evs \<Longrightarrow> createsBy rc r evs' \<Longrightarrow> createsBy rc r (evs @ evs')"
  unfolding createsBy_def by (auto simp: failsSilently_def noCommands_def intro: initPost_after [unfolded noCommands_def])

lemma createAndInit_run:
  "\<exists>evs. syTrace (snd (createAndInitRedisCluster rco p s)) = syTrace s @ evs \<and>
     createsBy (syHeap s p) (fst (createAndInitRedisCluster rco p s)) evs"
proof -
  let ?rc = "syHeap s p"
  have rest: "yields (\<lambda>_. True) (bnd (load p) (\<lambda>rc. case endpoints of None \<Rightarrow> ret (Some (subsetsNilErr rc))
       | Some ep \<Rightarrow> createFromEndpoints rco p rc ep)) (createsBy ?rc)" if "podsReady ?rc endpoints" for endpoints
    by (rule yields_bnd [where Q = "\<lambda>_ evs. evs = []" and R = "\<lambda>_. createsBy ?rc"])
      (use that in \<open>auto simp: createsBy_def failsSilently_def noCommands_def
          intro!: yields_load yields_ret yields_createFrom split: option.splits\<close>)
  have checked: "yields (\<lambda>s. syHeap s p = ?rc) (checkPodInstanceIsReadyByEndpoint rco p) (\<lambda>r evs.
      (case r of Ret (ep, None) \<Rightarrow> podsReady ?rc ep | Ret (ep, Some e) \<Rightarrow> ep = Some emptyEndpoints | _ \<Rightarrow> True) \<and>
      noCommands evs)"
    by (rule yields_conj [OF yields_checkPods yields_frame [OF quiet_checkPods silent.emits_checkPods [unfolded emits_def]]])
      simp
  show ?thesis
    unfolding createAndInitRedisCluster_def
  proof (rule yields_first [OF checked, where R = "\<lambda>_. createsBy ?rc"])
    fix x :: "Endpoints option \<times> error" and evs :: "event list"
    assume "(case Ret x of Ret (ep, None) \<Rightarrow> podsReady ?rc ep | Ret (ep, Some e) \<Rightarrow> ep = Some emptyEndpoints | _ \<Rightarrow> True) \<and>
        noCommands evs"
    then show "yields (\<lambda>_. True) (case x of (endpoints, err) \<Rightarrow>
        if err \<noteq> None then recordFailure rco p endpoints RedisClusterFailed err err
        else bnd (load p) (\<lambda>rc. case endpoints of None \<Rightarrow> ret (Some (subsetsNilErr rc))
          | Some ep \<Rightarrow> createFromEndpoints rco p rc ep)) (createsBy ?rc)"
      using rest by (cases x) (auto simp: createsBy_def split: option.splits
          intro: yields_mono [OF yields_failed(1)])
  next
    fix x r evs evs'
    assume "(case Ret x of Ret (ep, None) \<Rightarrow> podsReady ?rc ep | Ret (ep, Some e) \<Rightarrow> ep = Some emptyEndpoints | _ \<Rightarrow> True) \<and>
        noCommands evs" and "createsBy ?rc r evs'"
    then show "createsBy ?rc r (evs @ evs')"
      by (intro createsBy_after) auto
  qed (auto simp: createsBy_def failsSilently_def)
qed

text \<open>
  C6: creating a cluster follows the assignment of roles. The commands that
  \<open>createAndInitRedisCluster\<close> sends are none, without success, or an initial part of: the creation with
  the masters, then add-node --slave for each slave to its master, where masters and slaves are what
  \<open>assignMasterSlaveIP\<close> assigns to the addresses, sorted by pod name, of endpoints as numerous as the
  replicas the resource asks for. On success the whole plan was sent, with a slave for every master
  and the masters' node ids as a table read from the first master shows them.
\<close>

theorem createAndInitRedisCluster_plan:
  "\<exists>evs. syTrace (snd (createAndInitRedisCluster rco p s)) = syTrace s @ evs \<and>
     createsBy (syHeap s p) (fst (createAndInitRedisCluster rco p s)) evs"
  by (rule createAndInit_run)

end
