(* ===== verification/Repair.thy ===== *)
theory Repair
  imports Lifecycle
begin

text \<open>
  Looking after an existing cluster: \<^verbatim>\<open>checkAndUpdateRedisClusterStatus\<close> of
  \<^verbatim>\<open>check_rediscluster.go\<close>. With as many conditions as replicas the state of the cluster is
  noted; otherwise the interrupted creation, scaling or upgrade is taken up again.
\<close>

section \<open>The model\<close>

text \<open>The first test dereferences the replica count only in one of the three phases.\<close>

definition isSettled :: "RedisCluster \<Rightarrow> bool outcome" where
  "isSettled rc =
     (if stPhase (rcStatus rc) = RedisClusterRunning \<or> stPhase (rcStatus rc) = RedisClusterUpgrading \<or>
         stPhase (rcStatus rc) = RedisClusterCreating
      then obnd (deref (spReplicas (rcSpec rc))) (\<lambda>replicas.
             Ret (lenInt32 (stConditions (rcStatus rc)) = replicas))
      else Ret False)"

definition abnormalReasonOf :: "RedisCluster \<Rightarrow> string" where
  "abnormalReasonOf rc = (if stReason (rcStatus rc) \<noteq> [] then stReason (rcStatus rc) else clusterStateFailed)"

definition noteClusterState :: "'w RedisClusterOperator \<Rightarrow> rcPtr \<Rightarrow> RedisCluster \<Rightarrow> Endpoints \<Rightarrow>
    (error, 'w) op" where
  "noteClusterState rco p rc endpoints =
     bnd (lift (idx (subsetsOf endpoints) 0)) (\<lambda>addresses.
     bnd (lift (idx addresses 0)) (\<lambda>first.
     bnd (lift (deref (eaTargetRef first))) (\<lambda>r.
     bnd (execClusterInfo rco (eaIP first) (orName r) (orNamespace r)) (\<lambda>(clusterStatusIsOK, _, err).
     if err \<noteq> None then recordFailure rco p (Some endpoints) RedisClusterFailed err err
     else if \<not> clusterStatusIsOK
     then bnd (updateRedisClusterStatus rco p (Some endpoints) RedisClusterFailed (abnormalReasonOf rc)) (\<lambda>_. ret None)
     else bnd (updateRedisClusterStatus rco p (Some endpoints) RedisClusterRunning []) (\<lambda>(_, err). ret err)))))"

definition checkSettled :: "'w RedisClusterOperator \<Rightarrow> rcPtr \<Rightarrow> (error, 'w) op" where
  "checkSettled rco p =
     bnd (load p) (\<lambda>rc.
     bnd (endpointsGet rco (rcNamespace rc) (rcName rc)) (\<lambda>(endpoints, err).
     if err \<noteq> None then ret (Some (Err (''get redis cluster endpoint is error: '' @ fmtError err)))
     else if subsetsOf endpoints = [] \<or> hd (subsetsOf endpoints) = []
     then ret (Some (Err (''redis cluster endpoint: '' @ epNamespace endpoints @ ''/'' @ epName endpoints @
            '' is blank'')))
     else
       bnd (lift (sortEndpointsByPodName [Some endpoints])) (\<lambda>sorted.
       bnd (lift (deref (sorted ! 0))) (noteClusterState rco p rc))))"

definition repairPhase :: "RedisClusterStatus \<Rightarrow> RedisClusterPhase" where
  "repairPhase st =
     (if stPhase st = RedisClusterFailed
      then (if stConditions st = [] then RedisClusterCreating else RedisClusterUpgrading)
      else stPhase st)"

text \<open>
  The instances outside the cluster join it. The error of the assignment is overwritten by the
  next call; every failure is recorded under the given phase.
\<close>

definition joinInstances :: "'w RedisClusterOperator \<Rightarrow> rcPtr \<Rightarrow> Endpoints \<Rightarrow> RedisClusterPhase \<Rightarrow> string \<Rightarrow>
    ObjectReference \<Rightarrow> ObjectReference option \<Rightarrow> (error, 'w) op" where
  "joinInstances rco p endpoints phase existInstanceIp clusteredRef reference =
     (let fail = recordFailure rco p (Some endpoints) phase in
      bnd (execClusterNodes rco existInstanceIp (orNamespace clusteredRef) (orName clusteredRef)) (\<lambda>(nodeInfos, err).
      if err \<noteq> None then fail err err
      else
        bnd (lift (buildWillAddClusterMasterSlaveIPs nodeInfos endpoints)) (\<lambda>(masterIps, slaveIps, slaveParentIps, _).
        bnd (lift (deref reference)) (\<lambda>r.
        bnd (if masterIps \<noteq> []
             then addMasterNodeToRedisCluster rco masterIps existInstanceIp (orName r) (orNamespace r)
             else ret None) (\<lambda>err.
        if err \<noteq> None then fail err err
        else
          bnd (execClusterNodes rco existInstanceIp (orNamespace r) (orName r)) (\<lambda>(nodeInfos, err).
          if err \<noteq> None then fail err err
          else
            bnd (if slaveIps \<noteq> []
                 then addSlaveToClusterMaster rco slaveIps slaveParentIps (nodeIdsAt slaveParentIps nodeInfos)
                        (orNamespace r) (orName r)
                 else ret None) (\<lambda>err.
            if err \<noteq> None then fail err err else ret None)))))))"

definition recordRunning :: "'w RedisClusterOperator \<Rightarrow> rcPtr \<Rightarrow> Endpoints \<Rightarrow> (error, 'w) op" where
  "recordRunning rco p endpoints =
     bnd (updateRedisClusterStatus rco p (Some endpoints) RedisClusterRunning []) (\<lambda>(_, err). ret err)"

text \<open>The beginning that the repairs share: look at every instance, and create anew if none is clustered.\<close>

definition repairWith :: "'w RedisClusterOperator \<Rightarrow> rcPtr \<Rightarrow> Endpoints \<Rightarrow> EndpointAddress list \<Rightarrow>
    (EndpointAddress \<Rightarrow> EndpointAddress list \<Rightarrow> (error, 'w) op) \<Rightarrow> (error, 'w) op" where
  "repairWith rco p endpoints addresses cont =
     bnd (getIsClusteredAndOnlyKnownSelfAddress rco addresses) (\<lambda>(clustered, onlyKnownSelf, err).
     if err \<noteq> None
     then bnd (updateRedisClusterStatus rco p (Some endpoints) RedisClusterFailed clusterStateFailed) (\<lambda>_. ret err)
     else
       bnd (load p) (\<lambda>rc.
       bnd (lift (deref (spReplicas (rcSpec rc)))) (\<lambda>replicas.
       if lenInt32 onlyKnownSelf = replicas \<or> clustered = [] then createAndInitRedisCluster rco p
       else cont (hd clustered) onlyKnownSelf)))"

definition repairCreating :: "'w RedisClusterOperator \<Rightarrow> rcPtr \<Rightarrow> Endpoints \<Rightarrow> EndpointAddress list \<Rightarrow>
    (error, 'w) op" where
  "repairCreating rco p endpoints addresses =
     repairWith rco p endpoints addresses (\<lambda>clustered onlyKnownSelf.
     bnd (lift (deref (eaTargetRef clustered))) (\<lambda>cr.
     bnd (lift (idx addresses 0)) (\<lambda>first.
     bnd (joinInstances rco p endpoints RedisClusterFailed (eaIP clustered) cr (eaTargetRef first)) (\<lambda>err.
     if err \<noteq> None then ret err
     else
       bnd (lift (deref (eaTargetRef first))) (\<lambda>r.
       bnd (rebalanceRedisClusterSlotsToMasterNode rco (eaIP clustered) (orName r) (orNamespace r) []) (\<lambda>err.
       if err \<noteq> None then recordFailure rco p (Some endpoints) RedisClusterFailed err err
       else recordRunning rco p endpoints))))))"

text \<open>The endpoints as they are taken to have been before the scaling: the first addresses.\<close>

definition oldEndpointsOf :: "RedisCluster \<Rightarrow> Endpoints \<Rightarrow> EndpointAddress list \<Rightarrow> Endpoints outcome" where
  "oldEndpointsOf rc endpoints addresses =
     obnd (sliceTo addresses (int (length addresses) - int (length (stConditions (rcStatus rc))))) (\<lambda>old.
     Ret (endpoints\<lparr>epSubsets := Some (old # tl (subsetsOf endpoints))\<rparr>))"

definition repairScaling :: "'w RedisClusterOperator \<Rightarrow> rcPtr \<Rightarrow> Endpoints \<Rightarrow> EndpointAddress list \<Rightarrow>
    (error, 'w) op" where
  "repairScaling rco p endpoints addresses =
     repairWith rco p endpoints addresses (\<lambda>clustered onlyKnownSelf.
     bnd (load p) (\<lambda>rc.
     bnd (lift (oldEndpointsOf rc endpoints addresses)) (upgradeRedisCluster rco p)))"

text \<open>The slots of the upgraded cluster; the loop over the node table has no break.\<close>

definition nodeIdsAllAt :: "string list \<Rightarrow> redisNodeInfo list \<Rightarrow> string list" where
  "nodeIdsAllAt ips nodeInfos =
     concat (map (\<lambda>ip. map niNodeId (filter (\<lambda>info. ip @ '':6379'' = niIpPort info) nodeInfos)) ips)"

definition reshareEmpty :: "'w RedisClusterOperator \<Rightarrow> RedisCluster \<Rightarrow> string list \<Rightarrow> string \<Rightarrow> ObjectReference \<Rightarrow>
    (error, 'w) op" where
  "reshareEmpty rco rc emptyIps existInstanceIp r =
     (let us = spUpdateStrategy (rcSpec rc); strategies = usAssignStrategies us in
      if length strategies < length emptyIps
      then ret (Some (Err ''assign slots to new master strategies is error: strategyCount too less''))
      else
        bnd (execClusterNodes rco existInstanceIp (orNamespace r) (orName r)) (\<lambda>(nodeInfos, err).
        if err \<noteq> None then ret err
        else reshareRedisClusterSlotsToMasterNode rco
               (us\<lparr>usAssignStrategies := drop (length strategies - length emptyIps) strategies\<rparr>)
               existInstanceIp (orName r) (orNamespace r) (nodeIdsAllAt emptyIps nodeInfos)))"

definition reassignSlots :: "'w RedisClusterOperator \<Rightarrow> RedisCluster \<Rightarrow> string \<Rightarrow> ObjectReference \<Rightarrow>
    (error, 'w) op" where
  "reassignSlots rco rc existInstanceIp r =
     bnd (execRedisTribInfo rco existInstanceIp (orName r) (orNamespace r)) (\<lambda>(infos, err).
     if err \<noteq> None then ret err
     else
       let emptyIps = map tiIp (filter (\<lambda>info. tiSlots info = 0) infos) in
       if emptyIps \<noteq> [] then reshareEmpty rco rc emptyIps existInstanceIp r else ret None)"

definition finishUpgrade :: "'w RedisClusterOperator \<Rightarrow> rcPtr \<Rightarrow> Endpoints \<Rightarrow> string \<Rightarrow> ObjectReference \<Rightarrow>
    (error, 'w) op" where
  "finishUpgrade rco p endpoints existInstanceIp r =
     bnd (load p) (\<lambda>rc.
     let us = spUpdateStrategy (rcSpec rc);
         distribute = (if usType us = AutoReceiveStrategyType
           then rebalanceRedisClusterSlotsToMasterNode rco existInstanceIp (orName r) (orNamespace r) (usPipeline us)
           else reassignSlots rco rc existInstanceIp r) in
     if usType us = AutoReceiveStrategyType \<or> usType us = AssignReceiveStrategyType
     then bnd distribute (\<lambda>err.
       if err \<noteq> None then recordFailure rco p (Some endpoints) RedisClusterRunning err err
       else recordRunning rco p endpoints)
     else ret (Some (Err ''latestRedisCluster UpdateStrategy Type only [AutoReceive, AssignReceive] error'')))"

definition repairUpgrading :: "'w RedisClusterOperator \<Rightarrow> rcPtr \<Rightarrow> Endpoints \<Rightarrow> EndpointAddress list \<Rightarrow>
    (error, 'w) op" where
  "repairUpgrading rco p endpoints addresses =
     repairWith rco p endpoints addresses (\<lambda>clustered onlyKnownSelf.
     bnd (load p) (\<lambda>rc.
     bnd (lift (oldEndpointsOf rc endpoints addresses)) (\<lambda>oldEndpoints.
     if int (length addresses) - int (length (stConditions (rcStatus rc))) = int (length onlyKnownSelf)
     then upgradeRedisCluster rco p oldEndpoints
     else
       bnd (lift (deref (eaTargetRef clustered))) (\<lambda>cr.
       bnd (lift (idx addresses 0)) (\<lambda>first.
       bnd (joinInstances rco p endpoints RedisClusterRunning (eaIP clustered) cr (eaTargetRef first)) (\<lambda>err.
       if err \<noteq> None then ret err
       else
         bnd (lift (deref (eaTargetRef first))) (\<lambda>r.
         finishUpgrade rco p endpoints (eaIP clustered) r)))))))"

definition repairByPhase :: "'w RedisClusterOperator \<Rightarrow> rcPtr \<Rightarrow> Endpoints \<Rightarrow> (error, 'w) op" where
  "repairByPhase rco p endpoints =
     bnd (load p) (\<lambda>rc.
     bnd (lift (idx (subsetsOf endpoints) 0)) (\<lambda>addresses.
     let phase = repairPhase (rcStatus rc) in
     if phase = RedisClusterCreating \<or> phase = RedisClusterFailed then repairCreating rco p endpoints addresses
     else if phase = RedisClusterScaling then repairScaling rco p endpoints addresses
     else if phase = RedisClusterUpgrading then repairUpgrading rco p endpoints addresses
     else ret None))"

definition repairCluster :: "'w RedisClusterOperator \<Rightarrow> rcPtr \<Rightarrow> (error, 'w) op" where
  "repairCluster rco p =
     bnd (checkPodInstanceIsReadyByEndpoint rco p) (\<lambda>(endpoints, err).
     if err \<noteq> None then recordFailure rco p endpoints RedisClusterFailed err err
     else
       bnd (load p) (\<lambda>rc.
       case endpoints of
         None \<Rightarrow> ret (Some (subsetsNilErr rc))
       | Some ep \<Rightarrow>
           if subsetsOf ep = [] \<or> hd (subsetsOf ep) = [] then ret (Some (subsetsNilErr rc))
           else
             bnd (lift (sortEndpointsByPodName [Some ep])) (\<lambda>sorted.
             bnd (lift (deref (sorted ! 0))) (repairByPhase rco p))))"

definition checkAndUpdateRedisClusterStatus :: "'w RedisClusterOperator \<Rightarrow> rcPtr \<Rightarrow> (error, 'w) op" where
  "checkAndUpdateRedisClusterStatus rco p =
     bnd (load p) (\<lambda>rc.
     bnd (lift (isSettled rc)) (\<lambda>settled.
     if settled then checkSettled rco p else repairCluster rco p))"

section \<open>The repair keeps the interface\<close>

context operator_trace
begin

lemma emits_recordRunning [emits_intros]: "emits G (recordRunning rco p ep)"
  unfolding recordRunning_def by (intro emits_intros)

lemma emits_checkSettled [emits_intros]: "emits G (checkSettled rco p)"
  unfolding checkSettled_def noteClusterState_def by (intro emits_intros)

lemma emits_joinInstances [emits_intros]:
  "emits G (joinInstances rco p ep RedisClusterFailed ip cr reference)"
  "emits G (joinInstances rco p ep RedisClusterRunning ip cr reference)"
  unfolding joinInstances_def Let_def by (intro emits_intros)+

lemma emits_repairWith:
  "(\<And>c os. emits G (cont c os)) \<Longrightarrow> emits G (repairWith rco p ep addresses cont)"
  unfolding repairWith_def by (intro emits_intros)

lemma emits_finishUpgrade [emits_intros]: "emits G (finishUpgrade rco p ep ip r)"
  unfolding finishUpgrade_def reassignSlots_def reshareEmpty_def Let_def by (intro emits_intros)

lemma emits_repairByPhase [emits_intros]: "emits G (repairByPhase rco p ep)"
  unfolding repairByPhase_def repairCreating_def repairScaling_def repairUpgrading_def Let_def
  by (intro emits_intros emits_repairWith)

lemma emits_checkAndUpdate [emits_intros]: "emits G (checkAndUpdateRedisClusterStatus rco p)"
  unfolding checkAndUpdateRedisClusterStatus_def repairCluster_def by (intro emits_intros)

end

end
