(* ===== verification/RepairPlans.thy ===== *)
theory RepairPlans
  imports Plans Repair
begin

text \<open>
  What looking after a cluster does to it: a settled cluster is only looked at, an interrupted one
  is continued along a plan computed from the node table, and Kubernetes objects are never touched.
\<close>

section \<open>Effects of the check\<close>

text \<open>
  C27: looking after a cluster leaves its Kubernetes objects alone. Every run of
  \<open>checkAndUpdateRedisClusterStatus\<close>, whatever the environment answers and however it ends, creates
  no service and creates or updates no stateful set, runs its commands in the redis container only,
  sends every command that changes the cluster right after a check that went well, and writes no
  phase but Creating, Running, Scaling, Upgrading and Failed.
\<close>

theorem checkAndUpdateRedisClusterStatus_leaves_objects:
  "\<exists>evs. syTrace (snd (checkAndUpdateRedisClusterStatus rco p s)) = syTrace s @ evs \<and>
     objectsUntouched evs \<and> orderly evs"
  by (rule yields_explicit [OF yields_conj [OF untouched.emits_checkAndUpdate [unfolded emits_def]
        orderly.emits_checkAndUpdate [unfolded emits_def]]])

lemma emits_noteClusterState [emits_intros]: "emits noCommands (noteClusterState rco p rc ep)"
  unfolding noteClusterState_def by (intro emits_intros)

lemma emits_checkSettled_silent: "emits noCommands (checkSettled rco p)"
  unfolding checkSettled_def by (intro emits_intros)

text \<open>
  C26: a settled cluster is only looked at. When the phase is Running, Upgrading or Creating and the
  status has a condition for every wanted replica, the check sends no command that creates or
  changes the Redis cluster.
\<close>

theorem checkAndUpdateRedisClusterStatus_settled:
  assumes "isSettled (syHeap s p) = Ret True"
  shows "\<exists>evs. syTrace (snd (checkAndUpdateRedisClusterStatus rco p s)) = syTrace s @ evs \<and> clusterCommands evs = []"
  using yields_explicit [OF emits_checkSettled_silent [unfolded emits_def], of rco p s] assms
  by (simp add: checkAndUpdateRedisClusterStatus_def fst_bnd_load noCommands_def)

definition settledRc :: RedisCluster where
  "settledRc = exampleRc\<lparr>rcStatus := zeroStatus\<lparr>stPhase := RedisClusterRunning,
     stConditions := replicate 4 (conditionOf Map.empty \<lparr>niNodeId = ''n'', niIpPort = [], niFlags = [],
       niMaster = [], niPingSent = [], niPongRecv = [], niConfigEpoch = [], niLinkState = [], niSlot = []\<rparr> 0)\<rparr>\<rparr>"

theorem checkAndUpdateRedisClusterStatus_settled_witness:
  "\<exists>evs. syTrace (snd (checkAndUpdateRedisClusterStatus exampleOperator 0 (exampleSys\<lparr>syHeap := \<lambda>_. settledRc\<rparr>))) = evs \<and>
     clusterCommands evs = []"
proof -
  have "isSettled (syHeap (exampleSys\<lparr>syHeap := \<lambda>_. settledRc\<rparr>) 0) = Ret True"
    by (simp add: isSettled_def settledRc_def exampleRc_def lenInt32_def)
  from checkAndUpdateRedisClusterStatus_settled [OF this, of exampleOperator] show ?thesis
    by (simp add: exampleSys_def)
qed


definition failedInfo :: string where
  "failedInfo = ''cluster_state:fail'' @ [nl] @ ''cluster_known_nodes:6'' @ [nl]"

definition failedOperator :: "unit RedisClusterOperator" where
  "failedOperator = exampleOperator\<lparr>apiStream := \<lambda>_ _ _ _ w. ((failedInfo, [], None), w)\<rparr>"


section \<open>The plan of a repair\<close>

definition joinPlan :: "string \<Rightarrow> string list \<Rightarrow> string list \<Rightarrow> string list \<Rightarrow> string list \<Rightarrow> string list list" where
  "joinPlan existIp masters slaves parents ids =
     map (\<lambda>m. addMasterCmd m existIp) masters @ slaveCommands slaves parents ids"

definition joinsBy :: "string \<Rightarrow> Endpoints \<Rightarrow> string list list \<Rightarrow> error outcome \<Rightarrow> event list \<Rightarrow> bool" where
  "joinsBy existIp ep extra r evs \<longleftrightarrow> failsSilently r evs \<or>
     (\<exists>nodeInfos masters slaves parents err ids. nodesRead existIp nodeInfos evs \<and>
        buildWillAddClusterMasterSlaveIPs nodeInfos ep = Ret (masters, slaves, parents, err) \<and>
        prefix (clusterCommands evs) (joinPlan existIp masters slaves parents ids @ extra) \<and>
        (r = Ret None \<longrightarrow> clusterCommands evs = joinPlan existIp masters slaves parents ids @ extra \<and>
           (slaves \<noteq> [] \<longrightarrow> length slaves = length parents \<and> length ids = length parents) \<and>
           (\<exists>nodeInfos'. nodesRead existIp nodeInfos' evs \<and> ids = nodeIdsAt parents nodeInfos')))"

text \<open>The steps of \<open>joinInstances\<close>, from the last to the first.\<close>

abbreviation recordsFailure :: "'w RedisClusterOperator \<Rightarrow> rcPtr \<Rightarrow> Endpoints \<Rightarrow> RedisClusterPhase \<Rightarrow> bool" where
  "recordsFailure rco p ep phase \<equiv>
     \<forall>err. err \<noteq> None \<longrightarrow> yields (\<lambda>_. True) (recordFailure rco p (Some ep) phase err err) failsSilently"

definition slavesJoin :: "'w RedisClusterOperator \<Rightarrow> rcPtr \<Rightarrow> Endpoints \<Rightarrow> RedisClusterPhase \<Rightarrow>
    string list \<Rightarrow> string list \<Rightarrow> ObjectReference \<Rightarrow> redisNodeInfo list \<Rightarrow> (error, 'w) op" where
  "slavesJoin rco p ep phase slaves parents r nodeInfos =
     bnd (if slaves \<noteq> [] then addSlaveToClusterMaster rco slaves parents (nodeIdsAt parents nodeInfos)
            (orNamespace r) (orName r) else ret None) (\<lambda>err.
     if err \<noteq> None then recordFailure rco p (Some ep) phase err err else ret None)"

definition slavesJoinPost :: "string list \<Rightarrow> string list \<Rightarrow> string list \<Rightarrow> error outcome \<Rightarrow> event list \<Rightarrow> bool" where
  "slavesJoinPost slaves parents ids r evs \<longleftrightarrow> prefix (clusterCommands evs) (slaveCommands slaves parents ids) \<and>
     (r = Ret None \<longrightarrow> clusterCommands evs = slaveCommands slaves parents ids \<and>
        (slaves \<noteq> [] \<longrightarrow> length slaves = length parents \<and> length ids = length parents))"

lemma yields_slavesJoin:
  assumes "recordsFailure rco p ep phase"
  shows "yields (\<lambda>_. True) (slavesJoin rco p ep phase slaves parents r nodeInfos)
     (slavesJoinPost slaves parents (nodeIdsAt parents nodeInfos))"
proof (cases "slaves = []")
  case True
  then show ?thesis
    by (auto simp: slavesJoin_def slavesJoinPost_def slaveCommands_def intro!: yields_ret)
next
  case False
  show ?thesis
    unfolding slavesJoin_def if_P [OF False]
    by (rule yields_chain [OF slaves_sendAll, where Q = "\<lambda>_ evs. evs = []"])
      (use assms in \<open>auto simp: slavesJoinPost_def intro!: yields_ret\<close>)
qed

definition nodesJoin :: "'w RedisClusterOperator \<Rightarrow> rcPtr \<Rightarrow> Endpoints \<Rightarrow> RedisClusterPhase \<Rightarrow> string \<Rightarrow>
    string list \<Rightarrow> string list \<Rightarrow> ObjectReference \<Rightarrow> (error, 'w) op" where
  "nodesJoin rco p ep phase existIp slaves parents r =
     bnd (execClusterNodes rco existIp (orNamespace r) (orName r)) (\<lambda>(nodeInfos, err).
     if err \<noteq> None then recordFailure rco p (Some ep) phase err err
     else slavesJoin rco p ep phase slaves parents r nodeInfos)"

definition nodesJoinPost :: "string \<Rightarrow> string list \<Rightarrow> string list \<Rightarrow> error outcome \<Rightarrow> event list \<Rightarrow> bool" where
  "nodesJoinPost existIp slaves parents r evs \<longleftrightarrow> (\<exists>ids. slavesJoinPost slaves parents ids r evs \<and>
     (r = Ret None \<longrightarrow> (\<exists>nodeInfos'. nodesRead existIp nodeInfos' evs \<and> ids = nodeIdsAt parents nodeInfos')))"

lemma yields_nodesJoin:
  assumes "recordsFailure rco p ep phase"
  shows "yields (\<lambda>_. True) (nodesJoin rco p ep phase existIp slaves parents r) (nodesJoinPost existIp slaves parents)"
  unfolding nodesJoin_def
proof (rule yields_bnd [OF yields_execClusterNodes])
  show "yields (\<lambda>_. True) (case x of (nodeInfos, err) \<Rightarrow>
      if err \<noteq> None then recordFailure rco p (Some ep) phase err err
      else slavesJoin rco p ep phase slaves parents r nodeInfos)
      (\<lambda>r evs. if snd x \<noteq> None then failsSilently r evs
        else slavesJoinPost slaves parents (nodeIdsAt parents (fst x)) r evs)" for x
    using assms by (auto split: prod.splits intro!: yields_slavesJoin)
next
  fix x r evs evs'
  assume "noCommands evs \<and> (\<forall>nodeInfos. Ret x = Ret (nodeInfos, None) \<longrightarrow> nodesRead existIp nodeInfos evs)"
    and "if snd x \<noteq> None then failsSilently r evs'
      else slavesJoinPost slaves parents (nodeIdsAt parents (fst x)) r evs'"
  then show "nodesJoinPost existIp slaves parents r (evs @ evs')"
    unfolding nodesJoinPost_def
    by (intro exI [of _ "nodeIdsAt parents (fst x)"], cases x)
      (auto simp: noCommands_def nodesRead_append slavesJoinPost_def failsSilently_def split: if_splits)
qed (auto simp: nodesJoinPost_def slavesJoinPost_def noCommands_def)

definition mastersJoin :: "'w RedisClusterOperator \<Rightarrow> rcPtr \<Rightarrow> Endpoints \<Rightarrow> RedisClusterPhase \<Rightarrow> string \<Rightarrow>
    string list \<Rightarrow> string list \<Rightarrow> string list \<Rightarrow> ObjectReference \<Rightarrow> (error, 'w) op" where
  "mastersJoin rco p ep phase existIp masters slaves parents r =
     bnd (if masters \<noteq> [] then addMasterNodeToRedisCluster rco masters existIp (orName r) (orNamespace r)
       else ret None) (\<lambda>err.
     if err \<noteq> None then recordFailure rco p (Some ep) phase err err
     else nodesJoin rco p ep phase existIp slaves parents r)"

definition mastersJoinPost :: "string \<Rightarrow> string list \<Rightarrow> string list \<Rightarrow> string list \<Rightarrow> error outcome \<Rightarrow>
    event list \<Rightarrow> bool" where
  "mastersJoinPost existIp masters slaves parents r evs \<longleftrightarrow> (\<exists>ids.
     prefix (clusterCommands evs) (joinPlan existIp masters slaves parents ids) \<and>
     (r = Ret None \<longrightarrow> clusterCommands evs = joinPlan existIp masters slaves parents ids \<and>
        (slaves \<noteq> [] \<longrightarrow> length slaves = length parents \<and> length ids = length parents) \<and>
        (\<exists>nodeInfos'. nodesRead existIp nodeInfos' evs \<and> ids = nodeIdsAt parents nodeInfos')))"

lemma yields_mastersJoin:
  assumes "recordsFailure rco p ep phase"
  shows "yields (\<lambda>_. True) (mastersJoin rco p ep phase existIp masters slaves parents r)
     (mastersJoinPost existIp masters slaves parents)"
  unfolding mastersJoin_def
proof (rule yields_chain [where L = True and xs = "map (\<lambda>m. addMasterCmd m existIp) masters" and
      Q = "nodesJoinPost existIp slaves parents"])
  show "yields (\<lambda>_. True) (if masters \<noteq> [] then addMasterNodeToRedisCluster rco masters existIp (orName r)
      (orNamespace r) else ret None) (\<lambda>r evs. sendsAll (map (\<lambda>m. addMasterCmd m existIp) masters) r evs \<and>
        (r = Ret None \<longrightarrow> True))"
    by (cases "masters = []") (simp_all add: masters_sendAll, simp add: sendsAll_def yields_ret)
next
  show "mastersJoinPost existIp masters slaves parents r (evs @ evs')"
    if "clusterCommands evs = map (\<lambda>m. addMasterCmd m existIp) masters"
      and "nodesJoinPost existIp slaves parents r evs'" for r evs evs'
    using that unfolding mastersJoinPost_def nodesJoinPost_def slavesJoinPost_def joinPlan_def
    by (auto simp: nodesRead_append)
next
  show "mastersJoinPost existIp masters slaves parents r evs"
    if "r \<noteq> Ret None" "prefix (clusterCommands evs) (map (\<lambda>m. addMasterCmd m existIp) masters)" for r evs
    using that unfolding mastersJoinPost_def joinPlan_def by (auto intro: prefix_prefix)
qed (use assms in \<open>auto intro!: yields_nodesJoin\<close>)

lemma joinInstances_eq:
  "joinInstances rco p ep phase existIp cr reference =
     bnd (execClusterNodes rco existIp (orNamespace cr) (orName cr)) (\<lambda>(nodeInfos, err).
     if err \<noteq> None then recordFailure rco p (Some ep) phase err err
     else bnd (lift (buildWillAddClusterMasterSlaveIPs nodeInfos ep)) (\<lambda>(masters, slaves, parents, _).
       bnd (lift (deref reference)) (mastersJoin rco p ep phase existIp masters slaves parents)))"
  by (simp only: joinInstances_def mastersJoin_def [abs_def] nodesJoin_def slavesJoin_def Let_def)

definition joinFromPost :: "string \<Rightarrow> Endpoints \<Rightarrow> redisNodeInfo list \<Rightarrow> error outcome \<Rightarrow> event list \<Rightarrow> bool" where
  "joinFromPost existIp ep nodeInfos r evs \<longleftrightarrow> failsSilently r evs \<or>
     (\<exists>masters slaves parents err. buildWillAddClusterMasterSlaveIPs nodeInfos ep = Ret (masters, slaves, parents, err) \<and>
        mastersJoinPost existIp masters slaves parents r evs)"

lemma yields_joinFrom:
  assumes "recordsFailure rco p ep phase"
  shows "yields (\<lambda>_. True) (bnd (lift (buildWillAddClusterMasterSlaveIPs nodeInfos ep)) (\<lambda>(masters, slaves, parents, _).
     bnd (lift (deref reference)) (mastersJoin rco p ep phase existIp masters slaves parents)))
     (joinFromPost existIp ep nodeInfos)"
proof (rule yields_bnd_lift)
  fix x assume x: "buildWillAddClusterMasterSlaveIPs nodeInfos ep = Ret x"
  obtain masters slaves parents err where "x = (masters, slaves, parents, err)" by (cases x)
  with x show "yields (\<lambda>_. True) (case x of (masters, slaves, parents, _) \<Rightarrow>
      bnd (lift (deref reference)) (mastersJoin rco p ep phase existIp masters slaves parents))
      (joinFromPost existIp ep nodeInfos)"
    by (cases reference) (auto simp: joinFromPost_def failsSilently_def noCommands_def
        intro!: yields_lift yields_mono [OF yields_mastersJoin [OF assms]])
qed (simp_all add: joinFromPost_def failsSilently_def noCommands_def)

lemma yields_joinInstances:
  assumes "recordsFailure rco p ep phase"
  shows "yields (\<lambda>_. True) (joinInstances rco p ep phase existIp cr reference) (joinsBy existIp ep [])"
  unfolding joinInstances_eq
proof (rule yields_bnd [OF yields_execClusterNodes])
  show "yields (\<lambda>_. True) (case x of (nodeInfos, err) \<Rightarrow>
      if err \<noteq> None then recordFailure rco p (Some ep) phase err err
      else bnd (lift (buildWillAddClusterMasterSlaveIPs nodeInfos ep)) (\<lambda>(masters, slaves, parents, _).
        bnd (lift (deref reference)) (mastersJoin rco p ep phase existIp masters slaves parents)))
      (\<lambda>r evs. if snd x \<noteq> None then failsSilently r evs else joinFromPost existIp ep (fst x) r evs)" for x
    using assms by (cases x) (auto intro!: yields_joinFrom)
next
  fix x r evs evs'
  assume first: "noCommands evs \<and> (\<forall>nodeInfos. Ret x = Ret (nodeInfos, None) \<longrightarrow> nodesRead existIp nodeInfos evs)"
    and rest: "if snd x \<noteq> None then failsSilently r evs' else joinFromPost existIp ep (fst x) r evs'"
  show "joinsBy existIp ep [] r (evs @ evs')"
  proof (cases "snd x = None \<and> \<not> failsSilently r evs'")
    case True
    then have "joinFromPost existIp ep (fst x) r evs'" using rest by simp
    then obtain masters slaves parents err ids where
      "buildWillAddClusterMasterSlaveIPs (fst x) ep = Ret (masters, slaves, parents, err)"
      "prefix (clusterCommands evs') (joinPlan existIp masters slaves parents ids)"
      "r = Ret None \<longrightarrow> clusterCommands evs' = joinPlan existIp masters slaves parents ids \<and>
        (slaves \<noteq> [] \<longrightarrow> length slaves = length parents \<and> length ids = length parents) \<and>
        (\<exists>nodeInfos'. nodesRead existIp nodeInfos' evs' \<and> ids = nodeIdsAt parents nodeInfos')"
      using True unfolding joinFromPost_def mastersJoinPost_def by blast
    moreover have "nodesRead existIp (fst x) evs" "clusterCommands evs = []"
      using True first by (cases x; simp add: noCommands_def)+
    ultimately show ?thesis
      unfolding joinsBy_def clusterCommands_append nodesRead_append append_Nil2 by (simp only: append_Nil) blast
  next
    case False
    then show ?thesis
      using first rest by (auto simp: joinsBy_def failsSilently_def noCommands_def split: if_splits)
  qed
qed (auto simp: joinsBy_def failsSilently_def)

text \<open>The repair of a creation: the joining, then one rebalancing.\<close>

definition creationRepairedBy :: "Endpoints \<Rightarrow> error outcome \<Rightarrow> event list \<Rightarrow> bool" where
  "creationRepairedBy ep r evs \<longleftrightarrow> failsSilently r evs \<or> (\<exists>rc. createsBy rc r evs) \<or>
     (\<exists>existIp. joinsBy existIp ep [rebalanceCmd defaultPipeline existIp] r evs)"

lemma yields_createAndInit:
  "yields (\<lambda>_. True) (createAndInitRedisCluster rco p) (\<lambda>r evs. \<exists>rc. createsBy rc r evs)"
proof (rule yieldsI)
  fix s
  show "True \<and> (\<exists>evs. syTrace (snd (createAndInitRedisCluster rco p s)) = syTrace s @ evs \<and>
      (\<exists>rc. createsBy rc (fst (createAndInitRedisCluster rco p s)) evs))"
    using createAndInit_run [of rco p s] by blast
qed

lemma yields_rebalanced:
  "yields (\<lambda>_. True) (bnd (lift (deref reference)) (\<lambda>r.
     bnd (rebalanceRedisClusterSlotsToMasterNode rco existIp (orName r) (orNamespace r) []) (\<lambda>err.
     if err \<noteq> None then recordFailure rco p (Some ep) RedisClusterFailed err err else recordRunning rco p ep)))
     (\<lambda>r evs. prefix (clusterCommands evs) [rebalanceCmd defaultPipeline existIp] \<and>
        (r = Ret None \<longrightarrow> clusterCommands evs = [rebalanceCmd defaultPipeline existIp]))"
proof -
  have silent: "emits noCommands (recordRunning rco p ep)"
    unfolding recordRunning_def by (intro emits_intros)
  have "yields (\<lambda>_. True) (bnd (rebalanceRedisClusterSlotsToMasterNode rco existIp (orName r) (orNamespace r) []) (\<lambda>err.
     if err \<noteq> None then recordFailure rco p (Some ep) RedisClusterFailed err err else recordRunning rco p ep))
     (\<lambda>r evs. prefix (clusterCommands evs) [rebalanceCmd defaultPipeline existIp] \<and>
        (r = Ret None \<longrightarrow> clusterCommands evs = [rebalanceCmd defaultPipeline existIp]))" for r
    by (rule yields_chain [where L = True and xs = "[rebalanceCmd defaultPipeline existIp]" and Q = "\<lambda>_. noCommands"])
      (use rebalance_sendsAll [of rco existIp _ _ "[]"] silent [unfolded emits_def] in
        \<open>auto simp: pipelineOf_def noCommands_def intro: yields_failed\<close>)
  then show ?thesis
    by (intro yields_bnd_lift) simp_all
qed

lemma joinsBy_stuck:
  assumes "joinsBy existIp ep [] r evs" and "r \<noteq> Ret None" and "r' \<noteq> Ret None"
  shows "joinsBy existIp ep extra r' evs"
proof -
  consider "failsSilently r evs" | nodeInfos masters slaves parents err ids where "nodesRead existIp nodeInfos evs"
    "buildWillAddClusterMasterSlaveIPs nodeInfos ep = Ret (masters, slaves, parents, err)"
    "prefix (clusterCommands evs) (joinPlan existIp masters slaves parents ids)"
    using assms(1) unfolding joinsBy_def append_Nil2 by blast
  then show ?thesis
  proof cases
    case 2
    have "prefix (clusterCommands evs) (joinPlan existIp masters slaves parents ids @ extra)"
      using 2(3) by (rule prefix_prefix)
    then show ?thesis
      using 2(1,2) assms(3) unfolding joinsBy_def by blast
  qed (use assms(3) in \<open>simp add: joinsBy_def failsSilently_def\<close>)
qed

lemma joinsBy_then:
  assumes "joinsBy existIp ep [] (Ret err) evs"
    and "if err \<noteq> None then evs' = [] \<and> r = Ret err
      else prefix (clusterCommands evs') [cmd] \<and> (r = Ret None \<longrightarrow> clusterCommands evs' = [cmd])"
  shows "joinsBy existIp ep [cmd] r (evs @ evs')"
proof (cases "err = None")
  case True
  then obtain nodeInfos masters slaves parents err' ids where joined: "nodesRead existIp nodeInfos evs"
    "buildWillAddClusterMasterSlaveIPs nodeInfos ep = Ret (masters, slaves, parents, err')"
    "clusterCommands evs = joinPlan existIp masters slaves parents ids"
    "slaves \<noteq> [] \<longrightarrow> length slaves = length parents \<and> length ids = length parents"
    "\<exists>nodeInfos'. nodesRead existIp nodeInfos' evs \<and> ids = nodeIdsAt parents nodeInfos'"
    using assms(1) unfolding joinsBy_def failsSilently_def append_Nil2 by blast
  have c: "prefix (clusterCommands evs') [cmd]" "r = Ret None \<longrightarrow> clusterCommands evs' = [cmd]"
    using assms(2) True by simp_all
  have "prefix (clusterCommands (evs @ evs')) (joinPlan existIp masters slaves parents ids @ [cmd])"
    unfolding clusterCommands_append joined(3) same_prefix_prefix by (fact c(1))
  moreover have "r = Ret None \<longrightarrow> clusterCommands (evs @ evs') = joinPlan existIp masters slaves parents ids @ [cmd]"
    unfolding clusterCommands_append joined(3) same_append_eq by (fact c(2))
  ultimately show ?thesis
    using joined(1,2,4,5) unfolding joinsBy_def nodesRead_append by blast
next
  case False
  then have r: "evs' = []" "r \<noteq> Ret None" using assms(2) by auto
  show ?thesis
    using joinsBy_stuck [OF assms(1) _ r(2)] False r(1) by simp
qed

lemma yields_repairJoin:
  "yields (\<lambda>_. True) (bnd (joinInstances rco p ep RedisClusterFailed existIp cr reference) (\<lambda>err.
     if err \<noteq> None then ret err
     else bnd (lift (deref reference)) (\<lambda>r.
       bnd (rebalanceRedisClusterSlotsToMasterNode rco existIp (orName r) (orNamespace r) []) (\<lambda>err.
       if err \<noteq> None then recordFailure rco p (Some ep) RedisClusterFailed err err else recordRunning rco p ep))))
     (joinsBy existIp ep [rebalanceCmd defaultPipeline existIp])"
proof (rule yields_bnd [OF yields_joinInstances])
  show "recordsFailure rco p ep RedisClusterFailed" by (simp add: yields_failed)
next
  show "yields (\<lambda>_. True) (if err \<noteq> None then ret err
      else bnd (lift (deref reference)) (\<lambda>r.
       bnd (rebalanceRedisClusterSlotsToMasterNode rco existIp (orName r) (orNamespace r) []) (\<lambda>err.
       if err \<noteq> None then recordFailure rco p (Some ep) RedisClusterFailed err err else recordRunning rco p ep)))
      (\<lambda>r evs. if err \<noteq> None then evs = [] \<and> r = Ret err
        else prefix (clusterCommands evs) [rebalanceCmd defaultPipeline existIp] \<and>
          (r = Ret None \<longrightarrow> clusterCommands evs = [rebalanceCmd defaultPipeline existIp]))" for err
    using yields_rebalanced by (cases "err = None") (simp_all add: yields_ret)
qed (auto intro: joinsBy_then joinsBy_stuck)

lemma creationRepaired_after:
  assumes "noCommands evs" and "creationRepairedBy ep r evs'"
  shows "creationRepairedBy ep r (evs @ evs')"
proof -
  have joins: "joinsBy existIp ep extra r (evs @ evs')" if "joinsBy existIp ep extra r evs'" for existIp extra
    using assms(1) that unfolding joinsBy_def failsSilently_def noCommands_def clusterCommands_append nodesRead_append
    by (simp only: append_Nil) blast
  have fails: "failsSilently r (evs @ evs')" if "failsSilently r evs'"
    using assms(1) that by (simp add: failsSilently_def noCommands_def)
  show ?thesis
    using assms(2) joins fails createsBy_after [OF assms(1)] unfolding creationRepairedBy_def by blast
qed

lemma yields_repairCreating:
  "yields (\<lambda>_. True) (repairCreating rco p ep addresses) (creationRepairedBy ep)"
proof -
  have stuck: "creationRepairedBy ep Panic []" "creationRepairedBy ep Diverge []"
    by (simp_all add: creationRepairedBy_def failsSilently_def noCommands_def)
  have join: "yields (\<lambda>_. True) (bnd (lift (deref (eaTargetRef clustered))) (\<lambda>cr.
     bnd (lift (idx addresses 0)) (\<lambda>first.
     bnd (joinInstances rco p ep RedisClusterFailed (eaIP clustered) cr (eaTargetRef first)) (\<lambda>err.
     if err \<noteq> None then ret err
     else
       bnd (lift (deref (eaTargetRef first))) (\<lambda>r.
       bnd (rebalanceRedisClusterSlotsToMasterNode rco (eaIP clustered) (orName r) (orNamespace r) []) (\<lambda>err.
       if err \<noteq> None then recordFailure rco p (Some ep) RedisClusterFailed err err
       else recordRunning rco p ep)))))) (creationRepairedBy ep)" for clustered
    by (intro yields_bnd_lift yields_mono [OF yields_repairJoin] stuck) (auto simp: creationRepairedBy_def)
  have create: "yields (\<lambda>_. True) (createAndInitRedisCluster rco p) (creationRepairedBy ep)"
    by (rule yields_mono [OF yields_createAndInit]) (simp add: creationRepairedBy_def)
  have failed: "yields (\<lambda>_. True) (bnd (updateRedisClusterStatus rco p (Some ep) RedisClusterFailed reason) (\<lambda>_. ret (Some e)))
      (creationRepairedBy ep)" for reason e
    by (rule yields_bnd [OF silent.emits_updates(5) [unfolded emits_def], where R = "\<lambda>_ r evs. evs = [] \<and> r = Ret (Some e)"])
      (auto simp: creationRepairedBy_def failsSilently_def noCommands_def intro!: yields_ret)
  have rest: "yields (\<lambda>_. True) (bnd (load p) (\<lambda>rc. bnd (lift (deref (spReplicas (rcSpec rc)))) (\<lambda>replicas.
       if lenInt32 onlyKnownSelf = replicas \<or> clustered = [] then createAndInitRedisCluster rco p
       else cont (hd clustered) onlyKnownSelf))) (creationRepairedBy ep)"
    if "\<And>c os. yields (\<lambda>_. True) (cont c os) (creationRepairedBy ep)" for cont onlyKnownSelf and clustered :: "EndpointAddress list"
    by (rule yields_bnd [where Q = "\<lambda>_ evs. evs = []" and R = "\<lambda>_. creationRepairedBy ep"])
      (auto intro!: yields_load yields_bnd_lift stuck that create)
  have repair: "yields (\<lambda>_. True) (repairWith rco p ep addresses cont) (creationRepairedBy ep)"
    if "\<And>c os. yields (\<lambda>_. True) (cont c os) (creationRepairedBy ep)" for cont
    unfolding repairWith_def
    by (rule yields_bnd [OF silent.emits_classify [unfolded emits_def], where R = "\<lambda>_. creationRepairedBy ep"])
      (use creationRepaired_after [OF _ stuck(1)] creationRepaired_after [OF _ stuck(2)] in
        \<open>auto split: prod.splits intro!: failed rest that creationRepaired_after\<close>)
  show ?thesis
    unfolding repairCreating_def by (rule repair) (rule join)
qed

text \<open>
  C21: an interrupted creation is continued by a plan. The commands that the repair of a creation
  sends are none, with an error, or those of a creation, or an initial part of: add-node for the
  missing masters, add-node --slave for the missing slaves to their parents, and one rebalancing,
  with masters, slaves and parents as \<open>buildWillAddClusterMasterSlaveIPs\<close> computed them from a node
  table read from a clustered instance. On success the whole plan was sent and every slave had the
  node id of its parent.
\<close>

theorem repairCreating_plan:
  "\<exists>evs. syTrace (snd (repairCreating rco p ep addresses s)) = syTrace s @ evs \<and>
     creationRepairedBy ep (fst (repairCreating rco p ep addresses s)) evs"
  by (rule yields_explicit [OF yields_repairCreating])

end
