(* ===== verification/SyncLoop.thy ===== *)
theory SyncLoop
  imports RepairPlans Objects
begin

text \<open>
  One pass over a resource: \<^verbatim>\<open>sync\<close> of \<^verbatim>\<open>redis_operator.go\<close> with the generated lister's
  \<^verbatim>\<open>Get\<close>. The lister hands out the cached object, of which the pass makes its own copy.
\<close>

section \<open>The model\<close>

text \<open>The lister reads the informer's store by the key of the object.\<close>

definition notFound :: "string \<Rightarrow> gerr" where
  "notFound name = NotFoundErr (''rediscluster.'' @ GroupName @ '' \"'' @ name @ ''\" not found'')"

definition redisClustersGet :: "'w RedisClusterOperator \<Rightarrow> string \<Rightarrow> string \<Rightarrow>
    (RedisCluster option \<times> error, 'w) op" where
  "redisClustersGet rco namespace name =
     bnd (call (redisIndexerGet rco (namespace @ ''/'' @ name)) (\<lambda>_. [])) (\<lambda>(obj, err).
     if err \<noteq> None then ret (None, err)
     else (case obj of None \<Rightarrow> ret (None, Some (notFound name)) | Some rc \<Rightarrow> ret (Some rc, None)))"

definition createService :: "'w RedisClusterOperator \<Rightarrow> string \<Rightarrow> string \<Rightarrow> rcPtr \<Rightarrow> (error, 'w) op" where
  "createService rco namespace name q =
     bnd (load q) (\<lambda>new.
     bnd (servicesCreate rco namespace (buildRedisClusterService new namespace name)) (\<lambda>err.
     if isAlreadyExists err then ret None
     else if err \<noteq> None
     then ret (Some (Err (''init redis cluster create service: '' @ namespace @ ''/'' @ name @ '' is error: '' @
            fmtError err)))
     else ret None))"

definition firstCreation :: "'w RedisClusterOperator \<Rightarrow> string \<Rightarrow> string \<Rightarrow> rcPtr \<Rightarrow> StatefulSet option \<Rightarrow>
    (error, 'w) op" where
  "firstCreation rco namespace name p existSts =
     bnd (updateRedisClusterStatus rco p None RedisClusterCreating []) (\<lambda>(q, err).
     if err \<noteq> None then ret err
     else
       bnd (createService rco namespace name q) (\<lambda>err.
       if err \<noteq> None then ret err
       else
         bnd (buildRedisClusterStatefulset namespace name q) (\<lambda>recSts.
         bnd (case existSts of None \<Rightarrow> statefulSetsCreate rco namespace recSts
              | Some _ \<Rightarrow> statefulSetsUpdate rco namespace recSts) (\<lambda>(sts, err).
         if err \<noteq> None
         then ret (Some (Err (''init redis cluster create statefulset: '' @ omName (ssMeta sts) @
                '' is error: '' @ fmtError err)))
         else createAndInitRedisCluster rco q))))"

text \<open>What is wrong with the update strategy for an upgrade, if anything.\<close>

definition strategyError :: "RedisCluster \<Rightarrow> int32 \<Rightarrow> error" where
  "strategyError rc scaleLen =
     (let us = spUpdateStrategy (rcSpec rc) in
      if usType us \<noteq> AssignReceiveStrategyType \<and> usType us \<noteq> AutoReceiveStrategyType
      then Some (Err (''upgrade redis cluster: '' @ rcNamespace rc @ ''/'' @ rcName rc @
             '' UpdateStrategy Type error: '' @ usType us))
      else if usType us = AssignReceiveStrategyType \<and> lenInt32 (usAssignStrategies us) \<noteq> halfInt32 scaleLen
      then Some (Err (''upgrade redis cluster: '' @ rcNamespace rc @ ''/'' @ rcName rc @
             '' slots AssignStrategies error''))
      else None)"

definition scaleUp :: "'w RedisClusterOperator \<Rightarrow> string \<Rightarrow> string \<Rightarrow> rcPtr \<Rightarrow> (error, 'w) op" where
  "scaleUp rco namespace name p =
     bnd (updateRedisClusterStatus rco p None RedisClusterScaling []) (\<lambda>(q, err).
     if err \<noteq> None then ret err
     else
       bnd (load p) (\<lambda>rc.
       bnd (endpointsGet rco (rcNamespace rc) (rcName rc)) (\<lambda>(oldEndpoints, err).
       if err \<noteq> None then recordFailure rco p (Some oldEndpoints) RedisClusterFailed err err
       else
         bnd (buildRedisClusterStatefulset namespace name q) (\<lambda>recSts.
         bnd (statefulSetsUpdate rco namespace recSts) (\<lambda>(sts, err).
         if err \<noteq> None
         then ret (Some (Err (''upgrade redis cluster scale statefulset: '' @ omName (ssMeta sts) @
                '' is error: '' @ fmtError err)))
         else upgradeRedisCluster rco q oldEndpoints)))))"

definition upgradeExisting :: "'w RedisClusterOperator \<Rightarrow> string \<Rightarrow> string \<Rightarrow> rcPtr \<Rightarrow> int32 \<Rightarrow>
    (error, 'w) op" where
  "upgradeExisting rco namespace name p scaleLen =
     bnd (load p) (\<lambda>rc.
     let err = strategyError rc scaleLen in
     if err \<noteq> None then recordFailure rco p None RedisClusterRunning None err
     else scaleUp rco namespace name p)"

definition syncExisting :: "'w RedisClusterOperator \<Rightarrow> string \<Rightarrow> string \<Rightarrow> rcPtr \<Rightarrow> StatefulSet \<Rightarrow>
    (error, 'w) op" where
  "syncExisting rco namespace name p existSts =
     bnd (load p) (\<lambda>rc.
     bnd (lift (deref (spReplicas (rcSpec rc)))) (\<lambda>wanted.
     bnd (lift (deref (ssReplicas existSts))) (\<lambda>existing.
     if leInt32 wanted existing then checkAndUpdateRedisClusterStatus rco p
     else if ssDeletionTimestamp existSts = None then upgradeExisting rco namespace name p (wanted - existing)
     else ret None)))"

definition syncCopy :: "'w RedisClusterOperator \<Rightarrow> string \<Rightarrow> string \<Rightarrow> rcPtr \<Rightarrow> (error, 'w) op" where
  "syncCopy rco namespace name p =
     bnd (getStatefulSetForRedisCluster rco p) (\<lambda>(existSts, err).
     if err \<noteq> None then ret err
     else
       (case existSts of
          None \<Rightarrow> firstCreation rco namespace name p None
        | Some sts \<Rightarrow>
            if ssStatusReplicas sts = 0 then firstCreation rco namespace name p (Some sts)
            else syncExisting rco namespace name p sts))"

definition sync :: "'w RedisClusterOperator \<Rightarrow> string \<Rightarrow> string \<Rightarrow> (error, 'w) op" where
  "sync rco namespace name =
     bnd (redisClustersGet rco namespace name) (\<lambda>(rc, err).
     if isNotFound err then ret None
     else if err \<noteq> None then ret err
     else bnd (lift (deref rc)) (\<lambda>rc. bnd (alloc rc) (syncCopy rco namespace name)))"

section \<open>A pass keeps the interface\<close>

context lifecycle_trace
begin

lemma emits_objects [emits_intros]:
  "emits G (servicesCreate rco ns svc)" "emits G (statefulSetsCreate rco ns sts)"
  "emits G (statefulSetsUpdate rco ns sts)"
  unfolding servicesCreate_def statefulSetsCreate_def statefulSetsUpdate_def
  by (rule emits_call, rule objects)+

lemma emits_buildStatefulset [emits_intros]: "emits G (buildRedisClusterStatefulset ns name p)"
  unfolding buildRedisClusterStatefulset_def Let_def by (intro emits_intros)

lemma emits_getStatefulSet [emits_intros]: "emits G (getStatefulSetForRedisCluster rco p)"
  unfolding getStatefulSetForRedisCluster_def by (intro emits_intros)

lemma emits_sync [emits_intros]: "emits G (sync rco ns name)"
  unfolding sync_def redisClustersGet_def syncCopy_def firstCreation_def createService_def syncExisting_def
    upgradeExisting_def scaleUp_def Let_def
  by (intro emits_intros)

end

text \<open>
  C3: every command is guarded in every pass. Whatever the environment answers and however the pass
  ends, what one \<open>sync\<close> adds to the trace is orderly: each command that changes the Redis cluster comes
  directly after a good check, all commands run in the redis container, the phases written are
  Creating, Running, Scaling, Upgrading or Failed, and no resource is deleted.
\<close>

theorem sync_orderly:
  "\<exists>evs. syTrace (snd (sync rco namespace name s)) = syTrace s @ evs \<and> orderly evs"
  using yields_explicit [OF orderly.emits_sync [unfolded emits_def]] by blast

section \<open>An existing cluster\<close>

text \<open>What the caches hold when a pass meets a running stateful set.\<close>

definition cached :: "'w RedisClusterOperator \<Rightarrow> string \<Rightarrow> string \<Rightarrow> 'w \<Rightarrow> RedisCluster \<Rightarrow> StatefulSet \<Rightarrow> 'w \<Rightarrow> bool" where
  "cached rco namespace name w rc sts w' \<longleftrightarrow> (\<exists>w1 stsList.
     redisIndexerGet rco (namespace @ ''/'' @ name) w = ((Some rc, None), w1) \<and>
     stsListerList rco (rcNamespace rc) w1 = ((stsList, None), w') \<and>
     find (\<lambda>sts. belongsTo sts rc) stsList = Some sts \<and> ssStatusReplicas sts \<noteq> 0)"

definition copied :: "'w sys \<Rightarrow> RedisCluster \<Rightarrow> 'w \<Rightarrow> 'w sys" where
  "copied s rc w = s\<lparr>syWorld := w, syHeap := (syHeap s)(syNext s := rc), syNext := Suc (syNext s)\<rparr>"

lemma sync_cached:
  assumes "cached rco namespace name (syWorld s) rc sts w"
  shows "sync rco namespace name s = syncExisting rco namespace name (syNext s) sts (copied s rc w)"
proof -
  obtain w1 stsList where c: "redisIndexerGet rco (namespace @ ''/'' @ name) (syWorld s) = ((Some rc, None), w1)"
    "stsListerList rco (rcNamespace rc) w1 = ((stsList, None), w)"
    "find (\<lambda>sts. belongsTo sts rc) stsList = Some sts" "ssStatusReplicas sts \<noteq> 0"
    using assms unfolding cached_def by blast
  let ?s1 = "s\<lparr>syWorld := w1\<rparr>"
  have get: "redisClustersGet rco namespace name s = (Ret (Some rc, None), ?s1)"
    using c(1) by (simp add: redisClustersGet_def bnd_def call_def ret_def)
  have "getStatefulSetForRedisCluster rco (syNext s)
      (s\<lparr>syWorld := w1, syHeap := (syHeap s)(syNext s := rc), syNext := Suc (syNext s)\<rparr>) =
      (Ret (Some sts, None), copied s rc w)"
    using c(2,3) by (simp add: getStatefulSetForRedisCluster_def bnd_def load_def call_def ret_def copied_def)
  then show ?thesis
    using c(4) by (simp add: sync_def bnd_def get alloc_def syncCopy_def lift_def)
qed

lemma copied_simps [simp]:
  "syHeap (copied s rc w) (syNext s) = rc" "syTrace (copied s rc w) = syTrace s"
  by (simp_all add: copied_def)

lemma syncExisting_apply:
  assumes "spReplicas (rcSpec (syHeap s p)) = Some wanted" and "ssReplicas sts = Some existing"
  shows "syncExisting rco namespace name p sts s =
    (if leInt32 wanted existing then checkAndUpdateRedisClusterStatus rco p s
     else if ssDeletionTimestamp sts = None then upgradeExisting rco namespace name p (wanted - existing) s
     else ret None s)"
  using assms by (simp add: syncExisting_def bnd_def load_def lift_def)


text \<open>
  A cluster that is being deleted is left alone. When the resource asks for more replicas than a
  stateful set that carries a deletion timestamp, the pass returns without error and without any call
  that the trace records.
\<close>

theorem sync_deleting:
  assumes "cached rco namespace name (syWorld s) rc sts w"
    and "spReplicas (rcSpec rc) = Some wanted" and "ssReplicas sts = Some existing"
    and "sint existing < sint wanted" and "ssDeletionTimestamp sts = Some t"
  shows "sync rco namespace name s = (Ret None, copied s rc w) \<and> syTrace (copied s rc w) = syTrace s"
  using assms by (simp add: sync_cached syncExisting_apply leInt32_def ret_def)

text \<open>
  An upgrade with a wrong strategy does nothing but note it. When the strategy is none of the two,
  or is AssignReceive with a number of slot assignments other than half the new replicas (with Go's
  32-bit subtraction and truncating division), the pass touches no Kubernetes object, sends no command
  that creates or changes the Redis cluster, and returns no error.
\<close>

theorem sync_wrong_strategy:
  assumes "cached rco namespace name (syWorld s) rc sts w"
    and "spReplicas (rcSpec rc) = Some wanted" and "ssReplicas sts = Some existing"
    and "sint existing < sint wanted" and "ssDeletionTimestamp sts = None"
    and "strategyError rc (wanted - existing) \<noteq> None"
  shows "\<exists>evs. syTrace (snd (sync rco namespace name s)) = syTrace s @ evs \<and> objectsUntouched evs \<and>
    clusterCommands evs = [] \<and> (\<forall>e. fst (sync rco namespace name s) \<noteq> Ret (Some e))"
proof -
  let ?m = "recordFailure rco (syNext s) None RedisClusterRunning (None :: error) (strategyError rc (wanted - existing))"
  have run: "sync rco namespace name s = ?m (copied s rc w)"
    using assms by (simp add: sync_cached syncExisting_apply leInt32_def upgradeExisting_def bnd_def load_def)
  have "yields (\<lambda>_. True) ?m (\<lambda>r evs. (objectsUntouched evs \<and> noCommands evs) \<and> (\<forall>e. r \<noteq> Ret (Some e)))"
    unfolding recordFailure_def
    by (rule yields_bnd [OF yields_conj [OF untouched.emits_updates(2) [unfolded emits_def]
          silent.emits_updates(2) [unfolded emits_def]], where R = "\<lambda>_ r evs. evs = [] \<and> r = Ret None"])
      (auto intro!: yields_ret)
  from yields_explicit [OF this, of "copied s rc w"] show ?thesis
    unfolding run by (simp add: noCommands_def)
qed

section \<open>The environment of the examples\<close>

definition wantsEight :: "string \<Rightarrow> RedisCluster" where
  "wantsEight strategy = exampleRc\<lparr>rcSpec := (rcSpec exampleRc)\<lparr>spReplicas := Some 8,
     spUpdateStrategy := \<lparr>usType = strategy, usPipeline = [], usAssignStrategies = []\<rparr>\<rparr>\<rparr>"

definition caching :: "RedisCluster \<Rightarrow> StatefulSet \<Rightarrow> unit RedisClusterOperator" where
  "caching rc sts = exampleOperator\<lparr>redisIndexerGet := \<lambda>_ w. ((Some rc, None), w),
     stsListerList := \<lambda>_ w. (([sts], None), w)\<rparr>"

lemma cached_caching:
  assumes "belongsTo sts rc" and "ssStatusReplicas sts \<noteq> 0"
  shows "cached (caching rc sts) namespace name (syWorld s) rc sts (syWorld s)"
  using assms by (simp add: cached_def caching_def)

lemma example_belongs:
  "belongsTo exampleSts exampleRc" "belongsTo exampleSts (wantsEight strategy)"
  "belongsTo (exampleSts\<lparr>ssDeletionTimestamp := Some t\<rparr>) (wantsEight strategy)"
  by (simp_all add: belongsTo_def clusterAnnotation_def exampleSts_def exampleRc_def wantsEight_def)

lemma example_replicas:
  "spReplicas (rcSpec exampleRc) = Some 4" "spReplicas (rcSpec (wantsEight strategy)) = Some 8"
  "ssReplicas exampleSts = Some 4" "ssStatusReplicas exampleSts = 4" "ssDeletionTimestamp exampleSts = None"
  by (simp_all add: exampleSts_def exampleRc_def wantsEight_def)


theorem sync_deleting_witness:
  "fst (sync (caching (wantsEight ''AutoReceive'') (exampleSts\<lparr>ssDeletionTimestamp := Some 3\<rparr>)) ''ns'' ''r'' exampleSys) =
     Ret None"
proof -
  have "sync (caching (wantsEight ''AutoReceive'') (exampleSts\<lparr>ssDeletionTimestamp := Some 3\<rparr>)) ''ns'' ''r'' exampleSys =
      (Ret None, copied exampleSys (wantsEight ''AutoReceive'') (syWorld exampleSys)) \<and>
      syTrace (copied exampleSys (wantsEight ''AutoReceive'') (syWorld exampleSys)) = syTrace exampleSys"
    by (rule sync_deleting [OF cached_caching, where wanted = 8 and existing = 4]) (simp_all add: example_belongs example_replicas)
  then show ?thesis by simp
qed

theorem sync_wrong_strategy_witness:
  "\<exists>evs. syTrace (snd (sync (caching (wantsEight ''Recreate'') exampleSts) ''ns'' ''r'' exampleSys)) = syTrace exampleSys @ evs \<and>
     objectsUntouched evs \<and> clusterCommands evs = [] \<and>
     (\<forall>e. fst (sync (caching (wantsEight ''Recreate'') exampleSts) ''ns'' ''r'' exampleSys) \<noteq> Ret (Some e))"
proof -
  have "strategyError (wantsEight ''Recreate'') 4 \<noteq> None"
    by (simp add: strategyError_def wantsEight_def)
  then show ?thesis
    by (intro sync_wrong_strategy [OF cached_caching, where wanted = 8 and existing = 4])
      (simp_all add: example_belongs example_replicas)
qed

section \<open>A new cluster\<close>

text \<open>
  The calls that write Kubernetes objects. A postcondition that is reached, without an invariant:
  what a run from a state with \<open>I\<close> adds to the trace.
\<close>

definition objectsOf :: "event list \<Rightarrow> event list" where
  "objectsOf evs = filter (\<lambda>e. \<not> objectsUntouched [e]) evs"

lemma objectsOf_simps [simp]:
  "objectsOf [] = []" "objectsOf (evs @ evs') = objectsOf evs @ objectsOf evs'"
  "objectsOf (SvcCreateEv ns svc # evs) = SvcCreateEv ns svc # objectsOf evs"
  "objectsOf (StsCreateEv ns sts # evs) = StsCreateEv ns sts # objectsOf evs"
  "objectsOf (StsUpdateEv ns sts # evs) = StsUpdateEv ns sts # objectsOf evs"
  by (simp_all add: objectsOf_def objectsUntouched_def)

lemma objectsOf_untouched: "objectsUntouched evs \<Longrightarrow> objectsOf evs = []"
  by (auto simp: objectsOf_def objectsUntouched_def filter_empty_conv)

definition attains :: "('w sys \<Rightarrow> bool) \<Rightarrow> ('a, 'w) op \<Rightarrow> ('a outcome \<Rightarrow> event list \<Rightarrow> bool) \<Rightarrow> bool" where
  "attains I m Q \<longleftrightarrow> (\<forall>s. I s \<longrightarrow> (\<exists>evs. syTrace (snd (m s)) = syTrace s @ evs \<and> Q (fst (m s)) evs))"

lemma yields_attains: "yields I m Q \<Longrightarrow> attains I m Q"
  unfolding yields_def attains_def by blast

lemma attains_mono: "attains I m Q \<Longrightarrow> (\<And>r evs. Q r evs \<Longrightarrow> R r evs) \<Longrightarrow> attains I m R"
  unfolding attains_def by blast

lemma attains_pre: "attains J m Q \<Longrightarrow> (\<And>s. I s \<Longrightarrow> J s) \<Longrightarrow> attains I m Q"
  unfolding attains_def by blast

lemma attains_bnd:
  assumes "yields I m Q" and "\<And>x evs. Q (Ret x) evs \<Longrightarrow> attains I (f x) (R x)"
    and "\<And>x r evs evs'. Q (Ret x) evs \<Longrightarrow> R x r evs' \<Longrightarrow> T r (evs @ evs')"
    and "\<And>evs. Q Panic evs \<Longrightarrow> T Panic evs" and "\<And>evs. Q Diverge evs \<Longrightarrow> T Diverge evs"
  shows "attains I (bnd m f) T"
  unfolding attains_def
proof (intro allI impI)
  fix s assume I: "I s"
  obtain r s' where m: "m s = (r, s')" by (cases "m s")
  obtain evs where evs: "I s'" "syTrace s' = syTrace s @ evs" "Q r evs"
    using yieldsE [OF assms(1) I m] .
  show "\<exists>evs. syTrace (snd (bnd m f s)) = syTrace s @ evs \<and> T (fst (bnd m f s)) evs"
  proof (cases r)
    case (Ret x)
    obtain evs' where "syTrace (snd (f x s')) = syTrace s' @ evs'" "R x (fst (f x s')) evs'"
      using assms(2) evs(1,3) Ret unfolding attains_def by blast
    then show ?thesis
      using Ret m evs assms(3) by (intro exI [of _ "evs @ evs'"]) (simp add: bnd_def)
  qed (use m evs assms(4,5) in \<open>auto simp: bnd_def\<close>)
qed

lemma attains_load:
  "(\<And>rc. attains (\<lambda>s. syHeap s q = rc) (f rc) Q) \<Longrightarrow> attains (\<lambda>_. True) (bnd (load q) f) Q"
  unfolding attains_def by (simp add: bnd_def load_def)

definition createsObjects :: "string \<Rightarrow> string \<Rightarrow> StatefulSet option \<Rightarrow> event list \<Rightarrow> bool" where
  "createsObjects namespace name existSts objs \<longleftrightarrow> objs = [] \<or> (\<exists>rc.
     objs = [SvcCreateEv namespace (buildRedisClusterService rc namespace name)] \<or>
     (\<exists>podTpl labels sts. podTpl \<in> set (take 1 (spPod (rcSpec rc))) \<and>
        sts = statefulSetOf namespace name rc podTpl labels \<and> labels ''app'' = Some name \<and>
        objs = [SvcCreateEv namespace (buildRedisClusterService rc namespace name),
          if existSts = None then StsCreateEv namespace sts else StsUpdateEv namespace sts]))"

lemma attains_statefulset:
  fixes rco :: "'w RedisClusterOperator"
  assumes "\<And>podTpl labels. podTpl \<in> set (take 1 (spPod (rcSpec rc))) \<Longrightarrow> labels ''app'' = Some name \<Longrightarrow>
      yields (\<lambda>_. True) (f (statefulSetOf namespace name rc podTpl labels)) Q"
    and "Q Panic []"
  shows "attains (\<lambda>s. syHeap s q = rc) (bnd (buildRedisClusterStatefulset namespace name q) f :: ('b, 'w) op) Q"
  unfolding attains_def
proof (intro allI impI)
  fix s :: "'w sys" assume s: "syHeap s q = rc"
  show "\<exists>evs. syTrace (snd (bnd (buildRedisClusterStatefulset namespace name q) f s)) = syTrace s @ evs \<and>
      Q (fst (bnd (buildRedisClusterStatefulset namespace name q) f s)) evs"
  proof (cases "spPod (rcSpec rc)")
    case Nil
    then show ?thesis
      using s assms(2) by (simp add: buildRedisClusterStatefulset_def bnd_def load_def lift_def)
  next
    case (Cons podTpl pods)
    then obtain labels s' where run: "buildRedisClusterStatefulset namespace name q s =
        (Ret (statefulSetOf namespace name rc podTpl labels), s')"
      and l: "labels ''app'' = Some name" and t: "syTrace s' = syTrace s"
      using s by (cases "ptLabels podTpl")
        (auto simp: buildRedisClusterStatefulset_def bnd_def load_def ret_def store_def Let_def)
    have "yields (\<lambda>_. True) (f (statefulSetOf namespace name rc podTpl labels)) Q"
      using assms(1) [of podTpl labels] Cons l by simp
    from yields_explicit [OF this, of s'] show ?thesis
      by (simp add: bnd_def run t)
  qed
qed

lemma yields_writeSts:
  assumes "podTpl \<in> set (take 1 (spPod (rcSpec rc)))" and "labels ''app'' = Some name"
  shows "yields (\<lambda>_. True) (bnd (case existSts of None \<Rightarrow> statefulSetsCreate rco namespace (statefulSetOf namespace name rc podTpl labels)
        | Some _ \<Rightarrow> statefulSetsUpdate rco namespace (statefulSetOf namespace name rc podTpl labels)) (\<lambda>(sts, err).
      if err \<noteq> None then ret (Some (g sts err)) else createAndInitRedisCluster rco q))
    (\<lambda>r evs. createsObjects namespace name existSts
       (SvcCreateEv namespace (buildRedisClusterService rc namespace name) # objectsOf evs))"
proof (rule yields_bnd [where Q = "\<lambda>r evs. r \<noteq> Panic \<and> r \<noteq> Diverge \<and> evs = [if existSts = None
      then StsCreateEv namespace (statefulSetOf namespace name rc podTpl labels)
      else StsUpdateEv namespace (statefulSetOf namespace name rc podTpl labels)]"
      and R = "\<lambda>_ r evs. objectsUntouched evs"])
  show "yields (\<lambda>_. True) (case x of (sts, err) \<Rightarrow> if err \<noteq> None then ret (Some (g sts err))
      else createAndInitRedisCluster rco q) (\<lambda>r. objectsUntouched)" for x
    using untouched.emits_createAndInit [unfolded emits_def]
    by (auto split: prod.splits intro!: yields_ret untouched.trace_nil)
qed (use assms in \<open>auto simp: statefulSetsCreate_def statefulSetsUpdate_def createsObjects_def objectsOf_untouched
    intro!: yields_call split: option.splits\<close>)

lemma attains_creation:
  "attains (\<lambda>_. True) (bnd (createService rco namespace name q) (\<lambda>err. if err \<noteq> None then ret err
     else bnd (buildRedisClusterStatefulset namespace name q) (\<lambda>recSts.
       bnd (case existSts of None \<Rightarrow> statefulSetsCreate rco namespace recSts
          | Some _ \<Rightarrow> statefulSetsUpdate rco namespace recSts) (\<lambda>(sts, err).
         if err \<noteq> None then ret (Some (g sts err)) else createAndInitRedisCluster rco q))))
     (\<lambda>r evs. createsObjects namespace name existSts (objectsOf evs))"
  unfolding createService_def bnd_assoc
proof (rule attains_load)
  fix rc
  let ?svc = "SvcCreateEv namespace (buildRedisClusterService rc namespace name)"
  let ?rest = "\<lambda>recSts. bnd (case existSts of None \<Rightarrow> statefulSetsCreate rco namespace recSts
        | Some _ \<Rightarrow> statefulSetsUpdate rco namespace recSts) (\<lambda>(sts, err).
      if err \<noteq> None then ret (Some (g sts err)) else createAndInitRedisCluster rco q)"
  have written: "attains (\<lambda>s. syHeap s q = rc) (bnd (buildRedisClusterStatefulset namespace name q) ?rest)
      (\<lambda>r evs. createsObjects namespace name existSts (?svc # objectsOf evs))"
    by (rule attains_statefulset) (erule (1) yields_writeSts, auto simp: createsObjects_def)
  have failed: "attains (\<lambda>s. syHeap s q = rc) (ret e) (\<lambda>r evs. createsObjects namespace name existSts (?svc # objectsOf evs))"
    for e :: error
    by (rule yields_attains, rule yields_ret) (auto simp: createsObjects_def)
  show "attains (\<lambda>s. syHeap s q = rc) (bnd (servicesCreate rco namespace (buildRedisClusterService rc namespace name))
      (\<lambda>err. bnd (if isAlreadyExists err then ret None
          else if err \<noteq> None then ret (Some (Err (''init redis cluster create service: '' @ namespace @ ''/'' @ name @
            '' is error: '' @ fmtError err))) else ret None)
        (\<lambda>err. if err \<noteq> None then ret err else bnd (buildRedisClusterStatefulset namespace name q) ?rest)))
      (\<lambda>r evs. createsObjects namespace name existSts (objectsOf evs))"
  proof (rule attains_bnd [where Q = "\<lambda>r evs. r \<noteq> Panic \<and> r \<noteq> Diverge \<and> evs = [?svc]" and
        R = "\<lambda>_ r evs. createsObjects namespace name existSts (?svc # objectsOf evs)"])
    show "yields (\<lambda>s. syHeap s q = rc) (servicesCreate rco namespace (buildRedisClusterService rc namespace name))
        (\<lambda>r evs. r \<noteq> Panic \<and> r \<noteq> Diverge \<and> evs = [?svc])"
      unfolding servicesCreate_def by (rule yields_call) (simp_all add: aboutHeap_def)
  qed (use written failed in auto)
qed

text \<open>
  C24: creating the Kubernetes objects. The objects that a first creation writes are none, or the service
  built for the resource, or that service and then the stateful set built for the same resource, which
  is created if there was none and replaces one that had no replicas.
\<close>

theorem firstCreation_objects:
  "\<exists>evs. syTrace (snd (firstCreation rco namespace name p existSts s)) = syTrace s @ evs \<and>
     createsObjects namespace name existSts (objectsOf evs)"
proof -
  have "attains (\<lambda>_. True) (firstCreation rco namespace name p existSts)
      (\<lambda>r evs. createsObjects namespace name existSts (objectsOf evs))"
    unfolding firstCreation_def
  proof (rule attains_bnd [OF untouched.emits_updates(1) [unfolded emits_def], where
        R = "\<lambda>_ r evs. createsObjects namespace name existSts (objectsOf evs)"])
    fix x :: "nat \<times> error"
    show "attains (\<lambda>_. True) (case x of (q, err) \<Rightarrow> if err \<noteq> None then ret err
        else bnd (createService rco namespace name q) (\<lambda>err. if err \<noteq> None then ret err
          else bnd (buildRedisClusterStatefulset namespace name q) (\<lambda>recSts.
            bnd (case existSts of None \<Rightarrow> statefulSetsCreate rco namespace recSts
              | Some _ \<Rightarrow> statefulSetsUpdate rco namespace recSts) (\<lambda>(sts, err).
            if err \<noteq> None then ret (Some (Err (''init redis cluster create statefulset: '' @ omName (ssMeta sts) @
                '' is error: '' @ fmtError err))) else createAndInitRedisCluster rco q))))
      (\<lambda>r evs. createsObjects namespace name existSts (objectsOf evs))"
    proof (cases x)
      case (Pair q err)
      then show ?thesis
      proof (cases err)
        case None
        show ?thesis
          unfolding Pair None prod.case by (simp only: simp_thms if_False attains_creation)
      next
        case (Some e)
        have "attains (\<lambda>_. True) (ret err) (\<lambda>r evs. createsObjects namespace name existSts (objectsOf evs))"
          by (rule yields_attains, rule yields_ret) (simp add: createsObjects_def)
        then show ?thesis
          using Pair Some by simp
      qed
    qed
  qed (auto simp: objectsOf_untouched createsObjects_def)
  then show ?thesis unfolding attains_def by simp
qed

end
