(* ===== verification/Isolation.thy ===== *)
theory Isolation
  imports SyncLoop
begin

text \<open>
  Who may change a RedisCluster object: a pass works on objects that it has allocated itself, its own
  copy of the cached resource and the decoded replies of updates, and changes no other.
\<close>

named_theorems keeps_intros \<open>code that changes no object below an address\<close>

section \<open>Code that keeps the old objects\<close>

definition above :: "nat \<Rightarrow> (nat \<Rightarrow> RedisCluster) \<Rightarrow> 'w sys \<Rightarrow> bool" where
  "above lo h s \<longleftrightarrow> lo \<le> syNext s \<and> (\<forall>p < lo. syHeap s p = h p)"

definition keeps :: "nat \<Rightarrow> ('a, 'w) op \<Rightarrow> bool" where
  "keeps lo m \<longleftrightarrow> (\<forall>h. yields (above lo h) m (\<lambda>_ _. True))"

text \<open>The code that hands on a pointer, which is one of the new objects.\<close>

definition points :: "nat \<Rightarrow> (rcPtr \<times> error, 'w) op \<Rightarrow> bool" where
  "points lo m \<longleftrightarrow> (\<forall>h. yields (above lo h) m (\<lambda>r _. \<forall>q err. r = Ret (q, err) \<longrightarrow> lo \<le> q))"

lemma keeps_quiet: "quiet m \<Longrightarrow> keeps lo m"
  unfolding keeps_def by (rule allI, rule yields_frame, assumption, erule quiet_yields) (simp add: above_def)

lemma points_keeps: "points lo m \<Longrightarrow> keeps lo m"
  unfolding keeps_def points_def by (blast intro: yields_mono)

lemma keeps_store [keeps_intros]: "lo \<le> p \<Longrightarrow> keeps lo (store p rc)"
  unfolding keeps_def above_def by (intro allI yieldsI) (auto simp: store_def)

lemma keeps_bnd: "keeps lo m \<Longrightarrow> (\<And>x. keeps lo (f x)) \<Longrightarrow> keeps lo (bnd m f)"
  unfolding keeps_def by (intro allI yields_bnd [where Q = "\<lambda>_ _. True" and R = "\<lambda>_ _ _. True"]) auto

lemma points_bnd: "keeps lo m \<Longrightarrow> (\<And>x. points lo (f x)) \<Longrightarrow> points lo (bnd m f)"
  unfolding keeps_def points_def
  by (intro allI yields_bnd [where Q = "\<lambda>_ _. True" and R = "\<lambda>_ r _. \<forall>q err. r = Ret (q, err) \<longrightarrow> lo \<le> q"]) auto

lemma points_ret: "lo \<le> q \<Longrightarrow> points lo (ret (q, err))"
  by (simp add: points_def yields_ret)

text \<open>Passing a pointer on.\<close>

lemma keeps_pointer:
  assumes "points lo m" and "\<And>q err. lo \<le> q \<Longrightarrow> keeps lo (f q err)"
  shows "keeps lo (bnd m (\<lambda>(q, err). f q err))"
  unfolding keeps_def
proof (intro allI)
  fix h
  show "yields (above lo h) (bnd m (\<lambda>(q, err). f q err)) (\<lambda>_ _. True)"
    by (rule yields_bnd_result [OF spec [OF assms(1) [unfolded points_def]], where R = "\<lambda>_ _ _. True"])
      (auto simp: assms(2) [unfolded keeps_def, rule_format])
qed

lemma points_pointer:
  assumes "points lo m" and "\<And>q err. lo \<le> q \<Longrightarrow> points lo (f q err)"
  shows "points lo (bnd m (\<lambda>(q, err). f q err))"
  unfolding points_def
proof (intro allI)
  fix h
  show "yields (above lo h) (bnd m (\<lambda>(q, err). f q err)) (\<lambda>r _. \<forall>q err. r = Ret (q, err) \<longrightarrow> lo \<le> q)"
    by (rule yields_bnd_result [OF spec [OF assms(1) [unfolded points_def]],
          where R = "\<lambda>_ r _. \<forall>q err. r = Ret (q, err) \<longrightarrow> lo \<le> q"])
      (use assms(2) in \<open>auto simp: points_def\<close>)
qed

lemma keeps_alloc:
  assumes "\<And>q. lo \<le> q \<Longrightarrow> keeps lo (f q)"
  shows "keeps lo (bnd (alloc rc) f)"
  unfolding keeps_def
proof (intro allI)
  fix h
  have "yields (above lo h) (alloc rc) (\<lambda>r _. \<forall>q. r = Ret q \<longrightarrow> lo \<le> q)"
    by (rule yieldsI) (auto simp: above_def alloc_def)
  then show "yields (above lo h) (bnd (alloc rc) f) (\<lambda>_ _. True)"
    by (rule yields_bnd_result [where R = "\<lambda>_ _ _. True"]) (auto simp: assms [unfolded keeps_def, rule_format])
qed

lemma points_alloc: "points lo (bnd (alloc rc) (\<lambda>q. ret (q, err)))"
  unfolding points_def by (intro allI yieldsI) (auto simp: above_def bnd_def alloc_def ret_def)

lemma keeps_if [keeps_intros]: "(b \<Longrightarrow> keeps lo m) \<Longrightarrow> (\<not> b \<Longrightarrow> keeps lo n) \<Longrightarrow> keeps lo (if b then m else n)"
  by simp

lemma keeps_case_prod [keeps_intros]: "(\<And>a b. keeps lo (f a b)) \<Longrightarrow> keeps lo (case p of (a, b) \<Rightarrow> f a b)"
  by (simp split: prod.splits)

lemma keeps_case_option [keeps_intros]:
  "keeps lo m \<Longrightarrow> (\<And>x. keeps lo (f x)) \<Longrightarrow> keeps lo (case y of None \<Rightarrow> m | Some x \<Rightarrow> f x)"
  by (simp split: option.splits)

lemma keeps_case_list [keeps_intros]:
  "keeps lo m \<Longrightarrow> (\<And>x xs. keeps lo (f x xs)) \<Longrightarrow> keeps lo (case y of [] \<Rightarrow> m | x # xs \<Rightarrow> f x xs)"
  by (simp split: list.splits)

section \<open>Updating the status\<close>

lemma points_update: "points lo (redisClustersUpdate rco ns p)"
  unfolding redisClustersUpdate_def
  by (intro points_bnd keeps_quiet quiet_intros) (auto simp: split_def intro: points_bnd points_alloc keeps_quiet quiet_intros)

lemma points_writeStatus: "lo \<le> p \<Longrightarrow> points lo (writeStatus rco p st)"
proof -
  assume p: "lo \<le> p"
  have "points lo (bnd (store p rc) (\<lambda>_. bnd (redisClustersUpdate rco ns p) (\<lambda>(q, err).
      if err \<noteq> None then ret (q, Some (g err)) else ret (q, None))))" for rc ns g
    by (intro points_bnd keeps_store p points_pointer points_update) (simp add: points_ret)
  moreover have "points lo (bnd (store p rc) (\<lambda>_. ret (p, None)))" for rc
    by (intro points_bnd keeps_store points_ret p)
  ultimately have "points lo (if b then bnd (store p rc) (\<lambda>_. bnd (redisClustersUpdate rco ns p) (\<lambda>(q, err).
      if err \<noteq> None then ret (q, Some (g err)) else ret (q, None))) else bnd (store p rc') (\<lambda>_. ret (p, None)))"
    for b rc rc' ns g
    by (cases b) (simp_all only: if_True if_False)
  then show ?thesis
    unfolding writeStatus_def Let_def by (rule points_bnd [OF keeps_quiet [OF quiet_load]])
qed

lemma points_updateStatus: "lo \<le> p \<Longrightarrow> points lo (updateRedisClusterStatus rco p ep phase reason)"
  unfolding updateRedisClusterStatus_def
  by (intro points_bnd keeps_quiet quiet_intros)
    (auto split: sum.splits intro: points_ret points_writeStatus)

lemmas keeps_updateStatus [keeps_intros] = points_keeps [OF points_updateStatus]
lemmas keeps_updated [keeps_intros] = keeps_pointer [OF points_updateStatus]

lemma keeps_recordFailure [keeps_intros]: "lo \<le> p \<Longrightarrow> keeps lo (recordFailure rco p ep phase x err)"
  unfolding recordFailure_def by (intro keeps_bnd keeps_updateStatus keeps_quiet quiet_ret)

section \<open>Every handler\<close>

lemma quiet_scaleRedisCluster [quiet_intros]: "quiet (scaleRedisCluster rco p ep old)"
  unfolding scaleRedisCluster_def scaleFrom_def Let_def by (intro quiet_intros)

lemma keeps_assignSlots [keeps_intros]:
  assumes "lo \<le> p" and "\<And>rc ip r ids. quiet (distribute rc ip r ids)"
  shows "keeps lo (assignSlots rco p ep old distribute lastNamespace)"
  unfolding assignSlots_def
  by (intro keeps_intros keeps_bnd | rule assms(1) | (rule keeps_quiet, intro quiet_intros assms(2); fail))+

lemma keeps_upgradeRedisCluster [keeps_intros]: "lo \<le> p \<Longrightarrow> keeps lo (upgradeRedisCluster rco p old)"
  unfolding upgradeRedisCluster_def upgradeByStrategy_def autoAssignSlotToRedisCluster_def
    manualAssignSlotToRedisCluster_def Let_def
  by (assumption | (rule keeps_quiet, intro quiet_intros; fail) | rule keeps_intros quiet_intros | rule keeps_bnd)+

lemma keeps_createAndInit [keeps_intros]: "lo \<le> p \<Longrightarrow> keeps lo (createAndInitRedisCluster rco p)"
  unfolding createAndInitRedisCluster_def createFromEndpoints_def initFromEndpoints_def initMasterSlaves_def Let_def
  by (assumption | (rule keeps_quiet, intro quiet_intros; fail) | rule keeps_intros | rule keeps_bnd)+

lemma keeps_checkAndUpdate [keeps_intros]: "lo \<le> p \<Longrightarrow> keeps lo (checkAndUpdateRedisClusterStatus rco p)"
  unfolding checkAndUpdateRedisClusterStatus_def checkSettled_def noteClusterState_def repairCluster_def
    repairByPhase_def repairCreating_def repairScaling_def repairUpgrading_def repairWith_def joinInstances_def
    recordRunning_def finishUpgrade_def reassignSlots_def reshareEmpty_def Let_def
  by (assumption | (rule keeps_quiet, intro quiet_intros; fail) | rule keeps_intros | rule keeps_bnd)+

lemma quiet_objects [quiet_intros]:
  "quiet (servicesCreate rco ns svc)" "quiet (statefulSetsCreate rco ns sts)" "quiet (statefulSetsUpdate rco ns sts)"
  "quiet (getStatefulSetForRedisCluster rco p)" "quiet (redisClustersGet rco ns name)"
  unfolding servicesCreate_def statefulSetsCreate_def statefulSetsUpdate_def getStatefulSetForRedisCluster_def
    redisClustersGet_def
  by (intro quiet_intros)+

lemma keeps_buildStatefulset [keeps_intros]: "lo \<le> p \<Longrightarrow> keeps lo (buildRedisClusterStatefulset ns name p)"
  unfolding buildRedisClusterStatefulset_def Let_def
  by (assumption | (rule keeps_quiet, intro quiet_intros; fail) | rule keeps_intros | rule keeps_bnd)+

lemma keeps_syncCopy: "lo \<le> p \<Longrightarrow> keeps lo (syncCopy rco ns name p)"
  unfolding syncCopy_def firstCreation_def createService_def syncExisting_def upgradeExisting_def scaleUp_def Let_def
  by (assumption | (rule keeps_quiet, intro quiet_intros; fail) | rule keeps_intros | rule keeps_bnd)+



end
