(* ===== verification/UpgradePlans.thy ===== *)
theory UpgradePlans
  imports RepairPlans Isolation
begin

text \<open>
  What an upgrade does to the cluster: \<^verbatim>\<open>upgradeRedisCluster\<close> first grows the cluster along
  the plan of \<^verbatim>\<open>Plans\<close> and then distributes the slots, by one rebalancing or by one
  resharding for every new master, as the update strategy of the resource says.
\<close>

section \<open>The plan of an upgrade\<close>

definition distribution :: "RedisClusterUpdateStrategy \<Rightarrow> string \<Rightarrow> string list \<Rightarrow> string list list" where
  "distribution us ip ids =
     (if usType us = AutoReceiveStrategyType then [rebalanceCmd (pipelineOf (usPipeline us)) ip]
      else reshareCommands us ip ids)"

definition upgradePlan :: "RedisClusterUpdateStrategy \<Rightarrow> string \<Rightarrow> string list \<Rightarrow> string list \<Rightarrow> string list \<Rightarrow>
    string list list" where
  "upgradePlan us existIp masters slaves ids = scalePlan existIp masters slaves ids @ distribution us existIp ids"

definition upgradesBy :: "RedisClusterUpdateStrategy \<Rightarrow> string list \<Rightarrow> Endpoints \<Rightarrow> error outcome \<Rightarrow> event list \<Rightarrow> bool" where
  "upgradesBy us exist ep r evs \<longleftrightarrow> failsSilently r evs \<or>
     (\<exists>nodeInfos masters slaves parents ids.
        usType us \<in> {AutoReceiveStrategyType, AssignReceiveStrategyType} \<and>
        nodesRead (hd exist) nodeInfos evs \<and>
        buildWillAddClusterMasterSlaveIPs nodeInfos ep = Ret (masters, slaves, parents, None) \<and>
        prefix (clusterCommands evs) (upgradePlan us (hd exist) masters slaves ids) \<and>
        (r = Ret None \<longrightarrow> clusterCommands evs = upgradePlan us (hd exist) masters slaves ids \<and>
           length slaves = length masters \<and> length ids = length masters \<and>
           (\<exists>nodeInfos'. nodesRead (hd exist) nodeInfos' evs \<and> ids = nodeIdsContaining masters nodeInfos')))"

lemma upgradesBy_outcome:
  "upgradesBy us exist ep r evs \<Longrightarrow> (r' = Ret None \<longleftrightarrow> r = Ret None) \<Longrightarrow> upgradesBy us exist ep r' evs"
  by (simp add: upgradesBy_def failsSilently_def)

lemma failsSilently_after: "noCommands evs \<Longrightarrow> failsSilently r evs' \<Longrightarrow> failsSilently r (evs @ evs')"
  by (simp add: failsSilently_def noCommands_def)

lemma upgradesBy_after:
  assumes "noCommands evs" and "upgradesBy us exist ep r evs'"
  shows "upgradesBy us exist ep r (evs @ evs')"
  using assms unfolding upgradesBy_def failsSilently_def noCommands_def clusterCommands_append nodesRead_append
  by (simp only: append_Nil) blast

section \<open>Growing and distributing\<close>

text \<open>
  The part of \<open>assignSlots\<close> after the growing, for the resource that is at the pointer then;
  \<open>assignSlots\<close> reads that resource after the growing, which leaves the objects alone.
\<close>

definition distributeSlots :: "'w RedisClusterOperator \<Rightarrow> rcPtr \<Rightarrow> Endpoints \<Rightarrow> RedisCluster \<Rightarrow>
    (RedisCluster \<Rightarrow> string \<Rightarrow> ObjectReference \<Rightarrow> string list \<Rightarrow> (error, 'w) op) \<Rightarrow>
    (RedisCluster \<Rightarrow> ObjectReference \<Rightarrow> string) \<Rightarrow> string list \<Rightarrow> string list \<Rightarrow> (error, 'w) op" where
  "distributeSlots rco p ep rc distribute lastNamespace exist ids =
     (if epSubsets ep = None then ret (Some (subsetsNilErr rc))
      else
        bnd (lift (idx (subsetsOf ep) 0)) (\<lambda>addresses.
        bnd (lift (idx addresses 0)) (\<lambda>first.
        bnd (lift (idx exist 0)) (\<lambda>existIp.
        bnd (lift (deref (eaTargetRef first))) (\<lambda>r.
        bnd (distribute rc existIp r ids) (\<lambda>err.
        if err \<noteq> None then recordFailure rco p (Some ep) RedisClusterRunning err err
        else
          bnd (execClusterNodes rco existIp (lastNamespace rc r) (orName r)) (\<lambda>(_, err).
          if err \<noteq> None then ret err
          else
            bnd (updateRedisClusterStatus rco p (Some ep) RedisClusterRunning []) (\<lambda>_.
            ret None))))))))"

lemma bnd_quiet_cong:
  assumes "quiet m" and "\<And>x s'. syHeap s' = syHeap s \<Longrightarrow> f x s' = g x s'"
  shows "bnd m f s = bnd m g s"
proof -
  obtain r s' where m: "m s = (r, s')" by (cases "m s")
  show ?thesis
    using m assms(2) [of s'] quiet_heap [OF assms(1) m] by (cases r) (simp_all add: bnd_def)
qed

lemma assignSlots_run:
  "assignSlots rco p ep old distribute lastNamespace s =
     bnd (scaleRedisCluster rco p ep old) (\<lambda>(exist, ids, err).
       if err \<noteq> None then recordFailure rco p (Some ep) RedisClusterRunning err err
       else distributeSlots rco p ep (syHeap s p) distribute lastNamespace exist ids) s"
  unfolding assignSlots_def
  by (rule bnd_quiet_cong [OF quiet_scaleRedisCluster]) (simp add: fst_bnd_load distributeSlots_def split_beta cong: if_cong)

definition distributed :: "string list list \<Rightarrow> error outcome \<Rightarrow> event list \<Rightarrow> bool" where
  "distributed cmds r evs \<longleftrightarrow> prefix (clusterCommands evs) cmds \<and> (r = Ret None \<longrightarrow> clusterCommands evs = cmds)"

lemma yields_lastQuery:
  "emits noCommands (bnd (execClusterNodes rco ip ns pod) (\<lambda>(_, err).
     if err \<noteq> None then ret err
     else bnd (updateRedisClusterStatus rco p (Some ep) RedisClusterRunning []) (\<lambda>_. ret None)))"
  by (intro silent.emits_bnd silent.emits_case_prod silent.emits_if silent.emits_ret
      silent.emits_execClusterNodes silent.emits_updates)

lemma idx_hd: "idx xs 0 = Ret x \<Longrightarrow> x = hd xs"
  by (cases xs) simp_all

lemma yields_distribute:
  assumes "\<And>r. yields (\<lambda>_. True) (distribute rc (hd exist) r ids) (sendsAll cmds)"
  shows "yields (\<lambda>_. True) (distributeSlots rco p ep rc distribute lastNamespace exist ids) (distributed cmds)"
proof -
  have step: "yields (\<lambda>_. True) (bnd (distribute rc (hd exist) r ids) (\<lambda>err.
      if err \<noteq> None then recordFailure rco p (Some ep) RedisClusterRunning err err
      else bnd (execClusterNodes rco (hd exist) (lastNamespace rc r) (orName r)) (\<lambda>(_, err).
        if err \<noteq> None then ret err
        else bnd (updateRedisClusterStatus rco p (Some ep) RedisClusterRunning []) (\<lambda>_. ret None))))
      (distributed cmds)" for r
    by (rule yields_chain [where L = True and xs = cmds and Q = "\<lambda>_. noCommands"])
      (use assms yields_lastQuery [unfolded emits_def] in
        \<open>auto simp: distributed_def noCommands_def intro: yields_failed\<close>)
  show ?thesis
  proof (cases "epSubsets ep = None")
    case True
    then show ?thesis by (simp add: distributeSlots_def distributed_def yields_ret)
  next
    case False
    show ?thesis
      unfolding distributeSlots_def if_not_P [OF False]
      by (intro yields_bnd_lift) (use step in \<open>auto simp: distributed_def dest: idx_hd\<close>)
  qed
qed

text \<open>Distributing after a growth that succeeded, and ending after one that did not.\<close>

lemma grown_distributed:
  assumes "scalesBy exist ep (Ret (x, ids, None)) evs"
    and "distributed (distribution us (hd x) ids) r evs'"
    and "usType us \<in> {AutoReceiveStrategyType, AssignReceiveStrategyType}"
  shows "upgradesBy us exist ep r (evs @ evs')"
proof -
  obtain nodeInfos masters slaves parents where plan: "nodesRead (hd exist) nodeInfos evs"
    "buildWillAddClusterMasterSlaveIPs nodeInfos ep = Ret (masters, slaves, parents, None)"
    "x = exist" "clusterCommands evs = scalePlan (hd exist) masters slaves ids"
    "length slaves = length masters" "length ids = length masters"
    "\<exists>nodeInfos'. nodesRead (hd exist) nodeInfos' evs \<and> ids = nodeIdsContaining masters nodeInfos'"
    using assms(1) unfolding scalesBy_def by (simp, blast)
  have "prefix (clusterCommands (evs @ evs')) (upgradePlan us (hd exist) masters slaves ids)"
    "r = Ret None \<longrightarrow> clusterCommands (evs @ evs') = upgradePlan us (hd exist) masters slaves ids"
    using assms(2) unfolding plan(3) distributed_def clusterCommands_append plan(4) upgradePlan_def by simp_all
  then show ?thesis
    using plan(1,2,5,6,7) assms(3) unfolding upgradesBy_def nodesRead_append by blast
qed

lemma grown_stuck:
  assumes "scalesBy exist ep r evs" and "noCommands evs'" and "r' \<noteq> Ret None"
    and "usType us \<in> {AutoReceiveStrategyType, AssignReceiveStrategyType}"
  shows "upgradesBy us exist ep r' (evs @ evs')"
proof -
  consider "noCommands evs" | nodeInfos masters slaves parents ids where "nodesRead (hd exist) nodeInfos evs"
    "buildWillAddClusterMasterSlaveIPs nodeInfos ep = Ret (masters, slaves, parents, None)"
    "prefix (clusterCommands evs) (scalePlan (hd exist) masters slaves ids)"
    using assms(1) unfolding scalesBy_def by blast
  then show ?thesis
  proof cases
    case 1
    then show ?thesis using assms(2,3) by (simp add: upgradesBy_def failsSilently_def noCommands_def)
  next
    case 2
    have "prefix (clusterCommands (evs @ evs')) (upgradePlan us (hd exist) masters slaves ids)"
      using 2(3) assms(2) by (simp add: noCommands_def upgradePlan_def prefix_prefix)
    then show ?thesis
      using 2(1,2) assms(3,4) unfolding upgradesBy_def nodesRead_append by blast
  qed
qed

lemma yields_assign:
  assumes "\<And>ip r ids. yields (\<lambda>_. True) (distribute (syHeap s p) ip r ids) (sendsAll (distribution us ip ids))"
    and "usType us \<in> {AutoReceiveStrategyType, AssignReceiveStrategyType}"
  shows "\<exists>evs. syTrace (snd (assignSlots rco p ep old distribute lastNamespace s)) = syTrace s @ evs \<and>
     upgradesBy us (map eaIP (hd (subsetsOf old))) ep (fst (assignSlots rco p ep old distribute lastNamespace s)) evs"
  unfolding assignSlots_run
proof (rule yields_explicit, rule yields_bnd [OF yields_scaleRedisCluster])
  show "yields (\<lambda>_. True) (case x of (exist, ids, err) \<Rightarrow>
      if err \<noteq> None then recordFailure rco p (Some ep) RedisClusterRunning err err
      else distributeSlots rco p ep (syHeap s p) distribute lastNamespace exist ids)
      (\<lambda>r evs. if snd (snd x) \<noteq> None then failsSilently r evs
        else distributed (distribution us (hd (fst x)) (fst (snd x))) r evs)" for x
    using assms(1) by (cases x) (auto intro: yields_failed yields_distribute)
next
  fix x r evs evs'
  assume grown: "scalesBy (map eaIP (hd (subsetsOf old))) ep (Ret x) evs"
    and rest: "if snd (snd x) \<noteq> None then failsSilently r evs'
        else distributed (distribution us (hd (fst x)) (fst (snd x))) r evs'"
  obtain exist ids err where x: "x = (exist, ids, err)" by (cases x)
  show "upgradesBy us (map eaIP (hd (subsetsOf old))) ep r (evs @ evs')"
    using grown rest grown_distributed [OF _ _ assms(2)] grown_stuck [OF grown _ _ assms(2)]
    unfolding x by (cases err) (simp_all add: failsSilently_def)
qed (use grown_stuck [where evs' = "[]", OF _ _ _ assms(2)] in \<open>simp_all add: noCommands_def\<close>)

section \<open>The handlers follow the plan\<close>

text \<open>The trace and the outcome of one run.\<close>

definition leaves :: "'w sys \<Rightarrow> 'a outcome \<times> 'w sys \<Rightarrow> ('a outcome \<Rightarrow> event list \<Rightarrow> bool) \<Rightarrow> bool" where
  "leaves s run Q \<longleftrightarrow> (\<exists>evs. syTrace (snd run) = syTrace s @ evs \<and> Q (fst run) evs)"

lemma leaves_wrapped:
  assumes "leaves s (m s) (upgradesBy us exist ep)" and "\<And>err. g err = None \<longleftrightarrow> err = None"
  shows "leaves s (bnd m (\<lambda>err. ret (g err)) s) (upgradesBy us exist ep)"
proof -
  obtain r s' where m: "m s = (r, s')" by (cases "m s")
  have same: "upgradesBy us exist ep (Ret (g err)) evs \<longleftrightarrow> upgradesBy us exist ep (Ret err) evs" for err evs
    using assms(2) by (simp add: upgradesBy_def failsSilently_def)
  show ?thesis
    using assms(1) unfolding leaves_def m by (cases r) (simp_all add: bnd_def m ret_def same)
qed

lemma upgradeByStrategy_run:
  "leaves s (upgradeByStrategy rco p q ep old s)
     (upgradesBy (spUpdateStrategy (rcSpec (syHeap s q))) (map eaIP (hd (subsetsOf old))) ep)"
proof -
  let ?us = "spUpdateStrategy (rcSpec (syHeap s q))"
  have auto: "leaves s (autoAssignSlotToRedisCluster rco ep q old s) (upgradesBy ?us (map eaIP (hd (subsetsOf old))) ep)"
    if "usType ?us = AutoReceiveStrategyType"
    unfolding autoAssignSlotToRedisCluster_def leaves_def
    by (rule yields_assign) (use that rebalance_sendsAll in \<open>simp_all add: distribution_def\<close>)
  have manual: "leaves s (manualAssignSlotToRedisCluster rco ep q old s) (upgradesBy ?us (map eaIP (hd (subsetsOf old))) ep)"
    if "usType ?us = AssignReceiveStrategyType" "usType ?us \<noteq> AutoReceiveStrategyType"
    unfolding manualAssignSlotToRedisCluster_def leaves_def
    by (rule yields_assign) (use that reshare_sendsAll in \<open>simp_all add: distribution_def\<close>)
  consider "usType ?us = AutoReceiveStrategyType"
    | "usType ?us = AssignReceiveStrategyType" "usType ?us \<noteq> AutoReceiveStrategyType"
    | "usType ?us \<noteq> AutoReceiveStrategyType" "usType ?us \<noteq> AssignReceiveStrategyType" by blast
  then show ?thesis
  proof cases
    case 1
    show ?thesis
      using leaves_wrapped [where m = "autoAssignSlotToRedisCluster rco ep q old", OF auto [OF 1]] 1
      by (simp add: upgradeByStrategy_def fst_bnd_load wrapError_def)
  next
    case 2
    show ?thesis
      using leaves_wrapped [where m = "manualAssignSlotToRedisCluster rco ep q old", OF manual [OF 2]] 2
      by (simp add: upgradeByStrategy_def fst_bnd_load wrapError_def)
  next
    case 3
    then show ?thesis
      by (simp add: upgradeByStrategy_def fst_bnd_load leaves_def ret_def upgradesBy_def failsSilently_def noCommands_def)
  qed
qed

text \<open>
  The whole upgrade: what the pods' check and the status update answered determines the endpoints
  and the resource whose strategy is followed.
\<close>

definition upgradesFrom :: "'w RedisClusterOperator \<Rightarrow> rcPtr \<Rightarrow> Endpoints \<Rightarrow> 'w sys \<Rightarrow> error outcome \<Rightarrow> event list \<Rightarrow>
    bool" where
  "upgradesFrom rco p old s r evs \<longleftrightarrow> failsSilently r evs \<or>
     (\<exists>ep0 s1 q s2 ep old'.
        checkPodInstanceIsReadyByEndpoint rco p s = (Ret (Some ep0, None), s1) \<and>
        updateRedisClusterStatus rco p None RedisClusterUpgrading [] s1 = (Ret (q, None), s2) \<and>
        sortEndpointsByPodName [Some ep0, Some old] = Ret [Some ep, Some old'] \<and>
        upgradesBy (spUpdateStrategy (rcSpec (syHeap s2 q))) (map eaIP (hd (subsetsOf old'))) ep r evs)"

lemma upgradesFrom_after: "noCommands evs \<Longrightarrow> upgradesFrom rco p old s r evs' \<Longrightarrow> upgradesFrom rco p old s r (evs @ evs')"
  unfolding upgradesFrom_def using upgradesBy_after failsSilently_after by blast

lemma sorted_pair:
  assumes "sortEndpointsByPodName [e, Some old] = Ret eps"
    and "deref (eps ! 0) = Ret ep" and "deref (eps ! 1) = Ret old'"
  shows "\<exists>ep0. e = Some ep0 \<and> eps = [Some ep, Some old']"
proof (cases e)
  case (Some ep0)
  then show ?thesis
    using assms by (cases "subsetsOf ep0"; cases "subsetsOf old") (auto simp: obnd_Ret_iff)
qed (use assms in auto)

lemma leaves_bnd_silent:
  assumes "emits noCommands m" and "m s = (Ret x, s')" and "leaves s' (f x s') Q"
    and "\<And>r evs evs'. noCommands evs \<Longrightarrow> Q r evs' \<Longrightarrow> R r (evs @ evs')"
  shows "leaves s (bnd m f s) R"
proof -
  obtain evs where evs: "syTrace s' = syTrace s @ evs" "noCommands evs"
    using emits_trace [OF assms(1,2)] .
  obtain evs' where "syTrace (snd (f x s')) = syTrace s' @ evs'" "Q (fst (f x s')) evs'"
    using assms(3) unfolding leaves_def by blast
  then show ?thesis
    using evs assms(4) unfolding leaves_def
    by (intro exI [of _ "evs @ evs'"]) (simp add: bnd_Ret assms(2))
qed

lemma leaves_bnd_stuck:
  assumes "emits noCommands m" and "\<And>x. fst (m s) \<noteq> Ret x"
  shows "leaves s (bnd m f s) failsSilently"
proof -
  obtain r s' where m: "m s = (r, s')" by (cases "m s")
  obtain evs where "syTrace s' = syTrace s @ evs" "noCommands evs"
    using emits_trace [OF assms(1) m] .
  then show ?thesis
    using assms(2) m unfolding leaves_def by (cases r) (auto simp: bnd_def failsSilently_def)
qed

lemma yields_leaves: "yields (\<lambda>_. True) m Q \<Longrightarrow> leaves s (m s) Q"
  by (simp add: leaves_def yields_explicit)

lemma leaves_mono: "leaves s run Q \<Longrightarrow> (\<And>r evs. Q r evs \<Longrightarrow> R r evs) \<Longrightarrow> leaves s run R"
  unfolding leaves_def by blast

lemma leaves_stop: "leaves s (ret (Some e) s) failsSilently" "leaves s (lift Panic s) failsSilently"
    "leaves s (lift Diverge s) failsSilently"
  by (simp_all add: leaves_def ret_def lift_def failsSilently_def noCommands_def)

text \<open>The last part of the upgrade, with the endpoints and the resource that it was left with.\<close>

definition upgradeSwitch :: "'w RedisClusterOperator \<Rightarrow> rcPtr \<Rightarrow> Endpoints \<Rightarrow> Endpoints option \<Rightarrow> rcPtr \<Rightarrow>
    (error, 'w) op" where
  "upgradeSwitch rco p old ep0 q =
     bnd (lift (sortEndpointsByPodName [ep0, Some old])) (\<lambda>eps.
     bnd (lift (deref (eps ! 0))) (\<lambda>ep. bnd (lift (deref (eps ! 1))) (\<lambda>old'. upgradeByStrategy rco p q ep old')))"

lemma bnd_lift: "bnd (lift (Ret x)) f s = f x s" "bnd (lift Panic) f s = lift Panic s" "bnd (lift Diverge) f s = lift Diverge s"
  by (simp_all add: bnd_def lift_def)

lemma upgradeSwitch_run:
  "leaves s (upgradeSwitch rco p old ep0 q s) (\<lambda>r evs. failsSilently r evs \<or> (\<exists>ep0' ep old'. ep0 = Some ep0' \<and>
     sortEndpointsByPodName [Some ep0', Some old] = Ret [Some ep, Some old'] \<and>
     upgradesBy (spUpdateStrategy (rcSpec (syHeap s q))) (map eaIP (hd (subsetsOf old'))) ep r evs))"
  (is "leaves s _ ?Q")
proof (cases "\<exists>eps ep old'. sortEndpointsByPodName [ep0, Some old] = Ret eps \<and> deref (eps ! 0) = Ret ep \<and>
    deref (eps ! 1) = Ret old'")
  case True
  then obtain eps ep old' where e: "sortEndpointsByPodName [ep0, Some old] = Ret eps" "deref (eps ! 0) = Ret ep"
    "deref (eps ! 1) = Ret old'" by blast
  then obtain ep0' where two: "ep0 = Some ep0'" "eps = [Some ep, Some old']"
    using sorted_pair by blast
  have "leaves s (upgradeByStrategy rco p q ep old' s) ?Q"
    by (rule leaves_mono [OF upgradeByStrategy_run]) (use e(1) two in blast)
  then show ?thesis
    unfolding upgradeSwitch_def bnd_lift e .
next
  case False
  have "leaves s (upgradeSwitch rco p old ep0 q s) failsSilently"
  proof (cases "sortEndpointsByPodName [ep0, Some old]")
    case (Ret eps)
    then show ?thesis
      using False leaves_stop(2,3) by (cases "deref (eps ! 0)"; cases "deref (eps ! 1)") (simp_all add: upgradeSwitch_def bnd_lift)
  qed (simp_all add: upgradeSwitch_def bnd_lift leaves_stop)
  then show ?thesis by (rule leaves_mono) simp
qed

lemma upgradeRedisCluster_run: "leaves s (upgradeRedisCluster rco p old s) (upgradesFrom rco p old s)"
proof (cases "subsetsOf old = [] \<or> hd (subsetsOf old) = []")
  case True
  then show ?thesis
    by (simp add: upgradeRedisCluster_def fst_bnd_load leaves_def ret_def upgradesFrom_def failsSilently_def
        noCommands_def)
next
  case False
  have fails: "leaves s run failsSilently \<Longrightarrow> leaves s run (upgradesFrom rco p old s)" for run
    by (erule leaves_mono) (simp add: upgradesFrom_def)
  have check: "emits noCommands (checkPodInstanceIsReadyByEndpoint rco p)" by (rule silent.emits_checkPods)
  have update: "emits noCommands (updateRedisClusterStatus rco p None RedisClusterUpgrading [])"
    by (rule silent.emits_updates)
  have unfolded: "upgradeRedisCluster rco p old s =
      bnd (checkPodInstanceIsReadyByEndpoint rco p) (\<lambda>(ep0, err).
      if err \<noteq> None then recordFailure rco p ep0 RedisClusterRunning err err
      else bnd (updateRedisClusterStatus rco p None RedisClusterUpgrading []) (\<lambda>(q, err).
        if err \<noteq> None then ret err else upgradeSwitch rco p old ep0 q)) s"
    unfolding upgradeRedisCluster_def fst_bnd_load if_not_P [OF False] upgradeSwitch_def ..
  obtain r1 s1 where s1: "checkPodInstanceIsReadyByEndpoint rco p s = (r1, s1)"
    by (cases "checkPodInstanceIsReadyByEndpoint rco p s")
  obtain r2 s2 where s2: "updateRedisClusterStatus rco p None RedisClusterUpgrading [] s1 = (r2, s2)"
    by (cases "updateRedisClusterStatus rco p None RedisClusterUpgrading [] s1")
  consider "\<And>x. r1 \<noteq> Ret x" | ep0 err where "r1 = Ret (ep0, Some err)"
    | ep0 where "r1 = Ret (ep0, None)" "\<And>x. r2 \<noteq> Ret x"
    | ep0 q err where "r1 = Ret (ep0, None)" "r2 = Ret (q, Some err)"
    | ep0 q where "r1 = Ret (ep0, None)" "r2 = Ret (q, None)"
    by (metis option.exhaust surj_pair)
  then show ?thesis
  proof cases
    case 1
    then show ?thesis
      using s1 unfolding unfolded by (intro fails leaves_bnd_stuck [OF check]) simp
  next
    case 2
    show ?thesis
      unfolding unfolded by (rule fails, rule leaves_bnd_silent [OF check s1 [unfolded 2], where Q = failsSilently])
        (auto intro: yields_leaves yields_failed failsSilently_after)
  next
    case 3
    then have "leaves s1 (bnd (updateRedisClusterStatus rco p None RedisClusterUpgrading []) (\<lambda>(q, err).
        if err \<noteq> None then ret err else upgradeSwitch rco p old ep0 q) s1) failsSilently"
      using s2 by (intro leaves_bnd_stuck [OF update]) simp
    then show ?thesis
      unfolding unfolded by (intro fails leaves_bnd_silent [OF check s1 [unfolded 3(1)], where Q = failsSilently]) (simp_all add: failsSilently_after)
  next
    case 4
    have "leaves s1 (bnd (updateRedisClusterStatus rco p None RedisClusterUpgrading []) (\<lambda>(q, err).
        if err \<noteq> None then ret err else upgradeSwitch rco p old ep0 q) s1) failsSilently"
      by (rule leaves_bnd_silent [OF update s2 [unfolded 4(2)], where Q = failsSilently]) (simp_all add: leaves_stop failsSilently_after)
    then show ?thesis
      unfolding unfolded by (intro fails leaves_bnd_silent [OF check s1 [unfolded 4(1)], where Q = failsSilently]) (simp_all add: failsSilently_after)
  next
    case 5
    have after: "upgradesFrom rco p old s r (evs @ evs')" if "noCommands evs" "failsSilently r evs' \<or>
        (\<exists>ep0' ep old'. ep0 = Some ep0' \<and> sortEndpointsByPodName [Some ep0', Some old] = Ret [Some ep, Some old'] \<and>
          upgradesBy (spUpdateStrategy (rcSpec (syHeap s2 q))) (map eaIP (hd (subsetsOf old'))) ep r evs')"
      for r evs evs'
      using that s1 s2 5 failsSilently_after upgradesBy_after unfolding upgradesFrom_def by metis
    have "leaves s1 (bnd (updateRedisClusterStatus rco p None RedisClusterUpgrading []) (\<lambda>(q, err).
        if err \<noteq> None then ret err else upgradeSwitch rco p old ep0 q) s1) (upgradesFrom rco p old s)"
    proof (rule leaves_bnd_silent [OF update s2 [unfolded 5(2)]])
      show "leaves s2 ((\<lambda>(q, err). if err \<noteq> None then ret err else upgradeSwitch rco p old ep0 q) (q, None) s2)
          (\<lambda>r evs. failsSilently r evs \<or> (\<exists>ep0' ep old'. ep0 = Some ep0' \<and>
             sortEndpointsByPodName [Some ep0', Some old] = Ret [Some ep, Some old'] \<and>
             upgradesBy (spUpdateStrategy (rcSpec (syHeap s2 q))) (map eaIP (hd (subsetsOf old'))) ep r evs))"
        unfolding prod.case by (simp only: simp_thms if_False upgradeSwitch_run)
    qed (rule after)
    then show ?thesis
      unfolding unfolded by (intro leaves_bnd_silent [OF check s1 [unfolded 5(1)], where Q = "upgradesFrom rco p old s"]) (auto intro: upgradesFrom_after)
  qed
qed

text \<open>
  C8: an upgrade follows a plan. The commands that \<open>upgradeRedisCluster\<close> sends are none, without
  success, or an initial part of: add-node for every new master, add-node --slave for every new
  slave, and then the distribution of the slots, which is one rebalancing under AutoReceive and one
  resharding per new master under AssignReceive. The new masters and slaves come from a node table
  read from the first old instance, the endpoints from the check of the pods, both sorted by pod name,
  and the strategy from the resource that the status update left. On success the whole plan was sent,
  with a slave for every master and the masters' node ids as a second table shows them.
\<close>

theorem upgradeRedisCluster_plan:
  "\<exists>evs. syTrace (snd (upgradeRedisCluster rco p old s)) = syTrace s @ evs \<and>
     upgradesFrom rco p old s (fst (upgradeRedisCluster rco p old s)) evs"
  using upgradeRedisCluster_run [of s rco p old] by (simp add: leaves_def)

section \<open>Every look at a cluster\<close>

text \<open>
  What the check of a cluster may do to it: nothing, the creation of a cluster, an upgrade, or the joining of
  the missing instances followed by commands that move slots.
\<close>

definition slotCommands :: "string \<Rightarrow> string list list \<Rightarrow> bool" where
  "slotCommands existIp extra \<longleftrightarrow> extra = [] \<or> (\<exists>pl. extra = [rebalanceCmd pl existIp]) \<or>
     (\<exists>us ids. extra = reshareCommands us existIp ids)"

definition followsPlan :: "error outcome \<Rightarrow> event list \<Rightarrow> bool" where
  "followsPlan r evs \<longleftrightarrow> noCommands evs \<or> (\<exists>rc. createsBy rc r evs) \<or> (\<exists>us exist ep. upgradesBy us exist ep r evs) \<or>
     (\<exists>existIp ep extra. slotCommands existIp extra \<and> joinsBy existIp ep extra r evs)"

lemma joinsBy_after:
  assumes "noCommands evs" and "joinsBy existIp ep extra r evs'"
  shows "joinsBy existIp ep extra r (evs @ evs')"
  using assms unfolding joinsBy_def failsSilently_def noCommands_def clusterCommands_append nodesRead_append
  by (simp only: append_Nil) blast

lemma followsPlan_after: "noCommands evs \<Longrightarrow> followsPlan r evs' \<Longrightarrow> followsPlan r (evs @ evs')"
  unfolding followsPlan_def
  using createsBy_after upgradesBy_after joinsBy_after by (metis clusterCommands_append noCommands_def append_Nil)

lemma followsPlan_silent: "noCommands evs \<Longrightarrow> followsPlan r evs"
  by (simp add: followsPlan_def)

named_theorems plan_intros \<open>code whose commands follow a plan\<close>

lemma plan_bnd [plan_intros]:
  assumes "emits noCommands m" and "\<And>x. yields (\<lambda>_. True) (f x) followsPlan"
  shows "yields (\<lambda>_. True) (bnd m f) followsPlan"
  by (rule yields_bnd [OF assms(1) [unfolded emits_def] assms(2)])
    (auto intro: followsPlan_after followsPlan_silent)

lemma plan_silent: "emits noCommands m \<Longrightarrow> yields (\<lambda>_. True) m followsPlan"
  unfolding emits_def by (erule yields_mono) (rule followsPlan_silent)

lemma plan_if [plan_intros]:
  "(b \<Longrightarrow> yields (\<lambda>_. True) m followsPlan) \<Longrightarrow> (\<not> b \<Longrightarrow> yields (\<lambda>_. True) n followsPlan) \<Longrightarrow>
   yields (\<lambda>_. True) (if b then m else n) followsPlan"
  by simp

lemma plan_case_prod [plan_intros]:
  "(\<And>a b. yields (\<lambda>_. True) (f a b) followsPlan) \<Longrightarrow> yields (\<lambda>_. True) (case x of (a, b) \<Rightarrow> f a b) followsPlan"
  by (cases x) simp

lemma plan_case_option [plan_intros]:
  "yields (\<lambda>_. True) m followsPlan \<Longrightarrow> (\<And>x. yields (\<lambda>_. True) (f x) followsPlan) \<Longrightarrow>
   yields (\<lambda>_. True) (case y of None \<Rightarrow> m | Some x \<Rightarrow> f x) followsPlan"
  by (cases y) simp_all

lemma plan_create [plan_intros]: "yields (\<lambda>_. True) (createAndInitRedisCluster rco p) followsPlan"
  by (rule yields_mono [OF yields_createAndInit]) (simp add: followsPlan_def)

lemma plan_upgrade [plan_intros]: "yields (\<lambda>_. True) (upgradeRedisCluster rco p old) followsPlan"
proof -
  have "followsPlan r evs" if "upgradesFrom rco p old s r evs" for s r evs
    using that unfolding upgradesFrom_def followsPlan_def failsSilently_def by blast
  then show ?thesis
    using upgradeRedisCluster_run unfolding yields_def leaves_def by blast
qed

lemma plan_repairWith:
  "(\<And>c os. yields (\<lambda>_. True) (cont c os) followsPlan) \<Longrightarrow> yields (\<lambda>_. True) (repairWith rco p ep addresses cont) followsPlan"
  unfolding repairWith_def
  by (intro plan_intros silent.emits_classify silent.emits_load silent.emits_lift)
    (auto intro: plan_silent silent.emits_bnd silent.emits_updates silent.emits_ret)

text \<open>Moving slots at the end of an upgrade that is taken up again.\<close>

definition movesSlots :: "string \<Rightarrow> error outcome \<Rightarrow> event list \<Rightarrow> bool" where
  "movesSlots existIp r evs \<longleftrightarrow> (\<exists>extra. slotCommands existIp extra \<and> prefix (clusterCommands evs) extra \<and>
     (r = Ret None \<longrightarrow> clusterCommands evs = extra))"

lemma movesSlots_sent:
  "slotCommands existIp cmds \<Longrightarrow> yields (\<lambda>_. True) m (sendsAll cmds) \<Longrightarrow> yields (\<lambda>_. True) m (movesSlots existIp)"
  by (rule yields_mono, assumption) (auto simp: movesSlots_def sendsAll_def)

lemma movesSlots_silent: "noCommands evs \<Longrightarrow> movesSlots existIp r evs"
  by (auto simp: movesSlots_def slotCommands_def noCommands_def)

lemma movesSlots_after: "noCommands evs \<Longrightarrow> movesSlots existIp r evs' \<Longrightarrow> movesSlots existIp r (evs @ evs')"
  by (simp add: movesSlots_def noCommands_def)

lemma movesSlots_bnd:
  assumes "emits noCommands m" and "\<And>x. yields (\<lambda>_. True) (f x) (movesSlots existIp)"
  shows "yields (\<lambda>_. True) (bnd m f) (movesSlots existIp)"
  by (rule yields_bnd [OF assms(1) [unfolded emits_def] assms(2)])
    (auto intro: movesSlots_after movesSlots_silent)

lemma yields_reassignSlots: "yields (\<lambda>_. True) (reassignSlots rco rc ip r) (movesSlots ip)"
proof -
  have stop: "yields (\<lambda>_. True) (ret err) (movesSlots ip)" for err :: error
    by (rule yields_ret, rule movesSlots_silent) (simp add: noCommands_def)
  have reshare: "yields (\<lambda>_. True) (reshareRedisClusterSlotsToMasterNode rco us ip pod ns ids) (movesSlots ip)" for us pod ns ids
    by (rule movesSlots_sent [OF _ reshare_sendsAll]) (auto simp: slotCommands_def)
  have "yields (\<lambda>_. True) (reshareEmpty rco rc ips ip r) (movesSlots ip)" for ips
    unfolding reshareEmpty_def Let_def
    by (auto intro!: stop reshare movesSlots_bnd silent.emits_execClusterNodes split: prod.splits)
  then show ?thesis
    unfolding reassignSlots_def Let_def
    by (auto intro!: stop movesSlots_bnd silent.emits_execRedisTribInfo split: prod.splits)
qed

lemma yields_finishUpgrade: "yields (\<lambda>_. True) (finishUpgrade rco p ep ip r) (movesSlots ip)"
proof -
  have done': "yields (\<lambda>_. True) (recordRunning rco p ep) (\<lambda>_. noCommands)"
    unfolding recordRunning_def emits_def [symmetric]
    by (intro silent.emits_bnd silent.emits_updates silent.emits_case_prod silent.emits_ret)
  have noted: "yields (\<lambda>_. True) (bnd m (\<lambda>err. if err \<noteq> None then recordFailure rco p (Some ep) RedisClusterRunning err err
      else recordRunning rco p ep)) (movesSlots ip)" if "yields (\<lambda>_. True) m (movesSlots ip)" for m
  proof (rule yields_bnd [OF that])
    show "yields (\<lambda>_. True) (if err \<noteq> None then recordFailure rco p (Some ep) RedisClusterRunning err err
        else recordRunning rco p ep) (\<lambda>r evs. if err \<noteq> None then failsSilently r evs else noCommands evs)" for err
      using done' by (auto intro: yields_failed)
  next
    fix err r evs evs'
    assume "movesSlots ip (Ret err) evs" and "if err \<noteq> None then failsSilently r evs' else noCommands evs'"
    then show "movesSlots ip r (evs @ evs')"
      by (cases err) (auto simp: movesSlots_def failsSilently_def noCommands_def)
  qed (auto simp: movesSlots_def)
  have rebalance: "yields (\<lambda>_. True) (rebalanceRedisClusterSlotsToMasterNode rco ip pod ns pl) (movesSlots ip)" for pod ns pl
    by (rule movesSlots_sent [OF _ rebalance_sendsAll]) (auto simp: slotCommands_def)
  have stop: "yields (\<lambda>_. True) (ret (Some e)) (movesSlots ip)" for e :: gerr
    by (rule yields_ret, rule movesSlots_silent) (simp add: noCommands_def)
  show ?thesis
    unfolding finishUpgrade_def Let_def
  proof (intro movesSlots_bnd silent.emits_load)
    fix rc :: RedisCluster
    let ?us = "spUpdateStrategy (rcSpec rc)"
    let ?slots = "if usType ?us = AutoReceiveStrategyType
      then rebalanceRedisClusterSlotsToMasterNode rco ip (orName r) (orNamespace r) (usPipeline ?us)
      else reassignSlots rco rc ip r"
    have "yields (\<lambda>_. True) ?slots (movesSlots ip)"
      by (auto intro: rebalance yields_reassignSlots)
    then show "yields (\<lambda>_. True) (if usType ?us = AutoReceiveStrategyType \<or> usType ?us = AssignReceiveStrategyType
        then bnd ?slots (\<lambda>err. if err \<noteq> None then recordFailure rco p (Some ep) RedisClusterRunning err err
          else recordRunning rco p ep)
        else ret (Some (Err ''latestRedisCluster UpdateStrategy Type only [AutoReceive, AssignReceive] error'')))
        (movesSlots ip)"
      by (cases "usType ?us = AutoReceiveStrategyType \<or> usType ?us = AssignReceiveStrategyType")
        (simp_all only: if_True if_False noted stop)
  qed
qed

lemma joinsBy_moves:
  assumes "joinsBy existIp ep [] (Ret None) evs" and "movesSlots existIp r evs'"
  shows "\<exists>extra. slotCommands existIp extra \<and> joinsBy existIp ep extra r (evs @ evs')"
proof -
  obtain nodeInfos masters slaves parents err ids where joined: "nodesRead existIp nodeInfos evs"
    "buildWillAddClusterMasterSlaveIPs nodeInfos ep = Ret (masters, slaves, parents, err)"
    "clusterCommands evs = joinPlan existIp masters slaves parents ids"
    "slaves \<noteq> [] \<longrightarrow> length slaves = length parents \<and> length ids = length parents"
    "\<exists>nodeInfos'. nodesRead existIp nodeInfos' evs \<and> ids = nodeIdsAt parents nodeInfos'"
    using assms(1) unfolding joinsBy_def failsSilently_def append_Nil2 by blast
  obtain extra where extra: "slotCommands existIp extra" "prefix (clusterCommands evs') extra"
    "r = Ret None \<longrightarrow> clusterCommands evs' = extra"
    using assms(2) unfolding movesSlots_def by blast
  have "prefix (clusterCommands (evs @ evs')) (joinPlan existIp masters slaves parents ids @ extra)"
    "r = Ret None \<longrightarrow> clusterCommands (evs @ evs') = joinPlan existIp masters slaves parents ids @ extra"
    unfolding clusterCommands_append joined(3) same_prefix_prefix same_append_eq using extra(2,3) by blast+
  then show ?thesis
    using joined(1,2,4,5) extra(1) unfolding joinsBy_def nodesRead_append by blast
qed

lemma followsPlan_joined: "joinsBy existIp ep [] r evs \<Longrightarrow> followsPlan r evs"
  unfolding followsPlan_def slotCommands_def by blast

lemma followsPlan_moved:
  "joinsBy existIp ep [] (Ret None) evs \<Longrightarrow> movesSlots existIp r evs' \<Longrightarrow> followsPlan r (evs @ evs')"
  using joinsBy_moves unfolding followsPlan_def by blast

text \<open>Joining the instances and then moving slots, for either way to note a failure.\<close>

lemma plan_join:
  assumes "recordsFailure rco p ep phase" and "\<And>r. yields (\<lambda>_. True) (f r) (movesSlots existIp)"
  shows "yields (\<lambda>_. True) (bnd (joinInstances rco p ep phase existIp cr reference) (\<lambda>err.
     if err \<noteq> None then ret err else bnd (lift (deref reference)) f)) followsPlan"
proof (rule yields_bnd [OF yields_joinInstances [OF assms(1)]])
  have "yields (\<lambda>_. True) (bnd (lift (deref reference)) f) (movesSlots existIp)"
    by (intro movesSlots_bnd silent.emits_lift assms(2))
  then show "yields (\<lambda>_. True) (if err \<noteq> None then ret err else bnd (lift (deref reference)) f)
      (\<lambda>r evs. if err \<noteq> None then evs = [] \<and> r = Ret err else movesSlots existIp r evs)" for err
    by (cases "err = None") (simp_all add: yields_ret)
next
  fix err r evs evs'
  assume "joinsBy existIp ep [] (Ret err) evs" and "if err \<noteq> None then evs' = [] \<and> r = Ret err else movesSlots existIp r evs'"
  then show "followsPlan r (evs @ evs')"
    by (cases err) (simp_all add: followsPlan_joined followsPlan_moved)
qed (rule followsPlan_joined, assumption)+

lemma plan_repairCreating [plan_intros]: "yields (\<lambda>_. True) (repairCreating rco p ep addresses) followsPlan"
proof -
  have "followsPlan r evs" if "creationRepairedBy ep r evs" for r evs
    using that unfolding creationRepairedBy_def followsPlan_def failsSilently_def slotCommands_def by blast
  then show ?thesis
    by (rule yields_mono [OF yields_repairCreating])
qed

lemma plan_repairScaling [plan_intros]: "yields (\<lambda>_. True) (repairScaling rco p ep addresses) followsPlan"
  unfolding repairScaling_def
  by (intro plan_repairWith plan_intros silent.emits_load silent.emits_lift)

lemma plan_repairUpgrading [plan_intros]: "yields (\<lambda>_. True) (repairUpgrading rco p ep addresses) followsPlan"
proof -
  have fails: "recordsFailure rco p ep RedisClusterRunning" by (simp add: yields_failed)
  show ?thesis
    unfolding repairUpgrading_def
    by (intro plan_repairWith plan_intros silent.emits_load silent.emits_lift plan_join fails yields_finishUpgrade)
qed

lemma plan_checkAndUpdate: "yields (\<lambda>_. True) (checkAndUpdateRedisClusterStatus rco p) followsPlan"
proof -
  have stop: "yields (\<lambda>_. True) (ret err) followsPlan" for err
    by (intro plan_silent silent.emits_ret)
  have byPhase: "yields (\<lambda>_. True) (repairByPhase rco p ep) followsPlan" for ep
    unfolding repairByPhase_def Let_def by (intro plan_intros silent.emits_load silent.emits_lift stop)
  have "yields (\<lambda>_. True) (repairCluster rco p) followsPlan"
    unfolding repairCluster_def
    by (intro plan_intros byPhase silent.emits_checkPods silent.emits_load silent.emits_lift stop
        plan_silent [OF silent.emits_recordFailure(2)])
  then show ?thesis
    unfolding checkAndUpdateRedisClusterStatus_def
    by (intro plan_intros silent.emits_load silent.emits_lift plan_silent [OF emits_checkSettled_silent])
qed

text \<open>
  Every look at a cluster follows a plan: \<open>checkAndUpdateRedisClusterStatus\<close> sends no command, or those of a
  creation or of an upgrade, or those that join the missing instances and then move slots.
\<close>

theorem checkAndUpdateRedisClusterStatus_plan:
  "\<exists>evs. syTrace (snd (checkAndUpdateRedisClusterStatus rco p s)) = syTrace s @ evs \<and>
     followsPlan (fst (checkAndUpdateRedisClusterStatus rco p s)) evs"
  by (rule yields_explicit [OF plan_checkAndUpdate])

section \<open>Every pass\<close>

lemma silent_objects:
  "emits noCommands (servicesCreate rco ns svc)" "emits noCommands (statefulSetsCreate rco ns sts)"
  "emits noCommands (statefulSetsUpdate rco ns sts)"
  unfolding servicesCreate_def statefulSetsCreate_def statefulSetsUpdate_def
  by (rule silent.emits_call, simp add: noCommands_def clusterCommands_def event_class_simps)+

lemma silent_parts:
  "emits noCommands (createService rco ns name q)" "emits noCommands (buildRedisClusterStatefulset ns name q)"
  "emits noCommands (getStatefulSetForRedisCluster rco p)" "emits noCommands (redisClustersGet rco ns name)"
  unfolding createService_def buildRedisClusterStatefulset_def getStatefulSetForRedisCluster_def redisClustersGet_def Let_def
  by (intro emits_intros silent_objects)+

lemma plan_parts [plan_intros]:
  "yields (\<lambda>_. True) (ret err) followsPlan"
  "yields (\<lambda>_. True) (recordFailure rco p ep RedisClusterRunning x err) followsPlan"
  "yields (\<lambda>_. True) (recordFailure rco p ep RedisClusterFailed x err) followsPlan"
  "yields (\<lambda>_. True) (checkAndUpdateRedisClusterStatus rco p) followsPlan"
  by (rule plan_silent, rule silent.emits_ret silent.emits_recordFailure)+ (rule plan_checkAndUpdate)

lemma plan_sync: "yields (\<lambda>_. True) (sync rco ns name) followsPlan"
proof -
  have first: "yields (\<lambda>_. True) (firstCreation rco ns name p sts) followsPlan" for p sts
    unfolding firstCreation_def
    by (intro plan_intros silent.emits_updates silent_parts silent.emits_case_option silent_objects)
  have again: "yields (\<lambda>_. True) (syncExisting rco ns name p sts) followsPlan" for p sts
    unfolding syncExisting_def upgradeExisting_def scaleUp_def Let_def
    by (intro plan_intros silent.emits_updates silent_parts silent_objects silent.emits_load silent.emits_lift emits_intros)
  show ?thesis
    unfolding sync_def syncCopy_def
    by (intro plan_intros first again silent_parts silent.emits_lift silent.emits_alloc)
qed


end
