(* ===== verification/WorkQueue.thy ===== *)
theory WorkQueue
  imports SyncLoop
begin

text \<open>
  The work queue and what the operator does with it: the vendored rate limited queue
  (\<^verbatim>\<open>queue.go\<close>, \<^verbatim>\<open>delaying_queue.go\<close>, \<^verbatim>\<open>default_rate_limiters.go\<close>), the keys of
  resources, the event handlers of \<^verbatim>\<open>redis_operator.go\<close> that fill the queue, and
  \<^verbatim>\<open>syncRedisCluster\<close> with its deferred calls.
\<close>

section \<open>The queue\<close>

text \<open>
  \<open>wqWaiting\<close> holds the items that a delayed addition has accepted and whose time has not come;
  \<open>wqFailures\<close> is the count of the exponential rate limiter.
\<close>

record workqueue =
  wqQueue :: "string list"
  wqDirty :: "string set"
  wqProcessing :: "string set"
  wqShuttingDown :: bool
  wqWaiting :: "string list"
  wqFailures :: "string \<Rightarrow> nat"

definition newQueue :: workqueue where
  "newQueue = \<lparr>wqQueue = [], wqDirty = {}, wqProcessing = {}, wqShuttingDown = False, wqWaiting = [],
     wqFailures = \<lambda>_. 0\<rparr>"

definition queueAdd :: "string \<Rightarrow> workqueue \<Rightarrow> workqueue" where
  "queueAdd item q =
     (if wqShuttingDown q then q
      else if item \<in> wqDirty q then q
      else
        let q = q\<lparr>wqDirty := insert item (wqDirty q)\<rparr> in
        if item \<in> wqProcessing q then q else q\<lparr>wqQueue := wqQueue q @ [item]\<rparr>)"

text \<open>\<open>None\<close> while the caller has to wait; the item is \<open>None\<close> when it is told to end.\<close>

definition queueGet :: "workqueue \<Rightarrow> (string option \<times> workqueue) option" where
  "queueGet q =
     (case wqQueue q of
        [] \<Rightarrow> if wqShuttingDown q then Some (None, q) else None
      | item # rest \<Rightarrow> Some (Some item, q\<lparr>wqQueue := rest,
            wqProcessing := insert item (wqProcessing q), wqDirty := wqDirty q - {item}\<rparr>))"

definition queueDone :: "string \<Rightarrow> workqueue \<Rightarrow> workqueue" where
  "queueDone item q =
     (let q = q\<lparr>wqProcessing := wqProcessing q - {item}\<rparr> in
      if item \<in> wqDirty q then q\<lparr>wqQueue := wqQueue q @ [item]\<rparr> else q)"

definition queueShutDown :: "workqueue \<Rightarrow> workqueue" where
  "queueShutDown q = q\<lparr>wqShuttingDown := True\<rparr>"

text \<open>An item that waits already keeps its one entry (with the earlier of the two times).\<close>

definition waitingInsert :: "string \<Rightarrow> workqueue \<Rightarrow> workqueue" where
  "waitingInsert item q =
     (if item \<in> set (wqWaiting q) then q else q\<lparr>wqWaiting := wqWaiting q @ [item]\<rparr>)"

definition queueAddAfter :: "string \<Rightarrow> int \<Rightarrow> workqueue \<Rightarrow> workqueue" where
  "queueAddAfter item duration q =
     (if wqShuttingDown q then q
      else if duration \<le> 0 then queueAdd item q
      else waitingInsert item q)"

text \<open>The time of a waiting item has come.\<close>

definition queueFire :: "string \<Rightarrow> workqueue \<Rightarrow> workqueue" where
  "queueFire item q = queueAdd item (q\<lparr>wqWaiting := remove1 item (wqWaiting q)\<rparr>)"

text \<open>
  The exponential limiter in nanoseconds, 5 ms doubled for every failure up to 1000 s (products that
  the code computes in floating point are exact, 5 ms being a small number of nanoseconds); the
  delay is the larger of it and what the token bucket asks for.
\<close>

definition baseDelay :: int where "baseDelay = 5000000"
definition maxDelay :: int where "maxDelay = 1000000000000"

definition maxInt64 :: int where "maxInt64 = 9223372036854775807"

definition backoff :: "nat \<Rightarrow> int" where
  "backoff failures =
     (let calculated = baseDelay * 2 ^ failures in
      if calculated > maxInt64 then maxDelay
      else if calculated > maxDelay then maxDelay
      else calculated)"

definition queueAddRateLimited :: "string \<Rightarrow> int \<Rightarrow> workqueue \<Rightarrow> workqueue" where
  "queueAddRateLimited item bucketDelay q =
     queueAddAfter item (max (backoff (wqFailures q item)) bucketDelay)
       (q\<lparr>wqFailures := (wqFailures q)(item := Suc (wqFailures q item))\<rparr>)"

definition queueForget :: "string \<Rightarrow> workqueue \<Rightarrow> workqueue" where
  "queueForget item q = q\<lparr>wqFailures := (wqFailures q)(item := 0)\<rparr>"

definition queueNumRequeues :: "string \<Rightarrow> workqueue \<Rightarrow> nat" where
  "queueNumRequeues item q = wqFailures q item"

section \<open>Keys\<close>

definition keyFunc :: "RedisCluster \<Rightarrow> string" where
  "keyFunc rc = (if rcNamespace rc \<noteq> [] then rcNamespace rc @ ''/'' @ rcName rc else rcName rc)"

definition SplitMetaNamespaceKey :: "string \<Rightarrow> string \<times> string \<times> error" where
  "SplitMetaNamespaceKey key =
     (case splitOn (CHR ''/'') key of
        [name] \<Rightarrow> ([], name, None)
      | [namespace, name] \<Rightarrow> (namespace, name, None)
      | _ \<Rightarrow> ([], [], Some (Err (''unexpected key format: \"'' @ key @ ''\"''))))"

section \<open>Filling the queue\<close>

definition enqueue :: "RedisCluster \<Rightarrow> workqueue \<Rightarrow> workqueue" where
  "enqueue rc = queueAdd (keyFunc rc)"

definition enqueueRateLimited :: "RedisCluster \<Rightarrow> int \<Rightarrow> workqueue \<Rightarrow> workqueue" where
  "enqueueRateLimited rc bucketDelay = queueAddRateLimited (keyFunc rc) bucketDelay"

definition enqueueAfter :: "RedisCluster \<Rightarrow> int \<Rightarrow> workqueue \<Rightarrow> workqueue" where
  "enqueueAfter rc after = queueAddAfter (keyFunc rc) after"

text \<open>
  What a watch hands to a delete handler: the object, the tombstone of an object (of the right kind or
  not), or something else.
\<close>

datatype 'a deleted = Deleted 'a | Tombstone "'a option" | OtherObject

fun deletedObject :: "'a deleted \<Rightarrow> 'a option" where
  "deletedObject (Deleted obj) = Some obj"
| "deletedObject (Tombstone obj) = obj"
| "deletedObject OtherObject = None"

definition addRedisCluster :: "RedisCluster \<Rightarrow> workqueue \<Rightarrow> workqueue" where
  "addRedisCluster rc = enqueue rc"

definition updateRedisCluster :: "RedisCluster \<Rightarrow> RedisCluster \<Rightarrow> workqueue \<Rightarrow> workqueue" where
  "updateRedisCluster old cur = enqueue cur"

definition deleteRedisCluster :: "RedisCluster deleted \<Rightarrow> workqueue \<Rightarrow> workqueue" where
  "deleteRedisCluster obj q = (case deletedObject obj of None \<Rightarrow> q | Some rc \<Rightarrow> enqueue rc q)"

text \<open>The lister's answer for the namespace of the stateful set is a parameter.\<close>

type_synonym rcLister = "string \<Rightarrow> RedisCluster list \<times> error"

definition getRedisClustersForStatefulSet :: "rcLister \<Rightarrow> StatefulSet \<Rightarrow> RedisCluster option" where
  "getRedisClustersForStatefulSet lister sts =
     (case GetRedisClusterForStatefulSet (lister (omNamespace (ssMeta sts))) sts of
        (rc, err) \<Rightarrow> if err \<noteq> None then None else rc)"

definition enqueueOwner :: "rcLister \<Rightarrow> StatefulSet \<Rightarrow> workqueue \<Rightarrow> workqueue" where
  "enqueueOwner lister sts q =
     (case getRedisClustersForStatefulSet lister sts of None \<Rightarrow> q | Some rc \<Rightarrow> enqueue rc q)"

definition deleteStatefulSet :: "rcLister \<Rightarrow> StatefulSet deleted \<Rightarrow> workqueue \<Rightarrow> workqueue" where
  "deleteStatefulSet lister obj q = (case deletedObject obj of None \<Rightarrow> q | Some sts \<Rightarrow> enqueueOwner lister sts q)"

definition addStatefulSet :: "rcLister \<Rightarrow> StatefulSet \<Rightarrow> workqueue \<Rightarrow> workqueue" where
  "addStatefulSet lister sts q =
     (if ssDeletionTimestamp sts \<noteq> None then deleteStatefulSet lister (Deleted sts) q else enqueueOwner lister sts q)"

definition updateStatefulSet :: "rcLister \<Rightarrow> StatefulSet \<Rightarrow> StatefulSet \<Rightarrow> workqueue \<Rightarrow> workqueue" where
  "updateStatefulSet lister oldSts curSts q =
     (if ssResourceVersion curSts = ssResourceVersion oldSts then q
      else
        let statusChanged = ssStatusReplicas curSts \<noteq> ssStatusReplicas oldSts \<or> ssStatusRest curSts \<noteq> ssStatusRest oldSts in
        if statusChanged then enqueueOwner lister curSts q else q)"

section \<open>Working on the queue\<close>

definition handleErr :: "error \<Rightarrow> string \<Rightarrow> int \<Rightarrow> workqueue \<Rightarrow> workqueue" where
  "handleErr err key bucketDelay q =
     (if err = None then queueForget key q
      else if queueNumRequeues key q < maxRetries then queueAddRateLimited key bucketDelay q
      else queueForget key q)"

text \<open>
  \<^verbatim>\<open>syncRedisCluster\<close>: on the way out first the recovery of a panic, which leaves the result of
  the function at nil, then \<open>handleErr\<close> on that result, then \<open>Done\<close>. A pass that does not return
  performs none of these.
\<close>

definition finishSync :: "string \<Rightarrow> int \<Rightarrow> error \<Rightarrow> workqueue \<Rightarrow> workqueue" where
  "finishSync key bucketDelay err q = queueDone key (handleErr err key bucketDelay q)"

definition syncRedisCluster :: "'w RedisClusterOperator \<Rightarrow> string \<Rightarrow> int \<Rightarrow> workqueue \<Rightarrow> 'w sys \<Rightarrow>
    error outcome \<times> workqueue \<times> 'w sys" where
  "syncRedisCluster rco key bucketDelay q s =
     (case SplitMetaNamespaceKey key of (namespace, name, err) \<Rightarrow>
       if err \<noteq> None then (Ret err, finishSync key bucketDelay err q, s)
       else
         (case sync rco namespace name s of
            (Ret err, s') \<Rightarrow> (Ret err, finishSync key bucketDelay err q, s')
          | (Panic, s') \<Rightarrow> (Ret None, finishSync key bucketDelay None q, s')
          | (Diverge, s') \<Rightarrow> (Diverge, q, s')))"

text \<open>
  \<^verbatim>\<open>processNextWorkItem\<close>: \<open>None\<close> while there is nothing to do, otherwise whether the worker goes
  on, and the key for which it has started a goroutine.
\<close>

definition processNextWorkItem :: "workqueue \<Rightarrow> (bool \<times> string option \<times> workqueue) option" where
  "processNextWorkItem q =
     (case queueGet q of
        None \<Rightarrow> None
      | Some (None, q') \<Rightarrow> Some (False, None, q')
      | Some (Some key, q') \<Rightarrow> Some (True, Some key, q'))"

end
