(* ===== verification/QueueLoop.thy ===== *)
theory QueueLoop
  imports WorkQueue "HOL-Library.Multiset"
begin

text \<open>
  The workers as a state machine over the work queue: event handlers wake keys, workers take keys and
  start a goroutine for each, goroutines end in two moves (\<open>handleErr\<close>, then \<open>Done\<close>), delayed items
  come due, the queue is shut down. The goroutines are a multiset, so that two of them for one key
  could be told apart from one.
\<close>

section \<open>The state machine\<close>

record loop =
  lpQueue :: workqueue
  lpRunning :: "string multiset"
  lpEnding :: "string multiset"

datatype action =
    Wake string
  | Start string
  | Handle string error
  | End string
  | Fire string
  | Stop

definition initLoop :: loop where
  "initLoop = \<lparr>lpQueue = newQueue, lpRunning = {#}, lpEnding = {#}\<rparr>"

inductive loopStep :: "loop \<Rightarrow> action \<Rightarrow> loop \<Rightarrow> bool" where
  wake: "loopStep l (Wake key) (l\<lparr>lpQueue := queueAdd key (lpQueue l)\<rparr>)"
| start: "processNextWorkItem (lpQueue l) = Some (True, Some key, q) \<Longrightarrow>
    loopStep l (Start key) (l\<lparr>lpQueue := q, lpRunning := add_mset key (lpRunning l)\<rparr>)"
| handle: "key \<in># lpRunning l \<Longrightarrow>
    loopStep l (Handle key err) (l\<lparr>lpQueue := handleErr err key bucketDelay (lpQueue l),
      lpRunning := lpRunning l - {#key#}, lpEnding := add_mset key (lpEnding l)\<rparr>)"
| ending: "key \<in># lpEnding l \<Longrightarrow>
    loopStep l (End key) (l\<lparr>lpQueue := queueDone key (lpQueue l), lpEnding := lpEnding l - {#key#}\<rparr>)"
| fire: "key \<in> set (wqWaiting (lpQueue l)) \<Longrightarrow>
    loopStep l (Fire key) (l\<lparr>lpQueue := queueFire key (lpQueue l)\<rparr>)"
| stop: "loopStep l Stop (l\<lparr>lpQueue := queueShutDown (lpQueue l)\<rparr>)"

inductive_cases loopStep_WakeE: "loopStep l (Wake key) l'"
inductive_cases loopStep_StartE: "loopStep l (Start key) l'"
inductive_cases loopStep_HandleE: "loopStep l (Handle key err) l'"
inductive_cases loopStep_EndE: "loopStep l (End key) l'"
inductive_simps loopStep_Stop [simp]: "loopStep l Stop l'"

inductive loopRun :: "loop \<Rightarrow> action list \<Rightarrow> loop \<Rightarrow> bool" where
  none: "loopRun l [] l"
| more: "loopStep l a m \<Longrightarrow> loopRun m as n \<Longrightarrow> loopRun l (a # as) n"

inductive_simps loopRun_Nil [simp]: "loopRun l [] l'"

definition reachable :: "loop \<Rightarrow> bool" where
  "reachable l \<longleftrightarrow> (\<exists>as. loopRun initLoop as l)"

lemma loopRun_append: "loopRun l as m \<Longrightarrow> loopRun m bs n \<Longrightarrow> loopRun l (as @ bs) n"
  by (induction rule: loopRun.induct) (auto intro: loopRun.more)

lemma loopRun_one: "loopStep l a m \<Longrightarrow> loopRun l [a] m"
  by (rule loopRun.more [OF _ loopRun.none])

section \<open>The invariant\<close>

definition wellQueued :: "workqueue \<Rightarrow> bool" where
  "wellQueued q \<longleftrightarrow> distinct (wqQueue q) \<and> set (wqQueue q) = wqDirty q - wqProcessing q \<and>
     (\<forall>key. wqFailures q key \<le> maxRetries)"

definition loopInv :: "loop \<Rightarrow> bool" where
  "loopInv l \<longleftrightarrow> wellQueued (lpQueue l) \<and> finite (wqProcessing (lpQueue l)) \<and>
     lpRunning l + lpEnding l = mset_set (wqProcessing (lpQueue l))"

named_theorems queue_defs \<open>the operations of the queue\<close>

lemmas [queue_defs] = queueAdd_def queueDone_def queueShutDown_def queueAddAfter_def waitingInsert_def queueFire_def
  queueAddRateLimited_def queueForget_def queueNumRequeues_def handleErr_def Let_def

lemma wellQueued_add: "wellQueued q \<Longrightarrow> wellQueued (queueAdd key q)"
  by (auto simp: wellQueued_def queueAdd_def Let_def)

lemma wellQueued_waiting [simp]: "wellQueued (q\<lparr>wqWaiting := ws\<rparr>) \<longleftrightarrow> wellQueued q"
  by (simp add: wellQueued_def)

lemma add_processing [simp]: "wqProcessing (queueAdd key q) = wqProcessing q"
  by (simp add: queueAdd_def Let_def)

lemma handleErr_processing [simp]: "wqProcessing (handleErr err key d q) = wqProcessing q"
  by (simp add: queue_defs)

lemma wellQueued_handleErr: "wellQueued q \<Longrightarrow> wellQueued (handleErr err key d q)"
proof -
  assume q: "wellQueued q"
  have "wellQueued (queueAddRateLimited key d q)" if "wqFailures q key < maxRetries"
    using q that wellQueued_add unfolding queueAddRateLimited_def queueAddAfter_def waitingInsert_def
    by (auto simp: wellQueued_def queueAdd_def Let_def)
  then show ?thesis
    using q by (auto simp: handleErr_def queueForget_def queueNumRequeues_def wellQueued_def)
qed

lemma wellQueued_done: "wellQueued q \<Longrightarrow> key \<in> wqProcessing q \<Longrightarrow> wellQueued (queueDone key q)"
  by (auto simp: wellQueued_def queueDone_def Let_def)

lemma processNext_Some:
  "processNextWorkItem q = Some (True, Some key, q') \<longleftrightarrow>
     (\<exists>rest. wqQueue q = key # rest \<and> q' = q\<lparr>wqQueue := rest,
        wqProcessing := insert key (wqProcessing q), wqDirty := wqDirty q - {key}\<rparr>)"
  by (auto simp: processNextWorkItem_def queueGet_def split: list.splits)

lemma loopInv_init: "loopInv initLoop"
  by (simp add: loopInv_def initLoop_def newQueue_def wellQueued_def)

lemma loopInv_step:
  assumes "loopStep l a m" and "loopInv l"
  shows "loopInv m"
  using assms
proof cases
  case (start key q)
  then obtain rest where q: "wqQueue (lpQueue l) = key # rest"
    "q = (lpQueue l)\<lparr>wqQueue := rest, wqProcessing := insert key (wqProcessing (lpQueue l)),
      wqDirty := wqDirty (lpQueue l) - {key}\<rparr>"
    by (auto simp: processNext_Some)
  then have "key \<notin> wqProcessing (lpQueue l)"
    using assms(2) by (auto simp: loopInv_def wellQueued_def)
  then show ?thesis
    using start q assms(2) by (auto simp: loopInv_def wellQueued_def)
next
  case (handle key err d)
  then obtain others where "lpRunning l = add_mset key others"
    by (metis multi_member_split)
  then show ?thesis
    using handle assms(2) by (auto simp: loopInv_def wellQueued_handleErr)
next
  case (ending key)
  then have "key \<in> wqProcessing (lpQueue l)"
    using assms(2) unfolding loopInv_def by (metis finite_set_mset_mset_set union_iff)
  then show ?thesis
    using ending assms(2) wellQueued_done [of "lpQueue l" key]
    by (auto simp: loopInv_def queueDone_def Let_def mset_set_Diff)
next
  case (wake key)
  then show ?thesis
    using assms(2) by (simp add: loopInv_def wellQueued_add)
next
  case (fire key)
  then show ?thesis
    using assms(2) by (simp add: loopInv_def queueFire_def wellQueued_add)
next
  case stop
  then show ?thesis
    using assms(2) by (simp add: loopInv_def queueShutDown_def wellQueued_def)
qed

lemma loopInv_run: "loopRun l as m \<Longrightarrow> loopInv l \<Longrightarrow> loopInv m"
  by (induction rule: loopRun.induct) (auto dest: loopInv_step)

text \<open>
  C2: one goroutine per key, and a bounded number of retries. In every state that events, workers,
  finishing goroutines, delays and shutdown can lead to, in any interleaving, no key is worked on by two
  goroutines at once; the keys worked on are exactly the processing set of the queue; no key waits in
  the queue twice or while it is worked on; every key marked dirty is in the queue or worked on; and no
  key has been retried more than \<open>maxRetries\<close> times.
\<close>

theorem reachable_exclusive:
  assumes "reachable l"
  shows "count (lpRunning l + lpEnding l) key \<le> 1 \<and>
    set_mset (lpRunning l + lpEnding l) = wqProcessing (lpQueue l) \<and>
    distinct (wqQueue (lpQueue l)) \<and> set (wqQueue (lpQueue l)) \<inter> wqProcessing (lpQueue l) = {} \<and>
    wqDirty (lpQueue l) \<subseteq> set (wqQueue (lpQueue l)) \<union> wqProcessing (lpQueue l) \<and>
    queueNumRequeues key (lpQueue l) \<le> maxRetries"
proof -
  have "loopInv l"
    using assms loopInv_run loopInv_init unfolding reachable_def by blast
  then have inv: "wellQueued (lpQueue l)" "finite (wqProcessing (lpQueue l))"
    "lpRunning l + lpEnding l = mset_set (wqProcessing (lpQueue l))"
    by (simp_all add: loopInv_def)
  then show ?thesis
    unfolding inv(3) by (auto simp: wellQueued_def queueNumRequeues_def count_mset_set')
qed

definition oneStarted :: loop where
  "oneStarted = \<lparr>lpQueue = newQueue\<lparr>wqProcessing := {''ns/r''}\<rparr>, lpRunning = {#''ns/r''#}, lpEnding = {#}\<rparr>"

lemma oneStarted_reachable: "reachable oneStarted"
proof -
  have "loopStep initLoop (Wake ''ns/r'') (initLoop\<lparr>lpQueue := queueAdd ''ns/r'' (lpQueue initLoop)\<rparr>)"
    by (rule loopStep.wake)
  moreover have "loopStep (initLoop\<lparr>lpQueue := queueAdd ''ns/r'' (lpQueue initLoop)\<rparr>) (Start ''ns/r'') oneStarted"
    using loopStep.start [of "initLoop\<lparr>lpQueue := queueAdd ''ns/r'' (lpQueue initLoop)\<rparr>" "''ns/r''"
        "newQueue\<lparr>wqProcessing := {''ns/r''}\<rparr>"]
    by (simp add: initLoop_def newQueue_def queueAdd_def processNext_Some oneStarted_def)
  ultimately show ?thesis
    unfolding reachable_def by (blast intro: loopRun.intros)
qed

theorem reachable_exclusive_witness:
  "count (lpRunning oneStarted + lpEnding oneStarted) ''ns/r'' \<le> 1 \<and>
     set_mset (lpRunning oneStarted + lpEnding oneStarted) = wqProcessing (lpQueue oneStarted)"
  using reachable_exclusive [OF oneStarted_reachable, of "''ns/r''"] by blast

section \<open>No wake-up is lost\<close>

text \<open>Starting the keys in front of a queued key, then the key itself.\<close>

lemma start_queued:
  assumes "wqQueue (lpQueue l) = front @ key # rest"
  shows "\<exists>m. loopRun l (map Start front @ [Start key]) m \<and> key \<in># lpRunning m"
  using assms
proof (induction front arbitrary: l)
  case Nil
  then have "loopStep l (Start key) (l\<lparr>lpQueue := (lpQueue l)\<lparr>wqQueue := rest,
      wqProcessing := insert key (wqProcessing (lpQueue l)), wqDirty := wqDirty (lpQueue l) - {key}\<rparr>,
      lpRunning := add_mset key (lpRunning l)\<rparr>)"
    by (intro loopStep.start) (simp add: processNext_Some)
  then show ?case
    by (auto intro!: exI loopRun_one)
next
  case (Cons k front)
  let ?q = "(lpQueue l)\<lparr>wqQueue := front @ key # rest,
      wqProcessing := insert k (wqProcessing (lpQueue l)), wqDirty := wqDirty (lpQueue l) - {k}\<rparr>"
  have "loopStep l (Start k) (l\<lparr>lpQueue := ?q, lpRunning := add_mset k (lpRunning l)\<rparr>)"
    using Cons.prems by (intro loopStep.start) (simp add: processNext_Some)
  moreover have "\<exists>m. loopRun (l\<lparr>lpQueue := ?q, lpRunning := add_mset k (lpRunning l)\<rparr>)
      (map Start front @ [Start key]) m \<and> key \<in># lpRunning m"
    by (rule Cons.IH) simp
  ultimately show ?case
    by (auto intro: loopRun.more)
qed

text \<open>A goroutine at its end queues its key again if it was woken meanwhile.\<close>

lemma end_requeues:
  assumes "key \<in># lpEnding l" and "key \<in> wqDirty (lpQueue l)"
  shows "\<exists>m. loopStep l (End key) m \<and> wqQueue (lpQueue m) = wqQueue (lpQueue l) @ [key]"
  by (rule exI, rule conjI, rule loopStep.ending [OF assms(1)]) (simp add: queueDone_def Let_def assms(2))

lemma handle_keeps:
  assumes "key \<in># lpRunning l"
  shows "\<exists>m. loopStep l (Handle key None) m \<and> key \<in># lpEnding m \<and>
    wqQueue (lpQueue m) = wqQueue (lpQueue l) \<and> wqDirty (lpQueue m) = wqDirty (lpQueue l)"
  by (rule exI, rule conjI, rule loopStep.handle [OF assms, where bucketDelay = 0])
    (simp add: handleErr_def queueForget_def)

text \<open>
  C11: no wake-up is lost. In every reachable state, for every key marked dirty, there is a run of at
  most three moves more than the queue is long, made of workers taking keys and of goroutines of this
  key ending, after which a goroutine works on the key: a resource that changes while it is being
  worked on is worked on again.
\<close>

theorem dirty_key_started:
  assumes "reachable l" and "key \<in> wqDirty (lpQueue l)"
  shows "\<exists>as m. loopRun l as m \<and> key \<in># lpRunning m \<and> length as \<le> length (wqQueue (lpQueue l)) + 3 \<and>
    set as \<subseteq> range Start \<union> {Handle key None, End key}"
proof -
  have inv: "loopInv l"
    using assms(1) loopInv_run loopInv_init unfolding reachable_def by blast
  have queued: "\<exists>as n. loopRun m as n \<and> key \<in># lpRunning n \<and> length as \<le> length (wqQueue (lpQueue m)) \<and>
      set as \<subseteq> range Start \<union> {Handle key None, End key}"
    if q: "key \<in> set (wqQueue (lpQueue m))" for m
  proof -
    obtain front rest where "wqQueue (lpQueue m) = front @ key # rest"
      using split_list [OF q] by blast
    with start_queued [OF this] show ?thesis
      by (intro exI [of _ "map Start front @ [Start key]"]) auto
  qed
  have again: "\<exists>as n. loopRun m as n \<and> key \<in># lpRunning n \<and> length as \<le> length (wqQueue (lpQueue m)) + 2 \<and>
      set as \<subseteq> range Start \<union> {Handle key None, End key}"
    if ending: "key \<in># lpEnding m" "key \<in> wqDirty (lpQueue m)" for m
  proof -
    obtain m' where m': "loopStep m (End key) m'" "wqQueue (lpQueue m') = wqQueue (lpQueue m) @ [key]"
      using end_requeues [OF ending] by blast
    obtain as n where "loopRun m' as n" "key \<in># lpRunning n" "length as \<le> length (wqQueue (lpQueue m')) "
      "set as \<subseteq> range Start \<union> {Handle key None, End key}"
      using queued [of m'] m'(2) by auto
    then show ?thesis
      using m' by (intro exI [of _ "End key # as"] exI [of _ n]) (auto intro: loopRun.more)
  qed
  have "key \<in> set (wqQueue (lpQueue l)) \<or> key \<in># lpRunning l \<or> key \<in># lpEnding l"
    using inv assms(2) unfolding loopInv_def wellQueued_def by (metis DiffI finite_set_mset_mset_set union_iff)
  then consider "key \<in> set (wqQueue (lpQueue l))" | "key \<in># lpRunning l" | "key \<in># lpEnding l" by blast
  then show ?thesis
  proof cases
    case 1
    then show ?thesis using queued [of l] by fastforce
  next
    case 2
    then obtain m where m: "loopStep l (Handle key None) m" "key \<in># lpEnding m"
      "wqQueue (lpQueue m) = wqQueue (lpQueue l)" "wqDirty (lpQueue m) = wqDirty (lpQueue l)"
      using handle_keeps by blast
    obtain as n where "loopRun m as n" "key \<in># lpRunning n" "length as \<le> length (wqQueue (lpQueue m)) + 2"
      "set as \<subseteq> range Start \<union> {Handle key None, End key}"
      using again [OF m(2)] assms(2) m(4) by auto
    then show ?thesis
      using m by (intro exI [of _ "Handle key None # as"] exI [of _ n]) (auto intro: loopRun.more)
  next
    case 3
    then show ?thesis using again [of l] assms(2) by fastforce
  qed
qed

definition wokenWhileRunning :: loop where
  "wokenWhileRunning = oneStarted\<lparr>lpQueue := queueAdd ''ns/r'' (lpQueue oneStarted)\<rparr>"

theorem dirty_key_started_witness:
  "\<exists>as m. loopRun wokenWhileRunning as m \<and> ''ns/r'' \<in># lpRunning m \<and> length as \<le> 3"
proof -
  have "loopRun oneStarted [Wake ''ns/r''] wokenWhileRunning"
    unfolding wokenWhileRunning_def by (intro loopRun_one loopStep.wake)
  then have "reachable wokenWhileRunning"
    using oneStarted_reachable loopRun_append unfolding reachable_def by blast
  moreover have "''ns/r'' \<in> wqDirty (lpQueue wokenWhileRunning)" "wqQueue (lpQueue wokenWhileRunning) = []"
    by (simp_all add: wokenWhileRunning_def oneStarted_def newQueue_def queueAdd_def)
  ultimately show ?thesis
    using dirty_key_started [of wokenWhileRunning "''ns/r''"] by auto
qed

section \<open>The queue as a set of pending keys\<close>

text \<open>
  What the loop promises, without order, duplicates or delays: keys that are pending, keys that are
  worked on, and a flag that no more wake-ups are accepted.
\<close>

record pendingKeys =
  pkPending :: "string set"
  pkActive :: "string set"
  pkClosed :: bool

definition wakeKey :: "string \<Rightarrow> pendingKeys \<Rightarrow> pendingKeys" where
  "wakeKey key a = (if pkClosed a then a else a\<lparr>pkPending := insert key (pkPending a)\<rparr>)"

fun pendingStep :: "pendingKeys \<Rightarrow> action \<Rightarrow> pendingKeys \<Rightarrow> bool" where
  "pendingStep a (Wake key) b \<longleftrightarrow> b = wakeKey key a"
| "pendingStep a (Fire key) b \<longleftrightarrow> b = wakeKey key a"
| "pendingStep a (Start key) b \<longleftrightarrow> key \<in> pkPending a \<and> key \<notin> pkActive a \<and>
     b = a\<lparr>pkPending := pkPending a - {key}, pkActive := insert key (pkActive a)\<rparr>"
| "pendingStep a (Handle key err) b \<longleftrightarrow> key \<in> pkActive a \<and> b = a"
| "pendingStep a (End key) b \<longleftrightarrow> key \<in> pkActive a \<and> b = a\<lparr>pkActive := pkActive a - {key}\<rparr>"
| "pendingStep a Stop b \<longleftrightarrow> b = a\<lparr>pkClosed := True\<rparr>"

definition pendingOf :: "loop \<Rightarrow> pendingKeys" where
  "pendingOf l = \<lparr>pkPending = wqDirty (lpQueue l), pkActive = wqProcessing (lpQueue l),
     pkClosed = wqShuttingDown (lpQueue l)\<rparr>"

lemma backoff_min: "backoff n = min (baseDelay * 2 ^ n) maxDelay"
  by (simp add: backoff_def Let_def maxInt64_def maxDelay_def)

lemma backoff_positive: "0 < backoff n"
  by (simp add: backoff_min baseDelay_def maxDelay_def)

lemma handleErr_pending:
  "wqDirty (handleErr err key d q) = wqDirty q" "wqShuttingDown (handleErr err key d q) = wqShuttingDown q"
  using backoff_positive [of "wqFailures q key"]
  by (auto simp: handleErr_def queueForget_def queueAddRateLimited_def queueAddAfter_def waitingInsert_def)

lemma add_pending: "pendingOf (l\<lparr>lpQueue := queueAdd key q\<rparr>) = wakeKey key (pendingOf (l\<lparr>lpQueue := q\<rparr>))"
  by (auto simp: pendingOf_def wakeKey_def queueAdd_def Let_def)

text \<open>
  C10: the queue implements a set of pending keys. Every move of the loop from a reachable state is,
  forgetting order, delays and counts, the move of the same name of the abstract machine: a wake-up
  adds the key unless the queue is shut down, a start takes a pending key that nobody works on, the end
  of a goroutine makes its key inactive, and handling an error changes nothing at once.
\<close>

theorem loop_refines_pending:
  assumes "reachable l" and "loopStep l a m"
  shows "pendingStep (pendingOf l) a (pendingOf m)"
proof -
  have inv: "loopInv l"
    using assms(1) loopInv_run loopInv_init unfolding reachable_def by blast
  then have active: "key \<in># lpRunning l \<or> key \<in># lpEnding l \<longleftrightarrow> key \<in> wqProcessing (lpQueue l)" for key
    unfolding loopInv_def by (metis finite_set_mset_mset_set union_iff)
  show ?thesis
    using assms(2)
  proof cases
    case (start key q)
    then obtain rest where q: "wqQueue (lpQueue l) = key # rest"
      "q = (lpQueue l)\<lparr>wqQueue := rest, wqProcessing := insert key (wqProcessing (lpQueue l)),
        wqDirty := wqDirty (lpQueue l) - {key}\<rparr>"
      by (auto simp: processNext_Some)
    then have "key \<in> wqDirty (lpQueue l)" "key \<notin> wqProcessing (lpQueue l)"
      using inv by (auto simp: loopInv_def wellQueued_def)
    then show ?thesis
      using start q by (simp add: pendingOf_def)
  next
    case (handle key err d)
    then show ?thesis
      using active by (auto simp: pendingOf_def handleErr_pending)
  next
    case (ending key)
    then show ?thesis
      using active by (auto simp: pendingOf_def queueDone_def Let_def)
  next
    case (fire key)
    then show ?thesis
      by (simp add: queueFire_def add_pending) (simp add: pendingOf_def wakeKey_def)
  next
    case (wake key)
    then show ?thesis
      by (simp add: add_pending)
  next
    case stop
    then show ?thesis
      by (simp add: pendingOf_def queueShutDown_def)
  qed
qed

theorem loop_refines_pending_witness:
  "pendingStep (pendingOf oneStarted) (Wake ''ns/s'')
     (pendingOf (oneStarted\<lparr>lpQueue := queueAdd ''ns/s'' (lpQueue oneStarted)\<rparr>))"
  by (rule loop_refines_pending [OF oneStarted_reachable]) (rule loopStep.wake)

end
