(* ===== verification/Retries.thy ===== *)
theory Retries
  imports QueueLoop
begin

text \<open>
  What happens to one key: its way from an event to a pass, the passes that fail and the delays
  between them, a pass that panics, and the translation between keys and resources.
\<close>

section \<open>Keys\<close>

lemma splitOn_two:
  "CHR ''/'' \<notin> set v \<Longrightarrow> CHR ''/'' \<notin> set w \<Longrightarrow> splitOn (CHR ''/'') (v @ CHR ''/'' # w) = [v, w]"
  by (simp add: splitOn_append_sep splitOn_no_sep)

text \<open>
  A key leads back to its resource. Splitting the key of a resource returns its namespace and
  name, whether it has a namespace or not, if there is no slash in the two; so different resources
  have different keys.
\<close>

theorem SplitMetaNamespaceKey_keyFunc:
  assumes "CHR ''/'' \<notin> set (rcNamespace rc)" and "CHR ''/'' \<notin> set (rcName rc)"
  shows "SplitMetaNamespaceKey (keyFunc rc) = (rcNamespace rc, rcName rc, None)"
  using assms by (simp add: SplitMetaNamespaceKey_def keyFunc_def splitOn_two splitOn_no_sep)

theorem SplitMetaNamespaceKey_keyFunc_witness:
  "SplitMetaNamespaceKey (keyFunc exampleRc) = (''ns'', ''r'', None)"
  using SplitMetaNamespaceKey_keyFunc [of exampleRc] by (simp add: exampleRc_def)

section \<open>From an event to the queue\<close>

lemma dirty_add [simp]:
  "wqDirty (queueAdd key q) = (if wqShuttingDown q then wqDirty q else insert key (wqDirty q))"
  by (auto simp: queueAdd_def Let_def)

lemma enqueueOwner_dirty:
  assumes "lister (omNamespace (ssMeta sts)) = (rcs, None)" and "distinct (map rcName rcs)"
    and "rc \<in> set rcs" and "belongsTo sts rc"
  shows "enqueueOwner lister sts q = queueAdd (keyFunc rc) q"
  using owner_found [OF assms(2-4)] assms(1)
  by (simp add: enqueueOwner_def getRedisClustersForStatefulSet_def enqueue_def)

text \<open>
  Events of a stateful set wake its resource. When the lister knows the resources of the namespace,
  by different names, the creation of a stateful set (also one that is being deleted), its deletion
  (also seen as a tombstone), and an update that changes its status under a new resource version make
  the key of the resource dirty, unless the queue is shut down; an update without a new version or
  without a change of the status leaves the queue as it is.
\<close>

theorem statefulSet_events_wake:
  assumes "lister (omNamespace (ssMeta sts)) = (rcs, None)" and "distinct (map rcName rcs)"
    and "rc \<in> set rcs" and "belongsTo sts rc" and "\<not> wqShuttingDown q"
  shows "keyFunc rc \<in> wqDirty (addStatefulSet lister sts q) \<and>
    keyFunc rc \<in> wqDirty (deleteStatefulSet lister (Deleted sts) q) \<and>
    keyFunc rc \<in> wqDirty (deleteStatefulSet lister (Tombstone (Some sts)) q) \<and>
    (if ssResourceVersion sts \<noteq> ssResourceVersion old \<and>
        (ssStatusReplicas sts \<noteq> ssStatusReplicas old \<or> ssStatusRest sts \<noteq> ssStatusRest old)
     then keyFunc rc \<in> wqDirty (updateStatefulSet lister old sts q)
     else updateStatefulSet lister old sts q = q)"
proof -
  have "enqueueOwner lister sts q = queueAdd (keyFunc rc) q"
    using assms(1-4) by (rule enqueueOwner_dirty)
  then show ?thesis
    using assms(5) by (simp add: addStatefulSet_def deleteStatefulSet_def updateStatefulSet_def)
qed

theorem statefulSet_events_wake_witness:
  "''ns/r'' \<in> wqDirty (updateStatefulSet (\<lambda>_. ([exampleRc], None)) (exampleSts\<lparr>ssResourceVersion := ''old'', ssStatusReplicas := 3\<rparr>)
     exampleSts newQueue)"
proof -
  let ?old = "exampleSts\<lparr>ssResourceVersion := ''old'', ssStatusReplicas := 3\<rparr>"
  have "ssResourceVersion exampleSts \<noteq> ssResourceVersion ?old" "ssStatusReplicas exampleSts \<noteq> ssStatusReplicas ?old"
    by (simp_all add: exampleSts_def)
  then have "keyFunc exampleRc \<in> wqDirty (updateStatefulSet (\<lambda>_. ([exampleRc], None)) ?old exampleSts newQueue)"
    using statefulSet_events_wake [of "\<lambda>_. ([exampleRc], None)" exampleSts "[exampleRc]" exampleRc newQueue ?old]
    by (simp add: example_belongs newQueue_def)
  then show ?thesis
    by (simp add: keyFunc_def exampleRc_def)
qed

section \<open>Failing passes\<close>

text \<open>
  Passes over one key that all end with an error: a worker takes the key, the pass fails, the delay
  (the token bucket asking for a delay of its own) runs out; and again, as long as the key comes back.
\<close>

definition fireDue :: "string \<Rightarrow> workqueue \<Rightarrow> workqueue" where
  "fireDue key q = (if key \<in> set (wqWaiting q) then queueFire key q else q)"

fun failingPasses :: "gerr \<Rightarrow> string \<Rightarrow> int list \<Rightarrow> workqueue \<Rightarrow> workqueue" where
  "failingPasses e key [] q = q"
| "failingPasses e key (bucketDelay # ds) q =
     (case processNextWorkItem q of
        Some (True, Some k, q') \<Rightarrow>
          if k = key then failingPasses e key ds (fireDue key (finishSync key bucketDelay (Some e) q')) else q
      | _ \<Rightarrow> q)"

definition retrying :: "string \<Rightarrow> nat \<Rightarrow> workqueue" where
  "retrying key n = newQueue\<lparr>wqQueue := [key], wqDirty := {key}, wqFailures := (\<lambda>_. 0)(key := n)\<rparr>"

lemma const_upd [simp]: "(\<lambda>_. c)(k := c) = (\<lambda>_. c)"
  by (rule fun_upd_idem) simp

lemma failingPass:
  assumes "n \<le> maxRetries"
  shows "failingPasses e key (d # ds) (retrying key n) =
    (if n < maxRetries then failingPasses e key ds (retrying key (Suc n)) else failingPasses e key ds newQueue)"
  using assms backoff_positive [of n]
  by (auto simp: retrying_def newQueue_def processNextWorkItem_def queueGet_def finishSync_def handleErr_def
      queueNumRequeues_def queueForget_def queueAddRateLimited_def queueAddAfter_def waitingInsert_def fireDue_def
      queueFire_def queueAdd_def queueDone_def)

lemma failingPasses_newQueue: "failingPasses e key ds newQueue = newQueue"
  by (cases ds) (simp_all add: processNextWorkItem_def queueGet_def newQueue_def)

lemma failingPasses_retrying:
  "n \<le> maxRetries \<Longrightarrow> failingPasses e key ds (retrying key n) =
    (if n + length ds \<le> maxRetries then retrying key (n + length ds) else newQueue)"
proof (induction ds arbitrary: n)
  case (Cons d ds)
  then show ?case
    by (cases "n < maxRetries") (simp_all add: failingPass failingPasses_newQueue del: failingPasses.simps(2))
qed simp

text \<open>
  C14: a failing resource is retried \<open>maxRetries\<close> times, then dropped. Starting from one event, after
  up to \<open>maxRetries\<close> failing passes the key is queued again with that many retries counted; the pass
  after that forgets it, and the queue is as if the event had never happened: without a new event
  nobody works on the resource again.
\<close>

theorem failing_key_dropped:
  "failingPasses e key ds (queueAdd key newQueue) =
    (if length ds \<le> maxRetries
     then (queueAdd key newQueue)\<lparr>wqFailures := (\<lambda>_. 0)(key := length ds)\<rparr> else newQueue)"
proof -
  have "queueAdd key newQueue = retrying key 0"
    by (simp add: queueAdd_def newQueue_def retrying_def)
  moreover have "(retrying key 0)\<lparr>wqFailures := (\<lambda>_. 0)(key := length ds)\<rparr> = retrying key (length ds)"
    by (simp add: retrying_def)
  ultimately show ?thesis
    by (simp add: failingPasses_retrying)
qed


section \<open>A pass that panics\<close>

text \<open>
  C28: a pass that panics is taken for a success. When \<open>sync\<close> panics, the goroutine recovers, the
  result of the pass stays nil, and the key is forgotten and done: it is queued again only if an event
  came in the meantime, nothing waits for a retry, and its count of failures starts over.
\<close>

theorem sync_panic_not_retried:
  assumes "SplitMetaNamespaceKey key = (namespace, name, None)"
    and "fst (sync rco namespace name s) = Panic"
  shows "\<exists>q'. syncRedisCluster rco key d q s = (Ret None, q', snd (sync rco namespace name s)) \<and>
    queueNumRequeues key q' = 0 \<and> wqWaiting q' = wqWaiting q \<and> key \<notin> wqProcessing q' \<and>
    wqQueue q' = wqQueue q @ (if key \<in> wqDirty q then [key] else [])"
  using assms
  by (cases "sync rco namespace name s")
    (simp add: syncRedisCluster_def finishSync_def handleErr_def queueForget_def queueDone_def queueNumRequeues_def)

definition withoutReplicas :: RedisCluster where
  "withoutReplicas = exampleRc\<lparr>rcSpec := (rcSpec exampleRc)\<lparr>spReplicas := None\<rparr>\<rparr>"

text \<open>A resource whose replicas are not set makes the pass panic.\<close>

theorem sync_panic_not_retried_witness:
  "fst (syncRedisCluster (caching withoutReplicas exampleSts) ''ns/r'' 0 (lpQueue oneStarted) exampleSys) = Ret None"
proof -
  have "belongsTo exampleSts withoutReplicas"
    using example_belongs(1) by (simp add: belongsTo_def withoutReplicas_def)
  then have "fst (sync (caching withoutReplicas exampleSts) ''ns'' ''r'' exampleSys) = Panic"
    by (simp add: sync_cached [OF cached_caching] example_replicas syncExisting_def bnd_def load_def lift_def
        withoutReplicas_def)
  then show ?thesis
    using sync_panic_not_retried [of "''ns/r''" "''ns''" "''r''" "caching withoutReplicas exampleSts" exampleSys 0 "lpQueue oneStarted"]
    by (auto simp: SplitMetaNamespaceKey_def)
qed

end
