(* ===== verification/Listers.thy ===== *)
theory Listers
  imports Retries
begin

text \<open>
  The lister of RedisClusters (\<^verbatim>\<open>listers/redis/v1alpha1/rediscluster.go\<close>) over the store of its
  informer, with the two loops of \<^verbatim>\<open>client-go/tools/cache/listers.go\<close>. The store and the labels of
  a resource are parameters. The locale \<open>cluster_cache\<close> is what the lister relies on: a store that holds
  a list of clusters.
\<close>

section \<open>The store and the loops\<close>

datatype storedObject =
    StoredCluster RedisCluster
  | StoredOther string stringMap
  | NoMetadata

record indexer =
  ixList :: "storedObject list"
  ixIndex :: "string \<Rightarrow> storedObject list + gerr"
  ixGetByKey :: "string \<Rightarrow> storedObject option \<times> error"

definition accessor :: "(RedisCluster \<Rightarrow> stringMap) \<Rightarrow> storedObject \<Rightarrow> (string \<times> stringMap) option" where
  "accessor labelsOf m =
     (case m of
        StoredCluster rc \<Rightarrow> Some (rcNamespace rc, labelsOf rc)
      | StoredOther ns labels \<Rightarrow> Some (ns, labels)
      | NoMetadata \<Rightarrow> None)"

type_synonym listed = "(RedisCluster list \<times> error) outcome"

text \<open>The objects that are wanted are appended; one that is not a cluster panics there.\<close>

fun appendMatching :: "(RedisCluster \<Rightarrow> stringMap) \<Rightarrow> (string \<Rightarrow> stringMap \<Rightarrow> bool) \<Rightarrow> storedObject list \<Rightarrow>
    RedisCluster list \<Rightarrow> listed" where
  "appendMatching labelsOf wanted [] acc = Ret (acc, None)"
| "appendMatching labelsOf wanted (m # ms) acc =
     (case accessor labelsOf m of
        None \<Rightarrow> Ret (acc, Some (Err ''object does not implement the Object interfaces''))
      | Some (ns, labels) \<Rightarrow>
          if wanted ns labels
          then (case m of StoredCluster rc \<Rightarrow> appendMatching labelsOf wanted ms (acc @ [rc]) | _ \<Rightarrow> Panic)
          else appendMatching labelsOf wanted ms acc)"

definition ListAll :: "(RedisCluster \<Rightarrow> stringMap) \<Rightarrow> indexer \<Rightarrow> (stringMap \<Rightarrow> bool) \<Rightarrow> listed" where
  "ListAll labelsOf ix selector = appendMatching labelsOf (\<lambda>_. selector) (ixList ix) []"

definition ListAllByNamespace :: "(RedisCluster \<Rightarrow> stringMap) \<Rightarrow> indexer \<Rightarrow> string \<Rightarrow> (stringMap \<Rightarrow> bool) \<Rightarrow> listed" where
  "ListAllByNamespace labelsOf ix namespace selector =
     (if namespace = [] then appendMatching labelsOf (\<lambda>_. selector) (ixList ix) []
      else
        (case ixIndex ix namespace of
           Inr err \<Rightarrow> appendMatching labelsOf (\<lambda>ns labels. ns = namespace \<and> selector labels) (ixList ix) []
         | Inl items \<Rightarrow> appendMatching labelsOf (\<lambda>_. selector) items []))"

section \<open>The lister\<close>

record redisClusterLister =
  rlIndexer :: indexer

record redisClusterNamespaceLister =
  rnIndexer :: indexer
  rnNamespace :: string

definition NewRedisClusterLister :: "indexer \<Rightarrow> redisClusterLister" where
  "NewRedisClusterLister indexer = \<lparr>rlIndexer = indexer\<rparr>"

definition listerList :: "(RedisCluster \<Rightarrow> stringMap) \<Rightarrow> redisClusterLister \<Rightarrow> (stringMap \<Rightarrow> bool) \<Rightarrow> listed" where
  "listerList labelsOf s selector = ListAll labelsOf (rlIndexer s) selector"

definition listerRedisClusters :: "redisClusterLister \<Rightarrow> string \<Rightarrow> redisClusterNamespaceLister" where
  "listerRedisClusters s namespace = \<lparr>rnIndexer = rlIndexer s, rnNamespace = namespace\<rparr>"

definition namespaceList :: "(RedisCluster \<Rightarrow> stringMap) \<Rightarrow> redisClusterNamespaceLister \<Rightarrow> (stringMap \<Rightarrow> bool) \<Rightarrow> listed" where
  "namespaceList labelsOf s selector = ListAllByNamespace labelsOf (rnIndexer s) (rnNamespace s) selector"

definition namespaceGet :: "redisClusterNamespaceLister \<Rightarrow> string \<Rightarrow> (RedisCluster option \<times> error) outcome" where
  "namespaceGet s name =
     (case ixGetByKey (rnIndexer s) (rnNamespace s @ ''/'' @ name) of
        (obj, err) \<Rightarrow>
          if err \<noteq> None then Ret (None, err)
          else
            (case obj of
               None \<Rightarrow> Ret (None, Some (notFound name))
             | Some (StoredCluster rc) \<Rightarrow> Ret (Some rc, None)
             | Some _ \<Rightarrow> Panic))"

section \<open>A store that holds clusters\<close>

locale cluster_cache =
  fixes ix :: indexer and clusters :: "RedisCluster list"
  assumes lists: "ixList ix = map StoredCluster clusters"
    and indexes: "ixIndex ix ns = Inl items \<Longrightarrow> items = map StoredCluster (filter (\<lambda>rc. rcNamespace rc = ns) clusters)"
    and gets: "ixGetByKey ix key = (map_option StoredCluster (find (\<lambda>rc. keyFunc rc = key) clusters), None)"
begin

lemma appended:
  "appendMatching labelsOf wanted (map StoredCluster rcs) acc =
     Ret (acc @ filter (\<lambda>rc. wanted (rcNamespace rc) (labelsOf rc)) rcs, None)"
  by (induction rcs arbitrary: acc) (simp_all add: accessor_def)

lemma list_all_clusters:
  "listerList labelsOf (NewRedisClusterLister ix) selector = Ret (filter (\<lambda>rc. selector (labelsOf rc)) clusters, None)"
  by (simp add: listerList_def NewRedisClusterLister_def ListAll_def lists appended)

lemma list_namespace:
  assumes "ns \<noteq> []"
  shows "namespaceList labelsOf (listerRedisClusters (NewRedisClusterLister ix) ns) selector =
     Ret (filter (\<lambda>rc. rcNamespace rc = ns \<and> selector (labelsOf rc)) clusters, None)"
  using assms indexes [of ns]
  by (auto simp: namespaceList_def listerRedisClusters_def NewRedisClusterLister_def ListAllByNamespace_def lists
      appended intro!: filter_cong split: sum.splits)

lemma get_cluster:
  "namespaceGet (listerRedisClusters (NewRedisClusterLister ix) ns) name =
     Ret (case find (\<lambda>rc. keyFunc rc = ns @ ''/'' @ name) clusters of
        None \<Rightarrow> (None, Some (notFound name)) | Some rc \<Rightarrow> (Some rc, None))"
  by (simp add: namespaceGet_def listerRedisClusters_def NewRedisClusterLister_def gets split: option.splits)

end

text \<open>The store as the list of what it holds, with an index by namespace.\<close>

definition indexerOf :: "RedisCluster list \<Rightarrow> indexer" where
  "indexerOf clusters = \<lparr>ixList = map StoredCluster clusters,
     ixIndex = \<lambda>ns. Inl (map StoredCluster (filter (\<lambda>rc. rcNamespace rc = ns) clusters)),
     ixGetByKey = \<lambda>key. (map_option StoredCluster (find (\<lambda>rc. keyFunc rc = key) clusters), None)\<rparr>"

interpretation cached: cluster_cache "indexerOf clusters" clusters for clusters
  by unfold_locales (simp_all add: indexerOf_def)

section \<open>From an event of a stateful set to the resource\<close>

text \<open>The lister as the event handlers use it: everything in one namespace.\<close>

definition cacheLister :: "(RedisCluster \<Rightarrow> stringMap) \<Rightarrow> indexer \<Rightarrow> rcLister" where
  "cacheLister labelsOf ix ns =
     (case namespaceList labelsOf (listerRedisClusters (NewRedisClusterLister ix) ns) (\<lambda>_. True) of
        Ret reply \<Rightarrow> reply
      | _ \<Rightarrow> ([], None))"

text \<open>The lister as a pass uses it: the reply of the store behind the key.\<close>

definition cachedReply :: "indexer \<Rightarrow> string \<Rightarrow> RedisCluster option \<times> error" where
  "cachedReply ix key =
     (case ixGetByKey ix key of
        (Some (StoredCluster rc), err) \<Rightarrow> (Some rc, err)
      | (_, err) \<Rightarrow> (None, err))"

lemma distinct_names:
  assumes "distinct (map keyFunc clusters)" and "ns \<noteq> []"
  shows "distinct (map rcName (filter (\<lambda>rc. rcNamespace rc = ns) clusters))"
proof -
  have "inj_on rcName {rc \<in> set clusters. rcNamespace rc = ns}"
    using assms unfolding distinct_map inj_on_def keyFunc_def by (auto split: if_splits)
  then show ?thesis
    using assms(1) by (auto simp: distinct_map)
qed

lemma find_key:
  "distinct (map keyFunc clusters) \<Longrightarrow> rc \<in> set clusters \<Longrightarrow> find (\<lambda>c. keyFunc c = keyFunc rc) clusters = Some rc"
  by (induction clusters) auto



end
