(* ===== verification/Memory.thy ===== *)
theory Memory
  imports ApiTypes "HOL-Library.State_Monad"
begin

text \<open>
  Go's memory as far as the generated deep copies see it: typed cells behind pointers, maps and the
  backing arrays of slices, with the next free address, and the interface \<open>cloner\<close> of a deep copy,
  built up over pointers and lists.
\<close>

section \<open>Structs with pointers in them\<close>

text \<open>
  The structs of \<^verbatim>\<open>types.go\<close> as they lie in memory: a pointer, a map or a slice is an address or
  nil (\<open>None\<close>). A slice is the whole of its array.
\<close>

type_synonym addr = "nat option"

record memSlotsAssignStrategy =
  msaSlots :: addr
  msaFromReplicas :: string

record memUpdateStrategy =
  musType :: RedisClusterUpdateStrategyType
  musPipeline :: string
  musAssignStrategies :: addr

record memPodTemplateSpec =
  mptConfigmap :: string
  mptMonitorImage :: string
  mptInitImage :: string
  mptMiddlewareImage :: string
  mptVolumes :: RedisClusterPodVolume
  mptEnv :: addr
  mptResources :: opaque
  mptAffinity :: addr
  mptAnnotations :: addr
  mptLabels :: addr
  mptUpdateStrategy :: opaque

record memSpec =
  mspReplicas :: addr
  mspPause :: bool
  mspFinalizers :: string
  mspRepository :: string
  mspVersion :: string
  mspUpdateStrategy :: memUpdateStrategy
  mspPod :: addr

record memStatus =
  mstReplicas :: int32
  mstReason :: string
  mstPhase :: RedisClusterPhase
  mstConditions :: addr

record memRedisCluster =
  mrcName :: string
  mrcNamespace :: string
  mrcUID :: string
  mrcResourceVersion :: string
  mrcSpec :: memSpec
  mrcStatus :: memStatus

record memRedisClusterList =
  mrlListMeta :: opaque
  mrlItems :: addr

record LeaderElectionConfiguration =
  leLeaderElect :: bool
  leLeaseDuration :: int64
  leRenewDeadline :: int64
  leRetryPeriod :: int64
  leResourceLock :: string

record memOperatorManagerConfig =
  mocOperators :: addr
  mocConcurrentRedisClusterSyncs :: int32
  mocClusterTimeOut :: int32
  mocControllerStartInterval :: int64
  mocResyncPeriod :: int64
  mocLeaderElection :: LeaderElectionConfiguration
  mocPort :: int32
  mocAddress :: string
  mocEnableProfiling :: bool
  mocContentType :: string
  mocKubeAPIQPS :: opaque
  mocKubeAPIBurst :: int32

section \<open>The memory\<close>

record memory =
  mmNext :: nat
  mmInts :: "nat \<Rightarrow> int32"
  mmMaps :: "nat \<Rightarrow> stringMap"
  mmAffinities :: "nat \<Rightarrow> opaque"
  mmStrings :: "nat \<Rightarrow> string list"
  mmEnvs :: "nat \<Rightarrow> EnvVar list"
  mmStrategies :: "nat \<Rightarrow> memSlotsAssignStrategy list"
  mmTemplates :: "nat \<Rightarrow> memPodTemplateSpec list"
  mmConditions :: "nat \<Rightarrow> RedisClusterCondition list"
  mmItems :: "nat \<Rightarrow> memRedisCluster list"
  mmClusters :: "nat \<Rightarrow> memRedisCluster"
  mmClusterLists :: "nat \<Rightarrow> memRedisClusterList"
  mmConfigs :: "nat \<Rightarrow> memOperatorManagerConfig"
  mmSlotsAssignStrategy :: "nat \<Rightarrow> memSlotsAssignStrategy"
  mmUpdateStrategy :: "nat \<Rightarrow> memUpdateStrategy"
  mmPodVolume :: "nat \<Rightarrow> RedisClusterPodVolume"
  mmPodTemplate :: "nat \<Rightarrow> memPodTemplateSpec"
  mmSpec :: "nat \<Rightarrow> memSpec"
  mmCondition :: "nat \<Rightarrow> RedisClusterCondition"
  mmStatus :: "nat \<Rightarrow> memStatus"
  mmElection :: "nat \<Rightarrow> LeaderElectionConfiguration"

definition cells where
  "cells m a = (mmInts m a, mmMaps m a, mmAffinities m a, mmStrings m a, mmEnvs m a, mmStrategies m a,
     mmTemplates m a, mmConditions m a, mmItems m a, mmClusters m a, mmClusterLists m a, mmConfigs m a,
     mmSlotsAssignStrategy m a, mmUpdateStrategy m a, mmPodVolume m a, mmPodTemplate m a,
     mmSpec m a, mmCondition m a, mmStatus m a, mmElection m a)"

definition agree :: "nat set \<Rightarrow> memory \<Rightarrow> memory \<Rightarrow> bool" where
  "agree A m m' \<longleftrightarrow> (\<forall>a \<in> A. cells m' a = cells m a)"

text \<open>Allocation only: the old cells are as they were.\<close>

definition extends :: "memory \<Rightarrow> memory \<Rightarrow> bool" where
  "extends m m' \<longleftrightarrow> mmNext m \<le> mmNext m' \<and> agree {..<mmNext m} m m'"

lemma agree_subset: "agree A m m' \<Longrightarrow> B \<subseteq> A \<Longrightarrow> agree B m m'"
  unfolding agree_def by blast

lemma extends_refl [simp]: "extends m m"
  by (simp add: extends_def agree_def)

lemma extends_trans: "extends m m' \<Longrightarrow> extends m' m'' \<Longrightarrow> extends m m''"
  by (auto simp: extends_def agree_def)

section \<open>Cells of one type\<close>

definition newCell :: "(((nat \<Rightarrow> 'v) \<Rightarrow> nat \<Rightarrow> 'v) \<Rightarrow> memory \<Rightarrow> memory) \<Rightarrow> 'v \<Rightarrow> (memory, nat) state" where
  "newCell upd v = do {
     m \<leftarrow> State_Monad.get;
     State_Monad.set ((upd (\<lambda>f. f(mmNext m := v)) m)\<lparr>mmNext := Suc (mmNext m)\<rparr>);
     State_Monad.return (mmNext m) }"

locale cell_type =
  fixes get :: "memory \<Rightarrow> nat \<Rightarrow> 'v"
    and upd :: "((nat \<Rightarrow> 'v) \<Rightarrow> nat \<Rightarrow> 'v) \<Rightarrow> memory \<Rightarrow> memory"
  assumes get_new: "get ((upd (\<lambda>f. f(a := v)) m)\<lparr>mmNext := n\<rparr>) a = v"
    and get_cells: "cells m a = cells m' a \<Longrightarrow> get m a = get m' a"
    and upd_cells: "b \<noteq> a \<Longrightarrow> cells ((upd (\<lambda>f. f(a := v)) m)\<lparr>mmNext := n\<rparr>) b = cells m b"
begin

lemma newCell_run:
  "\<exists>m'. run_state (newCell upd v) m = (mmNext m, m') \<and> extends m m' \<and> mmNext m' = Suc (mmNext m) \<and>
     get m' (mmNext m) = v"
  by (simp add: newCell_def extends_def agree_def upd_cells get_new)

lemma get_agree: "agree A m m' \<Longrightarrow> a \<in> A \<Longrightarrow> get m' a = get m a"
  unfolding agree_def by (blast intro: get_cells)

end

interpretation ints: cell_type mmInts mmInts_update by unfold_locales (simp_all add: cells_def)
interpretation maps: cell_type mmMaps mmMaps_update by unfold_locales (simp_all add: cells_def)
interpretation affinities: cell_type mmAffinities mmAffinities_update by unfold_locales (simp_all add: cells_def)
interpretation strings: cell_type mmStrings mmStrings_update by unfold_locales (simp_all add: cells_def)
interpretation envs: cell_type mmEnvs mmEnvs_update by unfold_locales (simp_all add: cells_def)
interpretation strategies: cell_type mmStrategies mmStrategies_update by unfold_locales (simp_all add: cells_def)
interpretation templates: cell_type mmTemplates mmTemplates_update by unfold_locales (simp_all add: cells_def)
interpretation conditions: cell_type mmConditions mmConditions_update by unfold_locales (simp_all add: cells_def)
interpretation items: cell_type mmItems mmItems_update by unfold_locales (simp_all add: cells_def)
interpretation clusters: cell_type mmClusters mmClusters_update by unfold_locales (simp_all add: cells_def)
interpretation clusterLists: cell_type mmClusterLists mmClusterLists_update by unfold_locales (simp_all add: cells_def)
interpretation configs: cell_type mmConfigs mmConfigs_update by unfold_locales (simp_all add: cells_def)
interpretation strategyCell: cell_type mmSlotsAssignStrategy mmSlotsAssignStrategy_update by unfold_locales (simp_all add: cells_def)
interpretation updateStrategyCell: cell_type mmUpdateStrategy mmUpdateStrategy_update by unfold_locales (simp_all add: cells_def)
interpretation podVolumeCell: cell_type mmPodVolume mmPodVolume_update by unfold_locales (simp_all add: cells_def)
interpretation podTemplateCell: cell_type mmPodTemplate mmPodTemplate_update by unfold_locales (simp_all add: cells_def)
interpretation specCell: cell_type mmSpec mmSpec_update by unfold_locales (simp_all add: cells_def)
interpretation conditionCell: cell_type mmCondition mmCondition_update by unfold_locales (simp_all add: cells_def)
interpretation statusCell: cell_type mmStatus mmStatus_update by unfold_locales (simp_all add: cells_def)
interpretation electionCell: cell_type mmElection mmElection_update by unfold_locales (simp_all add: cells_def)

section \<open>The contract of a deep copy\<close>

text \<open>
  \<open>val\<close> reads the value behind a piece of memory, \<open>reach\<close> is the set of addresses it leads to. A copy
  \<open>y\<close> of \<open>x\<close> made between two states has the same value, and leads to new addresses only.
\<close>

definition clone :: "(memory \<Rightarrow> 'a \<Rightarrow> 'v) \<Rightarrow> (memory \<Rightarrow> 'a \<Rightarrow> nat set) \<Rightarrow> memory \<Rightarrow> memory \<Rightarrow> 'a \<Rightarrow> 'a \<Rightarrow> bool" where
  "clone val reach m m' x y \<longleftrightarrow> extends m m' \<and> val m' y = val m x \<and> reach m' y \<subseteq> {mmNext m..<mmNext m'}"

locale cloner =
  fixes val :: "memory \<Rightarrow> 'a \<Rightarrow> 'v" and reach :: "memory \<Rightarrow> 'a \<Rightarrow> nat set" and copy :: "'a \<Rightarrow> (memory, 'a) state"
  assumes local: "agree A m m' \<Longrightarrow> reach m x \<subseteq> A \<Longrightarrow> val m' x = val m x \<and> reach m' x = reach m x"
    and clones: "reach m x \<subseteq> {..<mmNext m} \<Longrightarrow> run_state (copy x) m = (y, m') \<Longrightarrow> clone val reach m m' x y"
begin

lemma extended:
  assumes "reach m x \<subseteq> {..<mmNext m}" and "extends m m'"
  shows "val m' x = val m x" and "reach m' x = reach m x" and "reach m' x \<subseteq> {..<mmNext m'}"
proof -
  have same: "val m' x = val m x \<and> reach m' x = reach m x"
    using assms local unfolding extends_def by blast
  then show "val m' x = val m x" "reach m' x = reach m x" by blast+
  show "reach m' x \<subseteq> {..<mmNext m'}"
    using same assms unfolding extends_def by fastforce
qed

lemma clone_extends:
  assumes "clone val reach m m' x y" and "extends m' m''"
  shows "clone val reach m m'' x y"
proof -
  have "reach m' y \<subseteq> {..<mmNext m'}"
    using assms(1) unfolding clone_def by auto
  from extended [OF this assms(2)] show ?thesis
    using assms extends_trans unfolding clone_def extends_def by fastforce
qed

text \<open>The step of a chain: one more part of a struct is copied.\<close>

lemma clone_step:
  assumes "extends m m1" and "reach m x \<subseteq> {..<mmNext m}"
  obtains y m2 where "run_state (copy x) m1 = (y, m2)" and "extends m m2" and "extends m1 m2"
    and "clone val reach m m2 x y"
proof -
  obtain y m2 where run: "run_state (copy x) m1 = (y, m2)" by (cases "run_state (copy x) m1")
  have c: "clone val reach m1 m2 x y"
    using clones [OF extended(3) [OF assms(2,1)] run] .
  then have e: "extends m1 m2" by (simp add: clone_def)
  have "clone val reach m m2 x y"
    using c assms(1) extended [OF assms(2,1)] extends_trans [OF assms(1) e]
    unfolding clone_def extends_def by auto
  then show thesis using that run e extends_trans [OF assms(1) e] by blast
qed

text \<open>Neither side sees what is written to the other.\<close>

lemma independent:
  assumes "reach m x \<subseteq> {..<mmNext m}" and "run_state (copy x) m = (y, m')"
  shows "val m' y = val m x" and "extends m m'"
    and "agree {..<mmNext m} m' m'' \<Longrightarrow> val m'' x = val m x"
    and "agree {mmNext m..} m' m'' \<Longrightarrow> val m'' y = val m x"
proof -
  have c: "extends m m'" "val m' y = val m x" "reach m' y \<subseteq> {mmNext m..<mmNext m'}"
    using clones [OF assms] by (simp_all add: clone_def)
  then show "val m' y = val m x" "extends m m'" by simp_all
  show "val m'' x = val m x" if w: "agree {..<mmNext m} m' m''"
  proof -
    have "reach m' x \<subseteq> {..<mmNext m}"
      using extended(2) [OF assms(1) c(1)] assms(1) by simp
    then show ?thesis
      using local [OF w] extended(1) [OF assms(1) c(1)] by simp
  qed
  show "val m'' y = val m x" if w: "agree {mmNext m..} m' m''"
  proof -
    have "reach m' y \<subseteq> {mmNext m..}" using c(3) by auto
    then show ?thesis using local [OF w] c(2) by simp
  qed
qed

end

text \<open>Values without pointers.\<close>

definition plainVal :: "memory \<Rightarrow> 'a \<Rightarrow> 'a" where "plainVal m x = x"
definition plainReach :: "memory \<Rightarrow> 'a \<Rightarrow> nat set" where "plainReach m x = {}"

lemmas plain_defs = plainVal_def plainReach_def

interpretation plain: cloner plainVal plainReach State_Monad.return
  by unfold_locales (auto simp: plain_defs clone_def)

section \<open>Lists of things to copy\<close>

definition listVal :: "(memory \<Rightarrow> 'a \<Rightarrow> 'v) \<Rightarrow> memory \<Rightarrow> 'a list \<Rightarrow> 'v list" where
  "listVal val m xs = map (val m) xs"

definition listReach :: "(memory \<Rightarrow> 'a \<Rightarrow> nat set) \<Rightarrow> memory \<Rightarrow> 'a list \<Rightarrow> nat set" where
  "listReach reach m xs = (\<Union>x \<in> set xs. reach m x)"

context cloner
begin

lemma list_chain:
  assumes "extends m m1" and "listReach reach m xs \<subseteq> {..<mmNext m}"
    and "run_state (State_Monad.traverse_list copy xs) m1 = (ys, m2)"
  shows "extends m1 m2 \<and> clone (listVal val) (listReach reach) m m2 xs ys"
  using assms
proof (induction xs arbitrary: m1 ys)
  case Nil
  then show ?case by (auto simp: clone_def listVal_def listReach_def)
next
  case (Cons x xs)
  have r: "reach m x \<subseteq> {..<mmNext m}" "listReach reach m xs \<subseteq> {..<mmNext m}"
    using Cons.prems(2) by (auto simp: listReach_def)
  obtain y m' where y: "run_state (copy x) m1 = (y, m')" "extends m m'" "extends m1 m'" "clone val reach m m' x y"
    using clone_step [OF Cons.prems(1) r(1)] by blast
  obtain ys' where ys: "run_state (State_Monad.traverse_list copy xs) m' = (ys', m2)" "ys = y # ys'"
    using Cons.prems(3) y(1) by (auto split: prod.splits)
  have rest: "extends m' m2" "clone (listVal val) (listReach reach) m m2 xs ys'"
    using Cons.IH [OF y(2) r(2) ys(1)] by blast+
  have "clone val reach m m2 x y"
    by (rule clone_extends [OF y(4) rest(1)])
  then show ?case
    using rest ys(2) extends_trans [OF y(3) rest(1)] by (auto simp: clone_def listVal_def listReach_def)
qed

lemma list_local:
  "agree A m m' \<Longrightarrow> listReach reach m xs \<subseteq> A \<Longrightarrow>
    listVal val m' xs = listVal val m xs \<and> listReach reach m' xs = listReach reach m xs"
proof -
  assume a: "agree A m m'" "listReach reach m xs \<subseteq> A"
  have "val m' x = val m x \<and> reach m' x = reach m x" if "x \<in> set xs" for x
    using a that by (intro local [OF a(1)]) (auto simp: listReach_def)
  then show ?thesis by (simp add: listVal_def listReach_def)
qed

end

locale cloner_list = cloner val reach copy for val :: "memory \<Rightarrow> 'a \<Rightarrow> 'v" and reach and copy

sublocale cloner_list \<subseteq> lists: cloner "listVal val" "listReach reach" "State_Monad.traverse_list copy"
  by unfold_locales (rule list_local, assumption+, use list_chain [OF extends_refl] in blast)

section \<open>Things behind a pointer\<close>

text \<open>nil is copied to nil; otherwise the cell is read, copied and put into a new cell.\<close>

definition pointerVal :: "(memory \<Rightarrow> nat \<Rightarrow> 'a) \<Rightarrow> (memory \<Rightarrow> 'a \<Rightarrow> 'v) \<Rightarrow> memory \<Rightarrow> addr \<Rightarrow> 'v option" where
  "pointerVal get val m p = map_option (\<lambda>a. val m (get m a)) p"

definition pointerReach :: "(memory \<Rightarrow> nat \<Rightarrow> 'a) \<Rightarrow> (memory \<Rightarrow> 'a \<Rightarrow> nat set) \<Rightarrow> memory \<Rightarrow> addr \<Rightarrow> nat set" where
  "pointerReach get reach m p = (case p of None \<Rightarrow> {} | Some a \<Rightarrow> insert a (reach m (get m a)))"

definition copyPointer :: "(memory \<Rightarrow> nat \<Rightarrow> 'a) \<Rightarrow> (((nat \<Rightarrow> 'a) \<Rightarrow> nat \<Rightarrow> 'a) \<Rightarrow> memory \<Rightarrow> memory) \<Rightarrow>
    ('a \<Rightarrow> (memory, 'a) state) \<Rightarrow> addr \<Rightarrow> (memory, addr) state" where
  "copyPointer get upd copy p =
     (case p of
        None \<Rightarrow> State_Monad.return None
      | Some a \<Rightarrow> do {
          m \<leftarrow> State_Monad.get;
          y \<leftarrow> copy (get m a);
          b \<leftarrow> newCell upd y;
          State_Monad.return (Some b) })"

locale pointer = cell_type get upd + cloner val reach copy
  for get :: "memory \<Rightarrow> nat \<Rightarrow> 'a" and upd and val :: "memory \<Rightarrow> 'a \<Rightarrow> 'v" and reach and copy
begin

lemma pointer_local:
  assumes "agree A m m'" and "pointerReach get reach m p \<subseteq> A"
  shows "pointerVal get val m' p = pointerVal get val m p \<and>
    pointerReach get reach m' p = pointerReach get reach m p"
proof (cases p)
  case (Some a)
  then have "a \<in> A" "reach m (get m a) \<subseteq> A"
    using assms(2) by (auto simp: pointerReach_def)
  then show ?thesis
    using Some get_agree [OF assms(1)] local [OF assms(1)] by (simp add: pointerVal_def pointerReach_def)
qed (simp add: pointerVal_def pointerReach_def)

lemma pointer_clones:
  assumes "pointerReach get reach m p \<subseteq> {..<mmNext m}" and "run_state (copyPointer get upd copy p) m = (q, m')"
  shows "clone (pointerVal get val) (pointerReach get reach) m m' p q"
proof (cases p)
  case None
  then show ?thesis
    using assms(2) by (simp add: copyPointer_def clone_def pointerVal_def pointerReach_def)
next
  case (Some a)
  then have r: "reach m (get m a) \<subseteq> {..<mmNext m}"
    using assms(1) by (simp add: pointerReach_def)
  obtain y m1 where y: "run_state (copy (get m a)) m = (y, m1)" by (cases "run_state (copy (get m a)) m")
  have c: "clone val reach m m1 (get m a) y" by (rule clones [OF r y])
  obtain m2 where new: "run_state (newCell upd y) m1 = (mmNext m1, m2)" "extends m1 m2"
    "mmNext m2 = Suc (mmNext m1)" "get m2 (mmNext m1) = y"
    using newCell_run by blast
  have q: "q = Some (mmNext m1)" "m' = m2"
    using assms(2) Some y new(1) by (simp_all add: copyPointer_def)
  show ?thesis
    using clone_extends [OF c new(2)] c new Some q
    by (auto simp: clone_def pointerVal_def pointerReach_def extends_def)
qed

end

sublocale pointer \<subseteq> pointed: cloner "pointerVal get val" "pointerReach get reach" "copyPointer get upd copy"
  by unfold_locales (rule pointer_local, assumption+, rule pointer_clones)

text \<open>A slice is a pointer to a list.\<close>

locale slice = cell_type get upd + cloner_list val reach copy
  for get :: "memory \<Rightarrow> nat \<Rightarrow> 'a list" and upd and val :: "memory \<Rightarrow> 'a \<Rightarrow> 'v" and reach and copy

sublocale slice \<subseteq> pointer get upd "listVal val" "listReach reach" "State_Monad.traverse_list copy"
  by unfold_locales

end
