(* ===== verification/DeepCopy.thy ===== *)
theory DeepCopy
  imports Memory
begin

text \<open>
  The generated deep copies of \<^verbatim>\<open>zz_generated.deepcopy.go\<close> over the memory of \<^verbatim>\<open>Memory\<close>.
  Values of Kubernetes types (object and list metadata, resources, affinity, environment variables, update
  strategies, times), whose own deep copies are library code, are copied as values. A new array or
  struct is filled before its address is known to anybody; here it is put in place when it is full.
\<close>

section \<open>Slots and update strategies\<close>

definition SlotsAssignStrategyDeepCopyInto :: "memSlotsAssignStrategy \<Rightarrow> (memory, memSlotsAssignStrategy) state" where
  "SlotsAssignStrategyDeepCopyInto x = do {
     slots \<leftarrow> copyPointer mmInts mmInts_update State_Monad.return (msaSlots x);
     State_Monad.return (x\<lparr>msaSlots := slots\<rparr>) }"

definition slotsAssignStrategyOf :: "memory \<Rightarrow> memSlotsAssignStrategy \<Rightarrow> SlotsAssignStrategy" where
  "slotsAssignStrategyOf m x = \<lparr>sasSlots = pointerVal mmInts plainVal m (msaSlots x),
     sasFromReplicas = msaFromReplicas x\<rparr>"

definition slotsAssignStrategyReach :: "memory \<Rightarrow> memSlotsAssignStrategy \<Rightarrow> nat set" where
  "slotsAssignStrategyReach m x = pointerReach mmInts plainReach m (msaSlots x)"

interpretation int: pointer mmInts mmInts_update plainVal plainReach State_Monad.return
  by unfold_locales

interpretation slotsAssignStrategy: cloner slotsAssignStrategyOf slotsAssignStrategyReach SlotsAssignStrategyDeepCopyInto
proof
  show "agree A m m' \<Longrightarrow> slotsAssignStrategyReach m x \<subseteq> A \<Longrightarrow>
      slotsAssignStrategyOf m' x = slotsAssignStrategyOf m x \<and>
      slotsAssignStrategyReach m' x = slotsAssignStrategyReach m x" for A m m' x
    using int.pointed.local [of A m m' "msaSlots x"]
    by (simp add: slotsAssignStrategyOf_def slotsAssignStrategyReach_def)
next
  fix m m' and x y :: memSlotsAssignStrategy
  assume r: "slotsAssignStrategyReach m x \<subseteq> {..<mmNext m}"
    and run: "run_state (SlotsAssignStrategyDeepCopyInto x) m = (y, m')"
  obtain p m1 where "run_state (copyPointer mmInts mmInts_update State_Monad.return (msaSlots x)) m = (p, m1)"
    "clone (pointerVal mmInts plainVal) (pointerReach mmInts plainReach) m m1 (msaSlots x) p"
    using int.pointed.clone_step [OF extends_refl r [unfolded slotsAssignStrategyReach_def]] by blast
  then show "clone slotsAssignStrategyOf slotsAssignStrategyReach m m' x y"
    using run by (auto simp: SlotsAssignStrategyDeepCopyInto_def clone_def slotsAssignStrategyOf_def
        slotsAssignStrategyReach_def)
qed

definition sliceItems :: "'a list option \<Rightarrow> 'a list" where
  "sliceItems s = (case s of None \<Rightarrow> [] | Some xs \<Rightarrow> xs)"

definition RedisClusterUpdateStrategyDeepCopyInto :: "memUpdateStrategy \<Rightarrow> (memory, memUpdateStrategy) state" where
  "RedisClusterUpdateStrategyDeepCopyInto x = do {
     assignStrategies \<leftarrow> copyPointer mmStrategies mmStrategies_update
       (State_Monad.traverse_list SlotsAssignStrategyDeepCopyInto) (musAssignStrategies x);
     State_Monad.return (x\<lparr>musAssignStrategies := assignStrategies\<rparr>) }"

interpretation assignStrategies: slice mmStrategies mmStrategies_update slotsAssignStrategyOf slotsAssignStrategyReach
    SlotsAssignStrategyDeepCopyInto
  by unfold_locales

abbreviation "strategiesVal \<equiv> pointerVal mmStrategies (listVal slotsAssignStrategyOf)"
abbreviation "strategiesReach \<equiv> pointerReach mmStrategies (listReach slotsAssignStrategyReach)"

definition updateStrategyOf :: "memory \<Rightarrow> memUpdateStrategy \<Rightarrow> RedisClusterUpdateStrategy" where
  "updateStrategyOf m x = \<lparr>usType = musType x, usPipeline = musPipeline x,
     usAssignStrategies = sliceItems (strategiesVal m (musAssignStrategies x))\<rparr>"

definition updateStrategyReach :: "memory \<Rightarrow> memUpdateStrategy \<Rightarrow> nat set" where
  "updateStrategyReach m x = strategiesReach m (musAssignStrategies x)"

interpretation updateStrategy: cloner updateStrategyOf updateStrategyReach RedisClusterUpdateStrategyDeepCopyInto
proof
  show "agree A m m' \<Longrightarrow> updateStrategyReach m x \<subseteq> A \<Longrightarrow>
      updateStrategyOf m' x = updateStrategyOf m x \<and> updateStrategyReach m' x = updateStrategyReach m x" for A m m' x
    using assignStrategies.pointed.local [of A m m' "musAssignStrategies x"]
    by (simp add: updateStrategyOf_def updateStrategyReach_def)
next
  fix m m' and x y :: memUpdateStrategy
  assume r: "updateStrategyReach m x \<subseteq> {..<mmNext m}"
    and run: "run_state (RedisClusterUpdateStrategyDeepCopyInto x) m = (y, m')"
  obtain p m1 where "run_state (copyPointer mmStrategies mmStrategies_update
      (State_Monad.traverse_list SlotsAssignStrategyDeepCopyInto) (musAssignStrategies x)) m = (p, m1)"
    "clone strategiesVal strategiesReach m m1 (musAssignStrategies x) p"
    using assignStrategies.pointed.clone_step [OF extends_refl r [unfolded updateStrategyReach_def]] by blast
  then show "clone updateStrategyOf updateStrategyReach m m' x y"
    using run by (auto simp: RedisClusterUpdateStrategyDeepCopyInto_def clone_def updateStrategyOf_def
        updateStrategyReach_def)
qed

section \<open>Pod templates\<close>

definition RedisClusterPodVolumeDeepCopyInto :: "RedisClusterPodVolume \<Rightarrow> (memory, RedisClusterPodVolume) state" where
  "RedisClusterPodVolumeDeepCopyInto x = State_Monad.return x"

definition RedisClusterPodTemplateSpecDeepCopyInto :: "memPodTemplateSpec \<Rightarrow> (memory, memPodTemplateSpec) state" where
  "RedisClusterPodTemplateSpecDeepCopyInto x = do {
     env \<leftarrow> copyPointer mmEnvs mmEnvs_update (State_Monad.traverse_list State_Monad.return) (mptEnv x);
     affinity \<leftarrow> copyPointer mmAffinities mmAffinities_update State_Monad.return (mptAffinity x);
     annotations \<leftarrow> copyPointer mmMaps mmMaps_update State_Monad.return (mptAnnotations x);
     labels \<leftarrow> copyPointer mmMaps mmMaps_update State_Monad.return (mptLabels x);
     State_Monad.return (x\<lparr>mptEnv := env, mptAffinity := affinity, mptAnnotations := annotations,
       mptLabels := labels\<rparr>) }"

interpretation envVars: slice mmEnvs mmEnvs_update plainVal plainReach State_Monad.return by unfold_locales
interpretation affinity: pointer mmAffinities mmAffinities_update plainVal plainReach State_Monad.return by unfold_locales
interpretation stringMap: pointer mmMaps mmMaps_update plainVal plainReach State_Monad.return by unfold_locales

abbreviation "envVal \<equiv> pointerVal mmEnvs (listVal plainVal)"
abbreviation "envReach \<equiv> pointerReach mmEnvs (listReach plainReach)"
abbreviation "affinityVal \<equiv> pointerVal mmAffinities plainVal"
abbreviation "affinityReach \<equiv> pointerReach mmAffinities plainReach"
abbreviation "mapVal \<equiv> pointerVal mmMaps plainVal"
abbreviation "mapReach \<equiv> pointerReach mmMaps plainReach"

definition podTemplateSpecOf :: "memory \<Rightarrow> memPodTemplateSpec \<Rightarrow> RedisClusterPodTemplateSpec" where
  "podTemplateSpecOf m x = \<lparr>ptConfigmap = mptConfigmap x, ptMonitorImage = mptMonitorImage x,
     ptInitImage = mptInitImage x, ptMiddlewareImage = mptMiddlewareImage x, ptVolumes = mptVolumes x,
     ptEnv = sliceItems (envVal m (mptEnv x)), ptResources = mptResources x,
     ptAffinity = affinityVal m (mptAffinity x), ptAnnotations = mapVal m (mptAnnotations x),
     ptLabels = mapVal m (mptLabels x), ptUpdateStrategy = mptUpdateStrategy x\<rparr>"

definition podTemplateSpecReach :: "memory \<Rightarrow> memPodTemplateSpec \<Rightarrow> nat set" where
  "podTemplateSpecReach m x = envReach m (mptEnv x) \<union> affinityReach m (mptAffinity x) \<union>
     mapReach m (mptAnnotations x) \<union> mapReach m (mptLabels x)"

interpretation podTemplateSpec: cloner podTemplateSpecOf podTemplateSpecReach RedisClusterPodTemplateSpecDeepCopyInto
proof
  show "agree A m m' \<Longrightarrow> podTemplateSpecReach m x \<subseteq> A \<Longrightarrow>
      podTemplateSpecOf m' x = podTemplateSpecOf m x \<and> podTemplateSpecReach m' x = podTemplateSpecReach m x" for A m m' x
    using envVars.pointed.local [of A m m' "mptEnv x"] affinity.pointed.local [of A m m' "mptAffinity x"]
      stringMap.pointed.local [of A m m' "mptAnnotations x"] stringMap.pointed.local [of A m m' "mptLabels x"]
    by (simp add: podTemplateSpecOf_def podTemplateSpecReach_def)
next
  fix m m' and x y :: memPodTemplateSpec
  assume r: "podTemplateSpecReach m x \<subseteq> {..<mmNext m}"
    and run: "run_state (RedisClusterPodTemplateSpecDeepCopyInto x) m = (y, m')"
  have rs: "envReach m (mptEnv x) \<subseteq> {..<mmNext m}" "affinityReach m (mptAffinity x) \<subseteq> {..<mmNext m}"
    "mapReach m (mptAnnotations x) \<subseteq> {..<mmNext m}" "mapReach m (mptLabels x) \<subseteq> {..<mmNext m}"
    using r by (auto simp: podTemplateSpecReach_def)
  obtain e m1 where e: "run_state (copyPointer mmEnvs mmEnvs_update (State_Monad.traverse_list State_Monad.return)
      (mptEnv x)) m = (e, m1)" "extends m m1" "clone envVal envReach m m1 (mptEnv x) e"
    using envVars.pointed.clone_step [OF extends_refl rs(1)] by blast
  obtain f m2 where f: "run_state (copyPointer mmAffinities mmAffinities_update State_Monad.return (mptAffinity x)) m1 = (f, m2)"
    "extends m m2" "extends m1 m2" "clone affinityVal affinityReach m m2 (mptAffinity x) f"
    using affinity.pointed.clone_step [OF e(2) rs(2)] by blast
  obtain a m3 where a: "run_state (copyPointer mmMaps mmMaps_update State_Monad.return (mptAnnotations x)) m2 = (a, m3)"
    "extends m m3" "extends m2 m3" "clone mapVal mapReach m m3 (mptAnnotations x) a"
    using stringMap.pointed.clone_step [OF f(2) rs(3)] by blast
  obtain l m4 where l: "run_state (copyPointer mmMaps mmMaps_update State_Monad.return (mptLabels x)) m3 = (l, m4)"
    "extends m m4" "extends m3 m4" "clone mapVal mapReach m m4 (mptLabels x) l"
    using stringMap.pointed.clone_step [OF a(2) rs(4)] by blast
  have "clone envVal envReach m m4 (mptEnv x) e"
    by (rule envVars.pointed.clone_extends [OF e(3) extends_trans [OF f(3) extends_trans [OF a(3) l(3)]]])
  moreover have "clone affinityVal affinityReach m m4 (mptAffinity x) f"
    by (rule affinity.pointed.clone_extends [OF f(4) extends_trans [OF a(3) l(3)]])
  moreover have "clone mapVal mapReach m m4 (mptAnnotations x) a"
    by (rule stringMap.pointed.clone_extends [OF a(4) l(3)])
  moreover have "y = x\<lparr>mptEnv := e, mptAffinity := f, mptAnnotations := a, mptLabels := l\<rparr>" "m' = m4"
    using run by (simp_all add: RedisClusterPodTemplateSpecDeepCopyInto_def e(1) f(1) a(1) l(1))
  ultimately show "clone podTemplateSpecOf podTemplateSpecReach m m' x y"
    using l(4) by (simp add: clone_def podTemplateSpecOf_def podTemplateSpecReach_def)
qed

section \<open>The resource\<close>

definition RedisClusterSpecDeepCopyInto :: "memSpec \<Rightarrow> (memory, memSpec) state" where
  "RedisClusterSpecDeepCopyInto x = do {
     replicas \<leftarrow> copyPointer mmInts mmInts_update State_Monad.return (mspReplicas x);
     updateStrategy \<leftarrow> RedisClusterUpdateStrategyDeepCopyInto (mspUpdateStrategy x);
     pod \<leftarrow> copyPointer mmTemplates mmTemplates_update
       (State_Monad.traverse_list RedisClusterPodTemplateSpecDeepCopyInto) (mspPod x);
     State_Monad.return (x\<lparr>mspReplicas := replicas, mspUpdateStrategy := updateStrategy, mspPod := pod\<rparr>) }"

interpretation podTemplates: slice mmTemplates mmTemplates_update podTemplateSpecOf podTemplateSpecReach
    RedisClusterPodTemplateSpecDeepCopyInto
  by unfold_locales

abbreviation "intVal \<equiv> pointerVal mmInts plainVal"
abbreviation "intReach \<equiv> pointerReach mmInts plainReach"
abbreviation "podVal \<equiv> pointerVal mmTemplates (listVal podTemplateSpecOf)"
abbreviation "podReach \<equiv> pointerReach mmTemplates (listReach podTemplateSpecReach)"

definition specOf :: "memory \<Rightarrow> memSpec \<Rightarrow> RedisClusterSpec" where
  "specOf m x = \<lparr>spReplicas = intVal m (mspReplicas x), spPause = mspPause x, spFinalizers = mspFinalizers x,
     spRepository = mspRepository x, spVersion = mspVersion x,
     spUpdateStrategy = updateStrategyOf m (mspUpdateStrategy x), spPod = sliceItems (podVal m (mspPod x))\<rparr>"

definition specReach :: "memory \<Rightarrow> memSpec \<Rightarrow> nat set" where
  "specReach m x = intReach m (mspReplicas x) \<union> updateStrategyReach m (mspUpdateStrategy x) \<union> podReach m (mspPod x)"

interpretation spec: cloner specOf specReach RedisClusterSpecDeepCopyInto
proof
  show "agree A m m' \<Longrightarrow> specReach m x \<subseteq> A \<Longrightarrow> specOf m' x = specOf m x \<and> specReach m' x = specReach m x" for A m m' x
    using int.pointed.local [of A m m' "mspReplicas x"] updateStrategy.local [of A m m' "mspUpdateStrategy x"]
      podTemplates.pointed.local [of A m m' "mspPod x"]
    by (simp add: specOf_def specReach_def)
next
  fix m m' and x y :: memSpec
  assume r: "specReach m x \<subseteq> {..<mmNext m}" and run: "run_state (RedisClusterSpecDeepCopyInto x) m = (y, m')"
  have rs: "intReach m (mspReplicas x) \<subseteq> {..<mmNext m}" "updateStrategyReach m (mspUpdateStrategy x) \<subseteq> {..<mmNext m}"
    "podReach m (mspPod x) \<subseteq> {..<mmNext m}"
    using r by (auto simp: specReach_def)
  obtain i m1 where i: "run_state (copyPointer mmInts mmInts_update State_Monad.return (mspReplicas x)) m = (i, m1)"
    "extends m m1" "clone intVal intReach m m1 (mspReplicas x) i"
    using int.pointed.clone_step [OF extends_refl rs(1)] by blast
  obtain u m2 where u: "run_state (RedisClusterUpdateStrategyDeepCopyInto (mspUpdateStrategy x)) m1 = (u, m2)"
    "extends m m2" "extends m1 m2" "clone updateStrategyOf updateStrategyReach m m2 (mspUpdateStrategy x) u"
    using updateStrategy.clone_step [OF i(2) rs(2)] by blast
  obtain p m3 where p: "run_state (copyPointer mmTemplates mmTemplates_update
      (State_Monad.traverse_list RedisClusterPodTemplateSpecDeepCopyInto) (mspPod x)) m2 = (p, m3)"
    "extends m m3" "extends m2 m3" "clone podVal podReach m m3 (mspPod x) p"
    using podTemplates.pointed.clone_step [OF u(2) rs(3)] by blast
  have "clone intVal intReach m m3 (mspReplicas x) i"
    by (rule int.pointed.clone_extends [OF i(3) extends_trans [OF u(3) p(3)]])
  moreover have "clone updateStrategyOf updateStrategyReach m m3 (mspUpdateStrategy x) u"
    by (rule updateStrategy.clone_extends [OF u(4) p(3)])
  moreover have "y = x\<lparr>mspReplicas := i, mspUpdateStrategy := u, mspPod := p\<rparr>" "m' = m3"
    using run by (simp_all add: RedisClusterSpecDeepCopyInto_def i(1) u(1) p(1))
  ultimately show "clone specOf specReach m m' x y"
    using p(4) by (simp add: clone_def specOf_def specReach_def)
qed

definition RedisClusterConditionDeepCopyInto :: "RedisClusterCondition \<Rightarrow> (memory, RedisClusterCondition) state" where
  "RedisClusterConditionDeepCopyInto x = State_Monad.return x"

definition RedisClusterStatusDeepCopyInto :: "memStatus \<Rightarrow> (memory, memStatus) state" where
  "RedisClusterStatusDeepCopyInto x = do {
     conditions \<leftarrow> copyPointer mmConditions mmConditions_update
       (State_Monad.traverse_list RedisClusterConditionDeepCopyInto) (mstConditions x);
     State_Monad.return (x\<lparr>mstConditions := conditions\<rparr>) }"

interpretation condition: cloner plainVal plainReach RedisClusterConditionDeepCopyInto
  by unfold_locales (auto simp: RedisClusterConditionDeepCopyInto_def plain_defs clone_def)

interpretation conditionList: slice mmConditions mmConditions_update plainVal plainReach RedisClusterConditionDeepCopyInto
  by unfold_locales

abbreviation "conditionsVal \<equiv> pointerVal mmConditions (listVal plainVal)"
abbreviation "conditionsReach \<equiv> pointerReach mmConditions (listReach plainReach)"

definition statusOf :: "memory \<Rightarrow> memStatus \<Rightarrow> RedisClusterStatus" where
  "statusOf m x = \<lparr>stReplicas = mstReplicas x, stReason = mstReason x, stPhase = mstPhase x,
     stConditions = sliceItems (conditionsVal m (mstConditions x))\<rparr>"

definition statusReach :: "memory \<Rightarrow> memStatus \<Rightarrow> nat set" where
  "statusReach m x = conditionsReach m (mstConditions x)"

interpretation status: cloner statusOf statusReach RedisClusterStatusDeepCopyInto
proof
  show "agree A m m' \<Longrightarrow> statusReach m x \<subseteq> A \<Longrightarrow> statusOf m' x = statusOf m x \<and> statusReach m' x = statusReach m x" for A m m' x
    using conditionList.pointed.local [of A m m' "mstConditions x"] by (simp add: statusOf_def statusReach_def)
next
  fix m m' and x y :: memStatus
  assume r: "statusReach m x \<subseteq> {..<mmNext m}" and run: "run_state (RedisClusterStatusDeepCopyInto x) m = (y, m')"
  obtain p m1 where "run_state (copyPointer mmConditions mmConditions_update
      (State_Monad.traverse_list RedisClusterConditionDeepCopyInto) (mstConditions x)) m = (p, m1)"
    "clone conditionsVal conditionsReach m m1 (mstConditions x) p"
    using conditionList.pointed.clone_step [OF extends_refl r [unfolded statusReach_def]] by blast
  then show "clone statusOf statusReach m m' x y"
    using run by (auto simp: RedisClusterStatusDeepCopyInto_def clone_def statusOf_def statusReach_def)
qed

definition RedisClusterDeepCopyInto :: "memRedisCluster \<Rightarrow> (memory, memRedisCluster) state" where
  "RedisClusterDeepCopyInto x = do {
     spec \<leftarrow> RedisClusterSpecDeepCopyInto (mrcSpec x);
     status \<leftarrow> RedisClusterStatusDeepCopyInto (mrcStatus x);
     State_Monad.return (x\<lparr>mrcSpec := spec, mrcStatus := status\<rparr>) }"

definition redisClusterOf :: "memory \<Rightarrow> memRedisCluster \<Rightarrow> RedisCluster" where
  "redisClusterOf m x = \<lparr>rcName = mrcName x, rcNamespace = mrcNamespace x, rcUID = mrcUID x,
     rcResourceVersion = mrcResourceVersion x, rcSpec = specOf m (mrcSpec x), rcStatus = statusOf m (mrcStatus x)\<rparr>"

definition redisClusterReach :: "memory \<Rightarrow> memRedisCluster \<Rightarrow> nat set" where
  "redisClusterReach m x = specReach m (mrcSpec x) \<union> statusReach m (mrcStatus x)"

interpretation redisCluster: cloner redisClusterOf redisClusterReach RedisClusterDeepCopyInto
proof
  show "agree A m m' \<Longrightarrow> redisClusterReach m x \<subseteq> A \<Longrightarrow>
      redisClusterOf m' x = redisClusterOf m x \<and> redisClusterReach m' x = redisClusterReach m x" for A m m' x
    using spec.local [of A m m' "mrcSpec x"] status.local [of A m m' "mrcStatus x"]
    by (simp add: redisClusterOf_def redisClusterReach_def)
next
  fix m m' and x y :: memRedisCluster
  assume r: "redisClusterReach m x \<subseteq> {..<mmNext m}" and run: "run_state (RedisClusterDeepCopyInto x) m = (y, m')"
  have rs: "specReach m (mrcSpec x) \<subseteq> {..<mmNext m}" "statusReach m (mrcStatus x) \<subseteq> {..<mmNext m}"
    using r by (auto simp: redisClusterReach_def)
  obtain u m1 where u: "run_state (RedisClusterSpecDeepCopyInto (mrcSpec x)) m = (u, m1)"
    "extends m m1" "clone specOf specReach m m1 (mrcSpec x) u"
    using spec.clone_step [OF extends_refl rs(1)] by blast
  obtain t m2 where t: "run_state (RedisClusterStatusDeepCopyInto (mrcStatus x)) m1 = (t, m2)"
    "extends m1 m2" "clone statusOf statusReach m m2 (mrcStatus x) t"
    using status.clone_step [OF u(2) rs(2)] by blast
  have "clone specOf specReach m m2 (mrcSpec x) u"
    by (rule spec.clone_extends [OF u(3) t(2)])
  moreover have "y = x\<lparr>mrcSpec := u, mrcStatus := t\<rparr>" "m' = m2"
    using run by (simp_all add: RedisClusterDeepCopyInto_def u(1) t(1))
  ultimately show "clone redisClusterOf redisClusterReach m m' x y"
    using t(3) by (simp add: clone_def redisClusterOf_def redisClusterReach_def)
qed

section \<open>Objects\<close>

definition RedisClusterDeepCopy :: "addr \<Rightarrow> (memory, addr) state" where
  "RedisClusterDeepCopy = copyPointer mmClusters mmClusters_update RedisClusterDeepCopyInto"

interpretation clusterObject: pointer mmClusters mmClusters_update redisClusterOf redisClusterReach RedisClusterDeepCopyInto
  by unfold_locales

definition RedisClusterListDeepCopyInto :: "memRedisClusterList \<Rightarrow> (memory, memRedisClusterList) state" where
  "RedisClusterListDeepCopyInto x = do {
     items \<leftarrow> copyPointer mmItems mmItems_update (State_Monad.traverse_list RedisClusterDeepCopyInto) (mrlItems x);
     State_Monad.return (x\<lparr>mrlItems := items\<rparr>) }"

definition RedisClusterListDeepCopy :: "addr \<Rightarrow> (memory, addr) state" where
  "RedisClusterListDeepCopy = copyPointer mmClusterLists mmClusterLists_update RedisClusterListDeepCopyInto"

definition LeaderElectionConfigurationDeepCopyInto ::
    "LeaderElectionConfiguration \<Rightarrow> (memory, LeaderElectionConfiguration) state" where
  "LeaderElectionConfigurationDeepCopyInto x = State_Monad.return x"

text \<open>The copies of the parts of a resource behind a pointer.\<close>

definition SlotsAssignStrategyDeepCopy :: "addr \<Rightarrow> (memory, addr) state" where
  "SlotsAssignStrategyDeepCopy = copyPointer mmSlotsAssignStrategy mmSlotsAssignStrategy_update SlotsAssignStrategyDeepCopyInto"

definition RedisClusterUpdateStrategyDeepCopy :: "addr \<Rightarrow> (memory, addr) state" where
  "RedisClusterUpdateStrategyDeepCopy = copyPointer mmUpdateStrategy mmUpdateStrategy_update RedisClusterUpdateStrategyDeepCopyInto"

definition RedisClusterPodVolumeDeepCopy :: "addr \<Rightarrow> (memory, addr) state" where
  "RedisClusterPodVolumeDeepCopy = copyPointer mmPodVolume mmPodVolume_update RedisClusterPodVolumeDeepCopyInto"

definition RedisClusterPodTemplateSpecDeepCopy :: "addr \<Rightarrow> (memory, addr) state" where
  "RedisClusterPodTemplateSpecDeepCopy = copyPointer mmPodTemplate mmPodTemplate_update RedisClusterPodTemplateSpecDeepCopyInto"

definition RedisClusterSpecDeepCopy :: "addr \<Rightarrow> (memory, addr) state" where
  "RedisClusterSpecDeepCopy = copyPointer mmSpec mmSpec_update RedisClusterSpecDeepCopyInto"

definition RedisClusterConditionDeepCopy :: "addr \<Rightarrow> (memory, addr) state" where
  "RedisClusterConditionDeepCopy = copyPointer mmCondition mmCondition_update RedisClusterConditionDeepCopyInto"

definition RedisClusterStatusDeepCopy :: "addr \<Rightarrow> (memory, addr) state" where
  "RedisClusterStatusDeepCopy = copyPointer mmStatus mmStatus_update RedisClusterStatusDeepCopyInto"

definition LeaderElectionConfigurationDeepCopy :: "addr \<Rightarrow> (memory, addr) state" where
  "LeaderElectionConfigurationDeepCopy = copyPointer mmElection mmElection_update LeaderElectionConfigurationDeepCopyInto"

definition OperatorManagerConfigDeepCopyInto ::
    "memOperatorManagerConfig \<Rightarrow> (memory, memOperatorManagerConfig) state" where
  "OperatorManagerConfigDeepCopyInto x = do {
     operators \<leftarrow> copyPointer mmStrings mmStrings_update (State_Monad.traverse_list State_Monad.return) (mocOperators x);
     State_Monad.return (x\<lparr>mocOperators := operators\<rparr>) }"

definition OperatorManagerConfigDeepCopy :: "addr \<Rightarrow> (memory, addr) state" where
  "OperatorManagerConfigDeepCopy = copyPointer mmConfigs mmConfigs_update OperatorManagerConfigDeepCopyInto"

text \<open>A \<open>runtime.Object\<close>: a pointer with its type; nil stays nil.\<close>

datatype runtimeObject = ClusterObject nat | ClusterListObject nat | ConfigObject nat

definition RedisClusterDeepCopyObject :: "addr \<Rightarrow> (memory, runtimeObject option) state" where
  "RedisClusterDeepCopyObject p = do { c \<leftarrow> RedisClusterDeepCopy p; State_Monad.return (map_option ClusterObject c) }"

definition RedisClusterListDeepCopyObject :: "addr \<Rightarrow> (memory, runtimeObject option) state" where
  "RedisClusterListDeepCopyObject p =
     do { c \<leftarrow> RedisClusterListDeepCopy p; State_Monad.return (map_option ClusterListObject c) }"

definition OperatorManagerConfigDeepCopyObject :: "addr \<Rightarrow> (memory, runtimeObject option) state" where
  "OperatorManagerConfigDeepCopyObject p =
     do { c \<leftarrow> OperatorManagerConfigDeepCopy p; State_Monad.return (map_option ConfigObject c) }"

interpretation strategyObject: pointer mmSlotsAssignStrategy mmSlotsAssignStrategy_update slotsAssignStrategyOf slotsAssignStrategyReach SlotsAssignStrategyDeepCopyInto
  by unfold_locales

interpretation updateStrategyObject: pointer mmUpdateStrategy mmUpdateStrategy_update updateStrategyOf updateStrategyReach RedisClusterUpdateStrategyDeepCopyInto
  by unfold_locales

interpretation podTemplateObject: pointer mmPodTemplate mmPodTemplate_update podTemplateSpecOf podTemplateSpecReach RedisClusterPodTemplateSpecDeepCopyInto
  by unfold_locales

interpretation specObject: pointer mmSpec mmSpec_update specOf specReach RedisClusterSpecDeepCopyInto
  by unfold_locales

interpretation statusObject: pointer mmStatus mmStatus_update statusOf statusReach RedisClusterStatusDeepCopyInto
  by unfold_locales

interpretation itemList: slice mmItems mmItems_update redisClusterOf redisClusterReach RedisClusterDeepCopyInto
  by unfold_locales

interpretation operatorNames: slice mmStrings mmStrings_update plainVal plainReach State_Monad.return
  by unfold_locales

abbreviation "itemsVal \<equiv> pointerVal mmItems (listVal redisClusterOf)"
abbreviation "itemsReach \<equiv> pointerReach mmItems (listReach redisClusterReach)"

definition clusterListOf :: "memory \<Rightarrow> memRedisClusterList \<Rightarrow> opaque \<times> RedisCluster list option" where
  "clusterListOf m x = (mrlListMeta x, itemsVal m (mrlItems x))"

definition clusterListReach :: "memory \<Rightarrow> memRedisClusterList \<Rightarrow> nat set" where
  "clusterListReach m x = itemsReach m (mrlItems x)"

interpretation clusterList: cloner clusterListOf clusterListReach RedisClusterListDeepCopyInto
proof
  show "agree A m m' \<Longrightarrow> clusterListReach m x \<subseteq> A \<Longrightarrow>
      clusterListOf m' x = clusterListOf m x \<and> clusterListReach m' x = clusterListReach m x" for A m m' x
    using itemList.pointed.local [of A m m' "mrlItems x"] by (simp add: clusterListOf_def clusterListReach_def)
next
  fix m m' and x y :: memRedisClusterList
  assume r: "clusterListReach m x \<subseteq> {..<mmNext m}" and run: "run_state (RedisClusterListDeepCopyInto x) m = (y, m')"
  obtain p m1 where "run_state (copyPointer mmItems mmItems_update (State_Monad.traverse_list RedisClusterDeepCopyInto)
      (mrlItems x)) m = (p, m1)" "clone itemsVal itemsReach m m1 (mrlItems x) p"
    using itemList.pointed.clone_step [OF extends_refl r [unfolded clusterListReach_def]] by blast
  then show "clone clusterListOf clusterListReach m m' x y"
    using run by (auto simp: RedisClusterListDeepCopyInto_def clone_def clusterListOf_def clusterListReach_def)
qed

interpretation clusterListObject: pointer mmClusterLists mmClusterLists_update clusterListOf clusterListReach
    RedisClusterListDeepCopyInto
  by unfold_locales

section \<open>Copies are independent\<close>

text \<open>The resource at an address, and all the addresses it leads to.\<close>

definition clusterAt :: "memory \<Rightarrow> nat \<Rightarrow> RedisCluster" where
  "clusterAt m a = redisClusterOf m (mmClusters m a)"

definition leadsTo :: "memory \<Rightarrow> nat \<Rightarrow> nat set" where
  "leadsTo m a = pointerReach mmClusters redisClusterReach m (Some a)"

lemma clusterAt_pointer: "pointerVal mmClusters redisClusterOf m (Some a) = Some (clusterAt m a)"
  by (simp add: pointerVal_def clusterAt_def)

lemma nil_copied:
  assumes "run_state (copyPointer get upd copy (Some a)) m = (r, m')"
  shows "\<exists>b. r = Some b"
  using assms by (auto simp: copyPointer_def split: prod.splits)

text \<open>
  C17: a deep copy and its original are independent. If everything a resource leads to has been allocated,
  its copy is a new resource with the same value, the original is as it was, the two share no cell, and
  whatever is written to the cells of one of them, its replica count, label maps, templates, slot
  assignments or conditions, is not seen through the other; so a pass that works on its copy cannot
  change the object in the informer's cache.
\<close>

theorem RedisClusterDeepCopy_independent:
  assumes "leadsTo m a \<subseteq> {..<mmNext m}" and "run_state (RedisClusterDeepCopy (Some a)) m = (r, m')"
  shows "\<exists>b. r = Some b \<and> clusterAt m' b = clusterAt m a \<and> clusterAt m' a = clusterAt m a \<and>
    leadsTo m' a \<inter> leadsTo m' b = {} \<and>
    (\<forall>m''. agree (- leadsTo m' b) m' m'' \<longrightarrow> clusterAt m'' a = clusterAt m a) \<and>
    (\<forall>m''. agree (- leadsTo m' a) m' m'' \<longrightarrow> clusterAt m'' b = clusterAt m a)"
proof -
  note copied = assms(2) [unfolded RedisClusterDeepCopy_def]
  obtain b where r: "r = Some b" using nil_copied [OF copied] by blast
  have c: "extends m m'" "clusterAt m' b = clusterAt m a" "leadsTo m' b \<subseteq> {mmNext m..<mmNext m'}"
    using clusterObject.pointed.clones [OF assms(1) [unfolded leadsTo_def] copied]
    unfolding clone_def r clusterAt_pointer leadsTo_def by simp_all
  have o: "clusterAt m' a = clusterAt m a" "leadsTo m' a = leadsTo m a"
    using clusterObject.pointed.extended [OF assms(1) [unfolded leadsTo_def] c(1)]
    unfolding clusterAt_pointer leadsTo_def by simp_all
  have apart: "leadsTo m' a \<inter> leadsTo m' b = {}"
    using c(3) o(2) assms(1) by fastforce
  have frame: "clusterAt m'' x = clusterAt m' x" if "agree A m' m''" "leadsTo m' x \<subseteq> A" for A m'' x
    using clusterObject.pointed.local [OF that(1), of "Some x"] that(2)
    unfolding clusterAt_pointer leadsTo_def by simp
  have "agree (- leadsTo m' b) m' m'' \<Longrightarrow> clusterAt m'' a = clusterAt m a" for m''
    using frame [of "- leadsTo m' b" m'' a] apart o(1) by auto
  moreover have "agree (- leadsTo m' a) m' m'' \<Longrightarrow> clusterAt m'' b = clusterAt m a" for m''
    using frame [of "- leadsTo m' a" m'' b] apart c(2) by auto
  ultimately show ?thesis
    using r c(2) o(1) apart by blast
qed

text \<open>A resource with three replicas and one template that has a label map.\<close>

definition exampleTemplateCell :: memPodTemplateSpec where
  "exampleTemplateCell = \<lparr>mptConfigmap = ''conf'', mptMonitorImage = [], mptInitImage = [], mptMiddlewareImage = ''redis'',
     mptVolumes = \<lparr>pvType = [], pvPersistentVolumeClaimName = []\<rparr>, mptEnv = None, mptResources = [],
     mptAffinity = None, mptAnnotations = None, mptLabels = Some 1, mptUpdateStrategy = []\<rparr>"

definition exampleMemory :: memory where
  "exampleMemory = \<lparr>mmNext = 4, mmInts = (\<lambda>_. 3), mmMaps = (\<lambda>_. [''tier'' \<mapsto> ''db'']), mmAffinities = (\<lambda>_. []),
     mmStrings = (\<lambda>_. []), mmEnvs = (\<lambda>_. []), mmStrategies = (\<lambda>_. []), mmTemplates = (\<lambda>_. [exampleTemplateCell]),
     mmConditions = (\<lambda>_. []), mmItems = (\<lambda>_. []),
     mmClusters = (\<lambda>_. \<lparr>mrcName = ''r'', mrcNamespace = ''ns'', mrcUID = ''u'', mrcResourceVersion = ''7'',
       mrcSpec = \<lparr>mspReplicas = Some 0, mspPause = False, mspFinalizers = [], mspRepository = [], mspVersion = [],
         mspUpdateStrategy = \<lparr>musType = [], musPipeline = [], musAssignStrategies = None\<rparr>, mspPod = Some 2\<rparr>,
       mrcStatus = \<lparr>mstReplicas = 0, mstReason = [], mstPhase = [], mstConditions = None\<rparr>\<rparr>),
     mmClusterLists = (\<lambda>_. \<lparr>mrlListMeta = [], mrlItems = None\<rparr>),
     mmConfigs = (\<lambda>_. \<lparr>mocOperators = None, mocConcurrentRedisClusterSyncs = 1, mocClusterTimeOut = 20,
       mocControllerStartInterval = 0, mocResyncPeriod = 60, mocLeaderElection = \<lparr>leLeaderElect = False,
         leLeaseDuration = 0, leRenewDeadline = 0, leRetryPeriod = 0, leResourceLock = []\<rparr>, mocPort = 10880,
       mocAddress = [], mocEnableProfiling = True, mocContentType = [], mocKubeAPIQPS = [], mocKubeAPIBurst = 30\<rparr>),
     mmSlotsAssignStrategy = (\<lambda>_. \<lparr>msaSlots = None, msaFromReplicas = []\<rparr>),
     mmUpdateStrategy = (\<lambda>_. \<lparr>musType = [], musPipeline = [], musAssignStrategies = None\<rparr>),
     mmPodVolume = (\<lambda>_. \<lparr>pvType = [], pvPersistentVolumeClaimName = []\<rparr>), mmPodTemplate = (\<lambda>_. exampleTemplateCell),
     mmSpec = (\<lambda>_. \<lparr>mspReplicas = None, mspPause = False, mspFinalizers = [], mspRepository = [], mspVersion = [],
       mspUpdateStrategy = \<lparr>musType = [], musPipeline = [], musAssignStrategies = None\<rparr>, mspPod = None\<rparr>),
     mmCondition = (\<lambda>_. zeroCondition), mmStatus = (\<lambda>_. \<lparr>mstReplicas = 0, mstReason = [], mstPhase = [], mstConditions = None\<rparr>),
     mmElection = (\<lambda>_. \<lparr>leLeaderElect = False, leLeaseDuration = 0, leRenewDeadline = 0, leRetryPeriod = 0, leResourceLock = []\<rparr>)\<rparr>"

lemmas reach_defs = leadsTo_def pointerReach_def redisClusterReach_def specReach_def statusReach_def
  updateStrategyReach_def podTemplateSpecReach_def listReach_def plainReach_def

text \<open>The copy has its own label map: writing the label \<open>app\<close> into it leaves the cached resource alone.\<close>

theorem RedisClusterDeepCopy_independent_witness:
  "\<exists>b m'. run_state (RedisClusterDeepCopy (Some 3)) exampleMemory = (Some b, m') \<and>
     clusterAt m' b = clusterAt exampleMemory 3 \<and> leadsTo m' 3 \<inter> leadsTo m' b = {}"
proof -
  obtain r m' where run: "run_state (RedisClusterDeepCopy (Some 3)) exampleMemory = (r, m')"
    by (cases "run_state (RedisClusterDeepCopy (Some 3)) exampleMemory")
  have "leadsTo exampleMemory 3 \<subseteq> {..<mmNext exampleMemory}"
    by (simp add: reach_defs exampleMemory_def exampleTemplateCell_def)
  from RedisClusterDeepCopy_independent [OF this run] run show ?thesis by blast
qed

text \<open>The same for a list of resources, each of whose items is copied.\<close>

theorem RedisClusterListDeepCopy_independent:
  assumes "pointerReach mmClusterLists clusterListReach m (Some a) \<subseteq> {..<mmNext m}"
    and "run_state (RedisClusterListDeepCopy (Some a)) m = (r, m')"
  shows "\<exists>b. r = Some b \<and> clusterListOf m' (mmClusterLists m' b) = clusterListOf m (mmClusterLists m a) \<and>
    (\<forall>m''. agree {..<mmNext m} m' m'' \<longrightarrow> clusterListOf m'' (mmClusterLists m'' a) = clusterListOf m (mmClusterLists m a)) \<and>
    (\<forall>m''. agree {mmNext m..} m' m'' \<longrightarrow> clusterListOf m'' (mmClusterLists m'' b) = clusterListOf m (mmClusterLists m a))"
proof -
  note copied = assms(2) [unfolded RedisClusterListDeepCopy_def]
  obtain b where r: "r = Some b" using nil_copied [OF copied] by blast
  show ?thesis
    using clusterListObject.pointed.independent [OF assms(1) copied [unfolded r]] r by (simp add: pointerVal_def)
qed

end
