(* ===== verification/Informers.thy ===== *)
theory Informers
  imports ApiTypes
begin

text \<open>
  The shared informer factory of \<^verbatim>\<open>informers/externalversions/factory.go\<close> with its options, the
  informer and lister of RedisClusters it hands out (\<^verbatim>\<open>redis/v1alpha1/rediscluster.go\<close>) and the
  generic access of \<^verbatim>\<open>generic.go\<close>. An informer is known by its number; what it is built for, with
  which namespace, filter and resync period, is kept with it. The factory of the Kubernetes types that the
  operator uses for stateful sets is the same code.
\<close>

section \<open>The factory\<close>

type_synonym informerType = string

abbreviation RedisClusterType :: informerType where "RedisClusterType \<equiv> ''*v1alpha1.RedisCluster''"
abbreviation StatefulSetType :: informerType where "StatefulSetType \<equiv> ''*v1.StatefulSet''"

text \<open>A function that changes list options, or nil.\<close>

type_synonym 'o tweak = "('o \<Rightarrow> 'o) option"

record 'o sharedInformer =
  siType :: informerType
  siNamespace :: string
  siTweak :: "'o tweak"
  siResync :: int64

text \<open>
  \<open>sfRunning\<close> are the informers for which a goroutine has been started, in order; \<open>sfBuilt\<close> all that were
  ever built.
\<close>

record 'o sharedInformerFactory =
  sfNamespace :: string
  sfTweakListOptions :: "'o tweak"
  sfDefaultResync :: int64
  sfCustomResync :: "informerType \<rightharpoonup> int64"
  sfInformers :: "informerType \<rightharpoonup> nat"
  sfStartedInformers :: "informerType set"
  sfBuilt :: "'o sharedInformer list"
  sfRunning :: "nat list"

section \<open>Construction\<close>

type_synonym 'o SharedInformerOption = "'o sharedInformerFactory \<Rightarrow> 'o sharedInformerFactory"

text \<open>The types of the given objects, in the order in which the map is visited.\<close>

definition WithCustomResyncConfig :: "(informerType \<times> int64) list \<Rightarrow> 'o SharedInformerOption" where
  "WithCustomResyncConfig resyncConfig factory =
     foldl (\<lambda>f (k, v). f\<lparr>sfCustomResync := (sfCustomResync f)(k \<mapsto> v)\<rparr>) factory resyncConfig"

definition WithTweakListOptions :: "'o tweak \<Rightarrow> 'o SharedInformerOption" where
  "WithTweakListOptions tweakListOptions factory = factory\<lparr>sfTweakListOptions := tweakListOptions\<rparr>"

definition WithNamespace :: "string \<Rightarrow> 'o SharedInformerOption" where
  "WithNamespace namespace factory = factory\<lparr>sfNamespace := namespace\<rparr>"

definition NewSharedInformerFactoryWithOptions ::
    "int64 \<Rightarrow> 'o SharedInformerOption list \<Rightarrow> 'o sharedInformerFactory" where
  "NewSharedInformerFactoryWithOptions defaultResync options =
     foldl (\<lambda>factory opt. opt factory)
       \<lparr>sfNamespace = [], sfTweakListOptions = None, sfDefaultResync = defaultResync, sfCustomResync = Map.empty,
        sfInformers = Map.empty, sfStartedInformers = {}, sfBuilt = [], sfRunning = []\<rparr> options"

definition NewSharedInformerFactory :: "int64 \<Rightarrow> 'o sharedInformerFactory" where
  "NewSharedInformerFactory defaultResync = NewSharedInformerFactoryWithOptions defaultResync []"

definition NewFilteredSharedInformerFactory :: "int64 \<Rightarrow> string \<Rightarrow> 'o tweak \<Rightarrow> 'o sharedInformerFactory" where
  "NewFilteredSharedInformerFactory defaultResync namespace tweakListOptions =
     NewSharedInformerFactoryWithOptions defaultResync
       [WithNamespace namespace, WithTweakListOptions tweakListOptions]"

section \<open>Operations\<close>

text \<open>The informers in the order in which the map is visited; the goroutine is started under the lock.\<close>

definition startInformer :: "informerType \<Rightarrow> 'o sharedInformerFactory \<Rightarrow> 'o sharedInformerFactory" where
  "startInformer informerType f =
     (case sfInformers f informerType of
        None \<Rightarrow> f
      | Some informer \<Rightarrow>
          if informerType \<notin> sfStartedInformers f
          then f\<lparr>sfRunning := sfRunning f @ [informer],
                 sfStartedInformers := insert informerType (sfStartedInformers f)\<rparr>
          else f)"

definition startFactory :: "informerType list \<Rightarrow> 'o sharedInformerFactory \<Rightarrow> 'o sharedInformerFactory" where
  "startFactory order f = fold startInformer order f"

text \<open>For every started type, whether its cache has been synced.\<close>

definition WaitForCacheSync :: "(nat \<Rightarrow> bool) \<Rightarrow> 'o sharedInformerFactory \<Rightarrow> (informerType \<rightharpoonup> bool)" where
  "WaitForCacheSync synced f =
     (\<lambda>informType. if informType \<in> sfStartedInformers f then map_option synced (sfInformers f informType) else None)"

definition InformerFor :: "informerType \<Rightarrow> (int64 \<Rightarrow> 'o sharedInformer) \<Rightarrow> 'o sharedInformerFactory \<Rightarrow>
    nat \<times> 'o sharedInformerFactory" where
  "InformerFor informerType newFunc f =
     (case sfInformers f informerType of
        Some informer \<Rightarrow> (informer, f)
      | None \<Rightarrow>
          let resyncPeriod = (case sfCustomResync f informerType of Some p \<Rightarrow> p | None \<Rightarrow> sfDefaultResync f);
              informer = length (sfBuilt f) in
          (informer, f\<lparr>sfBuilt := sfBuilt f @ [newFunc resyncPeriod],
             sfInformers := (sfInformers f)(informerType \<mapsto> informer)\<rparr>))"

section \<open>The informer of RedisClusters\<close>

text \<open>\<open>Cr().V1alpha1().RedisClusters()\<close>: namespace and filter of the factory.\<close>

record 'o redisClusterInformer =
  riTweakListOptions :: "'o tweak"
  riNamespace :: string

definition RedisClusters :: "'o sharedInformerFactory \<Rightarrow> 'o redisClusterInformer" where
  "RedisClusters f = \<lparr>riTweakListOptions = sfTweakListOptions f, riNamespace = sfNamespace f\<rparr>"

definition NewFilteredRedisClusterInformer :: "string \<Rightarrow> int64 \<Rightarrow> 'o tweak \<Rightarrow> 'o sharedInformer" where
  "NewFilteredRedisClusterInformer namespace resyncPeriod tweakListOptions =
     \<lparr>siType = RedisClusterType, siNamespace = namespace, siTweak = tweakListOptions, siResync = resyncPeriod\<rparr>"

definition NewRedisClusterInformer :: "string \<Rightarrow> int64 \<Rightarrow> 'o sharedInformer" where
  "NewRedisClusterInformer namespace resyncPeriod = NewFilteredRedisClusterInformer namespace resyncPeriod None"

text \<open>What an informer asks the server for: the options after the filter.\<close>

definition listWatch :: "'o sharedInformer \<Rightarrow> (string \<Rightarrow> 'o \<Rightarrow> 'r) \<Rightarrow> 'o \<Rightarrow> 'r" where
  "listWatch informer request options =
     request (siNamespace informer)
       (case siTweak informer of None \<Rightarrow> options | Some tweakListOptions \<Rightarrow> tweakListOptions options)"

definition defaultInformer :: "'o redisClusterInformer \<Rightarrow> int64 \<Rightarrow> 'o sharedInformer" where
  "defaultInformer i resyncPeriod =
     NewFilteredRedisClusterInformer (riNamespace i) resyncPeriod (riTweakListOptions i)"

definition Informer :: "'o redisClusterInformer \<Rightarrow> 'o sharedInformerFactory \<Rightarrow> nat \<times> 'o sharedInformerFactory" where
  "Informer i = InformerFor RedisClusterType (defaultInformer i)"

text \<open>The lister reads the indexer of the informer; it is known by the informer.\<close>

definition Lister :: "'o redisClusterInformer \<Rightarrow> 'o sharedInformerFactory \<Rightarrow> nat \<times> 'o sharedInformerFactory" where
  "Lister i f = Informer i f"

definition ForResource :: "string \<times> string \<times> string \<Rightarrow> 'o sharedInformerFactory \<Rightarrow>
    (gerr + (string \<times> string) \<times> nat) \<times> 'o sharedInformerFactory" where
  "ForResource resource f =
     (if resource = (GroupName, GroupVersion, ''redisclusters'')
      then (case Informer (RedisClusters f) f of (informer, f') \<Rightarrow> (Inr ((GroupName, ''redisclusters''), informer), f'))
      else (Inl (Err (''no informer found for '' @ fst resource @ ''/'' @ fst (snd resource) @ '', Resource='' @
             snd (snd resource))), f))"

section \<open>Every informer is started once\<close>

text \<open>
  What holds of a factory at any time: every type has an informer of its own, built for it; the running
  ones are those of the started types, once each.
\<close>

definition wellBuilt :: "'o sharedInformerFactory \<Rightarrow> bool" where
  "wellBuilt f \<longleftrightarrow> inj_on (sfInformers f) (dom (sfInformers f)) \<and>
     (\<forall>t i. sfInformers f t = Some i \<longrightarrow> i < length (sfBuilt f) \<and> siType (sfBuilt f ! i) = t) \<and>
     sfStartedInformers f \<subseteq> dom (sfInformers f) \<and> distinct (sfRunning f) \<and>
     set (sfRunning f) = {i. \<exists>t \<in> sfStartedInformers f. sfInformers f t = Some i}"

lemma wellBuilt_new: "wellBuilt (NewSharedInformerFactory defaultResync)"
  by (simp add: wellBuilt_def NewSharedInformerFactory_def NewSharedInformerFactoryWithOptions_def)

lemma wellBuilt_InformerFor:
  assumes "wellBuilt f" and "\<And>p. siType (newFunc p) = t"
  shows "wellBuilt (snd (InformerFor t newFunc f))"
proof (cases "sfInformers f t")
  case None
  then have new: "t \<notin> sfStartedInformers f" "sfInformers f u \<noteq> Some (length (sfBuilt f))" for u
    using assms(1) unfolding wellBuilt_def by fastforce+
  have "inj_on ((sfInformers f)(t \<mapsto> length (sfBuilt f))) (insert t (dom (sfInformers f)))"
    using assms(1) new(2) by (auto simp: wellBuilt_def inj_on_def dom_def)
  moreover have "{i. \<exists>u \<in> sfStartedInformers f. ((sfInformers f)(t \<mapsto> length (sfBuilt f))) u = Some i} =
      {i. \<exists>u \<in> sfStartedInformers f. sfInformers f u = Some i}"
    using new(1) by (intro Collect_cong bex_cong) auto
  ultimately show ?thesis
    using None assms
    by (auto simp: wellBuilt_def InformerFor_def Let_def nth_append less_Suc_eq simp del: fun_upd_apply)
      (auto split: if_splits)
qed (simp add: InformerFor_def assms(1))

lemma wellBuilt_startInformer:
  assumes "wellBuilt f"
  shows "wellBuilt (startInformer t f)"
proof (cases "sfInformers f t")
  case (Some i)
  have "i \<notin> set (sfRunning f)" if "t \<notin> sfStartedInformers f"
  proof
    assume "i \<in> set (sfRunning f)"
    then obtain u where "u \<in> sfStartedInformers f" "sfInformers f u = Some i"
      using assms by (auto simp: wellBuilt_def)
    then show False
      using that Some assms unfolding wellBuilt_def inj_on_def by (metis domI)
  qed
  then show ?thesis
    using Some assms by (auto simp: wellBuilt_def startInformer_def)
qed (simp add: startInformer_def assms)

lemma startInformer_informers [simp]: "sfInformers (startInformer t f) = sfInformers f"
  by (simp add: startInformer_def split: option.splits)

lemma startInformer_started:
  "sfStartedInformers (startInformer t f) = sfStartedInformers f \<union> ({t} \<inter> dom (sfInformers f))"
  by (auto simp: startInformer_def split: option.splits)

lemma startFactory_simps:
  "sfInformers (startFactory order f) = sfInformers f"
  "sfStartedInformers (startFactory order f) = sfStartedInformers f \<union> (set order \<inter> dom (sfInformers f))"
  "wellBuilt f \<Longrightarrow> wellBuilt (startFactory order f)"
  unfolding startFactory_def
  by (induction order arbitrary: f) (auto simp: startInformer_started wellBuilt_startInformer)

text \<open>Uses of a factory: asking for an informer of a type, starting what has been asked for.\<close>

datatype factoryUse = Ask informerType | StartAll "informerType list"

fun useFactory :: "'o sharedInformerFactory \<Rightarrow> factoryUse \<Rightarrow> 'o sharedInformerFactory" where
  "useFactory f (Ask t) = snd (InformerFor t (\<lambda>p. \<lparr>siType = t, siNamespace = sfNamespace f,
     siTweak = sfTweakListOptions f, siResync = p\<rparr>) f)"
| "useFactory f (StartAll order) = startFactory order f"

text \<open>
  The types asked for, the types asked for before some start, and that every start visits the types
  asked for until then.
\<close>

definition asked :: "factoryUse list \<Rightarrow> informerType set" where
  "asked uses = {t. Ask t \<in> set uses}"

fun startedAfter :: "informerType set \<Rightarrow> factoryUse list \<Rightarrow> informerType set" where
  "startedAfter known [] = {}"
| "startedAfter known (Ask t # uses) = startedAfter (insert t known) uses"
| "startedAfter known (StartAll order # uses) = known \<union> startedAfter known uses"

fun properAfter :: "informerType set \<Rightarrow> factoryUse list \<Rightarrow> bool" where
  "properAfter known [] \<longleftrightarrow> True"
| "properAfter known (Ask t # uses) \<longleftrightarrow> properAfter (insert t known) uses"
| "properAfter known (StartAll order # uses) \<longleftrightarrow> set order = known \<and> properAfter known uses"

lemma InformerFor_dom: "dom (sfInformers (snd (InformerFor t newFunc f))) = insert t (dom (sfInformers f))"
  "sfStartedInformers (snd (InformerFor t newFunc f)) = sfStartedInformers f"
  by (auto simp: InformerFor_def Let_def split: option.splits)

lemma uses_state:
  assumes "wellBuilt f" and "properAfter (dom (sfInformers f)) uses"
  shows "wellBuilt (foldl useFactory f uses) \<and>
    dom (sfInformers (foldl useFactory f uses)) = dom (sfInformers f) \<union> asked uses \<and>
    sfStartedInformers (foldl useFactory f uses) = sfStartedInformers f \<union> startedAfter (dom (sfInformers f)) uses"
  using assms
proof (induction uses arbitrary: f)
  case Nil
  then show ?case by (simp add: asked_def)
next
  case (Cons u us)
  show ?case
  proof (cases u)
    case (Ask t)
    let ?f = "useFactory f (Ask t)"
    have "wellBuilt ?f"
      using Cons.prems(1) by (simp add: wellBuilt_InformerFor)
    moreover have "dom (sfInformers ?f) = insert t (dom (sfInformers f))" "sfStartedInformers ?f = sfStartedInformers f"
      by (simp_all add: InformerFor_dom)
    ultimately show ?thesis
      using Cons.IH [of ?f] Cons.prems(2) Ask by (auto simp: asked_def simp del: useFactory.simps)
  next
    case (StartAll order)
    let ?f = "useFactory f (StartAll order)"
    have "wellBuilt ?f"
      using Cons.prems(1) by (simp add: startFactory_simps)
    moreover have "sfInformers ?f = sfInformers f" "sfStartedInformers ?f = sfStartedInformers f \<union> dom (sfInformers f)"
      using Cons.prems(2) StartAll by (simp_all add: startFactory_simps)
    ultimately show ?thesis
      using Cons.IH [of ?f] Cons.prems(2) StartAll by (auto simp: asked_def simp del: useFactory.simps)
  qed
qed

text \<open>
  C19: every informer is started once, and none is forgotten. After any sequence of requests for
  informers and starts of a new factory, in which a start visits the types asked for until then in any
  order, no informer has two goroutines; the running informers are exactly those of the types that were
  asked for before some start; and each of them was built for its type.
\<close>

theorem informers_started_once:
  fixes f :: "'o sharedInformerFactory"
  assumes "properAfter {} uses" and "f = foldl useFactory (NewSharedInformerFactory defaultResync) uses"
  shows "distinct (sfRunning f) \<and> set (sfRunning f) = {i. \<exists>t \<in> startedAfter {} uses. sfInformers f t = Some i} \<and>
    startedAfter {} uses \<subseteq> dom (sfInformers f) \<and> dom (sfInformers f) = asked uses \<and>
    (\<forall>t i. sfInformers f t = Some i \<longrightarrow> siType (sfBuilt f ! i) = t)"
proof -
  let ?new = "NewSharedInformerFactory defaultResync :: 'o sharedInformerFactory"
  have new: "sfInformers ?new = Map.empty" "sfStartedInformers ?new = {}"
    by (simp_all add: NewSharedInformerFactory_def NewSharedInformerFactoryWithOptions_def)
  have "wellBuilt f \<and> dom (sfInformers f) = asked uses \<and> sfStartedInformers f = startedAfter {} uses"
    using uses_state [of ?new uses, OF wellBuilt_new] assms by (simp add: new)
  then show ?thesis
    unfolding wellBuilt_def by auto
qed

definition exampleUses :: "factoryUse list" where
  "exampleUses = [Ask RedisClusterType, Ask RedisClusterType, StartAll [RedisClusterType], StartAll [RedisClusterType]]"

theorem informers_started_once_witness:
  "distinct (sfRunning (foldl useFactory (NewSharedInformerFactory 60) exampleUses)) \<and>
   startedAfter {} exampleUses = {RedisClusterType}"
proof -
  have proper: "properAfter {} exampleUses" and started: "startedAfter {} exampleUses = {RedisClusterType}"
    by (simp_all add: exampleUses_def)
  show ?thesis
    using informers_started_once [OF proper refl, of 60] started by blast
qed

text \<open>An informer handed out stays the informer of its type; options decide on namespace and filter.\<close>

lemma InformerFor_same:
  assumes "InformerFor t newFunc f = (i, f')"
  shows "InformerFor t newFunc' f' = (i, f')"
  using assms by (auto simp: InformerFor_def Let_def split: option.splits)

lemma filtered_informer:
  "sfBuilt (snd (Informer (RedisClusters f) f)) = [\<lparr>siType = RedisClusterType, siNamespace = namespace,
     siTweak = tweakListOptions, siResync = defaultResync\<rparr>]"
  if "f = NewFilteredSharedInformerFactory defaultResync namespace tweakListOptions"
  unfolding that
  by (simp add: NewFilteredSharedInformerFactory_def NewSharedInformerFactoryWithOptions_def WithNamespace_def
      WithTweakListOptions_def Informer_def InformerFor_def RedisClusters_def defaultInformer_def
      NewFilteredRedisClusterInformer_def)

end
