(* ===== verification/Startup.thy ===== *)
theory Startup
  imports Informers Memory WorkQueue
begin

text \<open>
  From the command line to running workers: the options (\<^verbatim>\<open>options.go\<close>, \<^verbatim>\<open>config.go\<close>),
  \<^verbatim>\<open>main\<close>, \<^verbatim>\<open>Run\<close> and its parts (\<^verbatim>\<open>operatormanager.go\<close>,
  \<^verbatim>\<open>extensions.go\<close>), the construction and the \<^verbatim>\<open>Run\<close> of the operator
  (\<^verbatim>\<open>redis_operator.go\<close>). The replies of the cluster, of the operating system and of the leader
  election are a parameter; what the process does is a trace. Goroutines are events of the trace: the
  recorder of events, and the HTTP server, whose failure would end the process as well, are not followed
  further.
\<close>

section \<open>Options\<close>

record OperatorManagerServer =
  omsOperators :: "string list"
  omsConcurrentRedisClusterSyncs :: int32
  omsClusterTimeOut :: int32
  omsControllerStartInterval :: int64
  omsResyncPeriod :: int64
  omsLeaderElection :: LeaderElectionConfiguration
  omsPort :: int32
  omsAddress :: string
  omsEnableProfiling :: bool
  omsKubeAPIQPS :: opaque
  omsKubeAPIBurst :: int32
  omsMaster :: string
  omsKubeconfig :: string

abbreviation second :: int64 where "second \<equiv> 1000000000"

definition DefaultLeaderElectionConfiguration :: LeaderElectionConfiguration where
  "DefaultLeaderElectionConfiguration = \<lparr>leLeaderElect = False, leLeaseDuration = 15 * second,
     leRenewDeadline = 10 * second, leRetryPeriod = 2 * second, leResourceLock = ''endpoints''\<rparr>"

definition NewOMServer :: OperatorManagerServer where
  "NewOMServer = \<lparr>omsOperators = [''*''], omsConcurrentRedisClusterSyncs = 1, omsClusterTimeOut = 20,
     omsControllerStartInterval = 0, omsResyncPeriod = 60, omsLeaderElection = DefaultLeaderElectionConfiguration,
     omsPort = 10880, omsAddress = ''0.0.0.0'', omsEnableProfiling = True, omsKubeAPIQPS = ''20.0'',
     omsKubeAPIBurst = 30, omsMaster = [], omsKubeconfig = []\<rparr>"

text \<open>Registering a flag sets its variable to the default of the flag; three defaults are literals.\<close>

definition AddFlags :: "OperatorManagerServer \<Rightarrow> OperatorManagerServer" where
  "AddFlags s = s\<lparr>omsResyncPeriod := 60, omsClusterTimeOut := 20, omsPort := 10880\<rparr>"

fun enabledFrom :: "string \<Rightarrow> bool \<Rightarrow> string list \<Rightarrow> bool" where
  "enabledFrom name hasStar [] = hasStar"
| "enabledFrom name hasStar (ctrl # ctrls) =
     (if ctrl = name then True
      else if ctrl = ''-'' @ name then False
      else enabledFrom name (if ctrl = ''*'' then True else hasStar) ctrls)"

definition IsOperatorEnabled :: "string \<Rightarrow> string list \<Rightarrow> bool" where
  "IsOperatorEnabled name controllers = enabledFrom name False controllers"

section \<open>The process\<close>

text \<open>How a step of the process ends: it returns, \<open>glog.Fatalf\<close> exits, it panics, or it blocks for ever.\<close>

datatype 'a exit = Done 'a | Fatal | Crash | Blocked

datatype factoryName = RedisFactory | CoreFactory

text \<open>The custom resource definition the process asks the cluster for.\<close>

record CustomResourceDefinition =
  crdName :: string
  crdGroup :: string
  crdVersion :: string
  crdScope :: string
  crdKind :: string
  crdListKind :: string
  crdPlural :: string
  crdSingular :: string
  crdShortNames :: "string list"

definition redisClusterCRD :: CustomResourceDefinition where
  "redisClusterCRD = \<lparr>crdName = ''redisclusters.'' @ GroupName, crdGroup = GroupName, crdVersion = GroupVersion,
     crdScope = ''Namespaced'', crdKind = ''RedisCluster'', crdListKind = ''RedisClusterList'',
     crdPlural = ''redisclusters'', crdSingular = ''rediscluster'', crdShortNames = [''rec'']\<rparr>"

datatype startEvent =
    CreateCRD CustomResourceDefinition
  | ServeHTTP string "string list"
  | AcquireLease
  | LoseLease
  | SleepJitter int64
  | AddEventHandler informerType
  | GoRun int
  | StartFactory factoryName
  | InformersStarted

text \<open>
  What becomes of the attempt to lead: it waits for ever, leads for ever, or leads and loses the lease when
  the callback, which runs beside the renewal, has done some number of events.
\<close>

datatype leadership = Waits | Leads | Loses nat

record startEnv =
  seBuildConfig :: error
  seKubeClient :: error
  seLeaderClient :: error
  seExtensionClient :: error
  seCreateCRD :: error
  seHostname :: error
  seLock :: error
  seJitter :: "int64 \<Rightarrow> int64"
  seLeadership :: leadership
  seClient :: "string \<Rightarrow> error"

record process =
  prRedis :: "unit sharedInformerFactory"
  prCore :: "unit sharedInformerFactory"
  prTrace :: "startEvent list"

type_synonym 'a proc = "process \<Rightarrow> 'a exit \<times> process"

definition finish :: "'a \<Rightarrow> 'a proc" where "finish x p = (Done x, p)"
definition halt :: "'a exit \<Rightarrow> 'a proc" where "halt e p = (e, p)"
definition traced :: "startEvent \<Rightarrow> unit proc" where "traced e p = (Done (), p\<lparr>prTrace := prTrace p @ [e]\<rparr>)"

definition andThen :: "'a proc \<Rightarrow> ('a \<Rightarrow> 'b proc) \<Rightarrow> 'b proc" where
  "andThen m f p =
     (case m p of
        (Done x, p') \<Rightarrow> f x p'
      | (Fatal, p') \<Rightarrow> (Fatal, p')
      | (Crash, p') \<Rightarrow> (Crash, p')
      | (Blocked, p') \<Rightarrow> (Blocked, p'))"

definition onFactory :: "factoryName \<Rightarrow> (unit sharedInformerFactory \<Rightarrow> 'a \<times> unit sharedInformerFactory) \<Rightarrow> 'a proc" where
  "onFactory n use p =
     (case n of
        RedisFactory \<Rightarrow> (case use (prRedis p) of (x, f) \<Rightarrow> (Done x, p\<lparr>prRedis := f\<rparr>))
      | CoreFactory \<Rightarrow> (case use (prCore p) of (x, f) \<Rightarrow> (Done x, p\<lparr>prCore := f\<rparr>)))"

section \<open>The operator\<close>

text \<open>The informer of the stateful sets, of the factory for Kubernetes types.\<close>

definition statefulSetInformer :: "unit sharedInformerFactory \<Rightarrow> nat \<times> unit sharedInformerFactory" where
  "statefulSetInformer f = InformerFor StatefulSetType (\<lambda>resyncPeriod. \<lparr>siType = StatefulSetType,
     siNamespace = sfNamespace f, siTweak = sfTweakListOptions f, siResync = resyncPeriod\<rparr>) f"

definition NewRedisClusterOperator :: "unit redisClusterInformer \<Rightarrow> unit proc" where
  "NewRedisClusterOperator redisInformer =
     andThen (onFactory RedisFactory (Informer redisInformer)) (\<lambda>_.
     andThen (traced (AddEventHandler RedisClusterType)) (\<lambda>_.
     andThen (onFactory RedisFactory (Informer redisInformer)) (\<lambda>_.
     andThen (onFactory RedisFactory (Lister redisInformer)) (\<lambda>_.
     andThen (onFactory CoreFactory statefulSetInformer) (\<lambda>_.
     andThen (traced (AddEventHandler StatefulSetType)) (\<lambda>_.
     andThen (onFactory CoreFactory statefulSetInformer) (\<lambda>_.
     andThen (onFactory CoreFactory statefulSetInformer) (\<lambda>_. finish ()))))))))"

text \<open>
  \<^verbatim>\<open>Run\<close> of the operator, in its own goroutine: how many workers it starts, and the queue when
  it has returned; with synced caches it returns only when it is stopped.
\<close>

definition operatorRun :: "int \<Rightarrow> bool \<Rightarrow> bool \<Rightarrow> workqueue \<Rightarrow> nat \<times> workqueue exit" where
  "operatorRun workers synced stopped q =
     (if \<not> synced then (0, Done (queueShutDown q))
      else (nat workers, if stopped then Done (queueShutDown q) else Blocked))"

section \<open>Starting\<close>

definition clientOrDie :: "startEnv \<Rightarrow> string \<Rightarrow> unit proc" where
  "clientOrDie env name = (if seClient env name \<noteq> None then halt Fatal else finish ())"

definition startRedisClusterController :: "startEnv \<Rightarrow> OperatorManagerServer \<Rightarrow> (bool \<times> error) proc" where
  "startRedisClusterController env s p =
     andThen (clientOrDie env ''default-kube-client'') (\<lambda>_.
     andThen (clientOrDie env ''rediscluster-operator'') (\<lambda>_.
     andThen (NewRedisClusterOperator (RedisClusters (prRedis p))) (\<lambda>_.
     andThen (traced (GoRun (sint (omsConcurrentRedisClusterSyncs s)))) (\<lambda>_. finish (True, None))))) p"

type_synonym initFunc = "startEnv \<Rightarrow> OperatorManagerServer \<Rightarrow> (bool \<times> error) proc"

definition NewOperatorInitializers :: "(string \<times> initFunc) list" where
  "NewOperatorInitializers = [(''rediscluster'', startRedisClusterController)]"

definition KnownOperators :: "string list" where
  "KnownOperators = sort (map fst NewOperatorInitializers)"

fun StartOperators :: "startEnv \<Rightarrow> OperatorManagerServer \<Rightarrow> (string \<times> initFunc) list \<Rightarrow> error proc" where
  "StartOperators env s [] = finish None"
| "StartOperators env s ((operatorName, initFn) # operators) =
     (if \<not> IsOperatorEnabled operatorName (omsOperators s) then StartOperators env s operators
      else
        andThen (traced (SleepJitter (omsControllerStartInterval s))) (\<lambda>_.
        andThen (initFn env s) (\<lambda>(started, err).
        if err \<noteq> None then finish err else StartOperators env s operators)))"

text \<open>The factories are new; what the state held before is dropped.\<close>

definition CreateOperatorContext :: "startEnv \<Rightarrow> OperatorManagerServer \<Rightarrow> unit proc" where
  "CreateOperatorContext env s =
     andThen (clientOrDie env ''middleware-shared-informers'') (\<lambda>_ p.
     (Done (), p\<lparr>prRedis := NewSharedInformerFactory (omsResyncPeriod s * second)\<rparr>))"

definition startAllOf :: "factoryName \<Rightarrow> informerType list \<Rightarrow> unit proc" where
  "startAllOf n order =
     andThen (traced (StartFactory n)) (\<lambda>_. onFactory n (\<lambda>f. ((), startFactory order f)))"

text \<open>Each factory has one type at most; then the informers are declared started, and the process waits.\<close>

definition startFactories :: "unit proc" where
  "startFactories =
     andThen (startAllOf RedisFactory [RedisClusterType]) (\<lambda>_.
     andThen (startAllOf CoreFactory [StatefulSetType]) (\<lambda>_.
     andThen (traced InformersStarted) (\<lambda>_. halt Blocked)))"

definition runManager :: "startEnv \<Rightarrow> OperatorManagerServer \<Rightarrow> unit proc" where
  "runManager env s =
     andThen (CreateOperatorContext env s) (\<lambda>_.
     andThen (\<lambda>p. (Done (), p\<lparr>prCore := NewSharedInformerFactory (omsResyncPeriod s * second)\<rparr>)) (\<lambda>_.
     andThen (StartOperators env s NewOperatorInitializers) (\<lambda>err.
     if err \<noteq> None then halt Fatal else startFactories)))"

definition createClients :: "startEnv \<Rightarrow> error proc" where
  "createClients env =
     (if seBuildConfig env \<noteq> None then finish (seBuildConfig env)
      else if seKubeClient env \<noteq> None then halt Fatal
      else if seLeaderClient env \<noteq> None then halt Crash
      else if seExtensionClient env \<noteq> None then halt Fatal
      else finish None)"

definition CreateRedisClusterCRD :: "startEnv \<Rightarrow> error proc" where
  "CreateRedisClusterCRD env = andThen (traced (CreateCRD redisClusterCRD)) (\<lambda>_. finish (seCreateCRD env))"

text \<open>The routes of the server, and the address it listens on.\<close>

definition httpRoutes :: "OperatorManagerServer \<Rightarrow> string list" where
  "httpRoutes s = [''/healthz'', ''/healthz/ping''] @
     (if omsEnableProfiling s then [''/debug/pprof/'', ''/debug/pprof/profile'', ''/debug/pprof/symbol'', ''/debug/pprof/trace'']
      else []) @ [''/configz'']"

definition joinHostPort :: "string \<Rightarrow> string \<Rightarrow> string" where
  "joinHostPort host port =
     (if CHR '':'' \<in> set host then ''['' @ host @ '']:'' @ port else host @ '':'' @ port)"

definition startHTTP :: "OperatorManagerServer \<Rightarrow> unit proc" where
  "startHTTP s = traced (ServeHTTP (joinHostPort (omsAddress s) (showInt (sint (omsPort s)))) (httpRoutes s))"

text \<open>
  \<open>leaderelection.RunOrDie\<close> panics when the durations do not fit each other; \<open>seJitter\<close> is the retry period
  times 1.2, a floating-point product. The callback is started when the lease is held; when it is lost the
  process ends, at whatever point the callback has reached, unless that has ended the process before.
  What the factories hold when the process has ended is of no consequence.
\<close>

definition validElector :: "startEnv \<Rightarrow> LeaderElectionConfiguration \<Rightarrow> bool" where
  "validElector env le \<longleftrightarrow> \<not> sint (leLeaseDuration le) \<le> sint (leRenewDeadline le) \<and>
     \<not> sint (leRenewDeadline le) \<le> sint (seJitter env (leRetryPeriod le))"

definition loseAfter :: "nat \<Rightarrow> unit proc \<Rightarrow> unit proc" where
  "loseAfter n callback p =
     (case callback p of (e, p') \<Rightarrow>
        if length (prTrace p') \<le> length (prTrace p) + n \<and> e \<in> {Fatal, Crash} then (e, p')
        else (Fatal, p'\<lparr>prTrace := take (length (prTrace p) + n) (prTrace p') @ [LoseLease]\<rparr>))"

definition runOrDie :: "startEnv \<Rightarrow> LeaderElectionConfiguration \<Rightarrow> unit proc \<Rightarrow> unit proc" where
  "runOrDie env le onStartedLeading =
     (if \<not> validElector env le then halt Crash
      else
        (case seLeadership env of
           Waits \<Rightarrow> halt Blocked
         | Leads \<Rightarrow> andThen (traced AcquireLease) (\<lambda>_. onStartedLeading)
         | Loses n \<Rightarrow> andThen (traced AcquireLease) (\<lambda>_. loseAfter n onStartedLeading)))"

definition RunServer :: "startEnv \<Rightarrow> OperatorManagerServer \<Rightarrow> error proc" where
  "RunServer env s =
     andThen (createClients env) (\<lambda>err.
     if err \<noteq> None then finish err
     else
       andThen (CreateRedisClusterCRD env) (\<lambda>err.
       if err \<noteq> None \<and> \<not> isAlreadyExists err then finish err
       else
         andThen (startHTTP s) (\<lambda>_.
         if \<not> leLeaderElect (omsLeaderElection s)
         then andThen (runManager env s) (\<lambda>_. halt Crash)
         else if seHostname env \<noteq> None then finish (seHostname env)
         else if seLock env \<noteq> None then halt Fatal
         else andThen (runOrDie env (omsLeaderElection s) (runManager env s)) (\<lambda>_. halt Crash))))"

text \<open>\<^verbatim>\<open>main\<close> ends with code 1 when \<open>Run\<close> returns an error.\<close>

definition mainExit :: "startEnv \<Rightarrow> process \<Rightarrow> int exit \<times> process" where
  "mainExit env =
     andThen (RunServer env (AddFlags NewOMServer)) (\<lambda>err. finish (if err \<noteq> None then 1 else 0))"

section \<open>Which operators are started\<close>

text \<open>
  The first item for a name wins. An operator is enabled exactly when the first item of the list that
  names it, with or without a minus sign in front, is the bare name, or when no item names it and the
  list has a star, wherever the star stands.
\<close>

theorem IsOperatorEnabled_first:
  "IsOperatorEnabled name controllers =
     (case find (\<lambda>ctrl. ctrl = name \<or> ctrl = ''-'' @ name) controllers of
        Some ctrl \<Rightarrow> ctrl = name
      | None \<Rightarrow> ''*'' \<in> set controllers)"
proof -
  have "enabledFrom name hasStar controllers =
      (case find (\<lambda>ctrl. ctrl = name \<or> ctrl = ''-'' @ name) controllers of
         Some ctrl \<Rightarrow> ctrl = name | None \<Rightarrow> hasStar \<or> ''*'' \<in> set controllers)" for hasStar
  proof (induction controllers arbitrary: hasStar)
    case (Cons ctrl ctrls)
    then show ?case
      by (cases "ctrl = name"; cases "ctrl = ''-'' @ name"; cases "ctrl = ''*''") (simp_all cong: option.case_cong)
  qed simp
  then show ?thesis by (simp add: IsOperatorEnabled_def cong: option.case_cong)
qed

section \<open>The order of the start\<close>

lemma andThen_ended [simp]:
  "andThen (halt Fatal) f p = (Fatal, p)" "andThen (halt Crash) f p = (Crash, p)" "andThen (halt Blocked) f p = (Blocked, p)"
  by (simp_all add: andThen_def halt_def)

lemma andThen_finish [simp]: "andThen (finish x) f p = f x p"
  by (simp add: andThen_def finish_def)

lemma andThen_traced [simp]: "andThen (traced e) f p = f () (p\<lparr>prTrace := prTrace p @ [e]\<rparr>)"
  by (simp add: andThen_def traced_def)

lemma andThen_onFactory [simp]:
  "andThen (onFactory RedisFactory ask) f p = f (fst (ask (prRedis p))) (p\<lparr>prRedis := snd (ask (prRedis p))\<rparr>)"
  "andThen (onFactory CoreFactory ask) f p = f (fst (ask (prCore p))) (p\<lparr>prCore := snd (ask (prCore p))\<rparr>)"
  by (simp_all add: andThen_def onFactory_def split: prod.splits)

lemma andThen_assoc [simp]: "andThen (andThen m g) f p = andThen m (\<lambda>x. andThen (g x) f) p"
  by (simp add: andThen_def split: prod.splits exit.splits)

lemma andThen_applied:
  "m p = (Done x, p') \<Longrightarrow> andThen m f p = f x p'" "m p = (Fatal, p') \<Longrightarrow> andThen m f p = (Fatal, p')"
  by (simp_all add: andThen_def)

lemma run_step [simp]:
  "finish x p = (Done x, p)" "halt e p = (e, p)"
  by (simp_all add: finish_def halt_def)

definition initialProcess :: process where
  "initialProcess = \<lparr>prRedis = NewSharedInformerFactory 0, prCore = NewSharedInformerFactory 0, prTrace = []\<rparr>"

text \<open>What a start is meant to do, in order.\<close>

definition operatorPlan :: "OperatorManagerServer \<Rightarrow> startEvent list" where
  "operatorPlan s =
     (if IsOperatorEnabled ''rediscluster'' (omsOperators s)
      then [SleepJitter (omsControllerStartInterval s), AddEventHandler RedisClusterType,
        AddEventHandler StatefulSetType, GoRun (sint (omsConcurrentRedisClusterSyncs s))]
      else [])"

definition startPlan :: "OperatorManagerServer \<Rightarrow> startEvent list" where
  "startPlan s =
     [CreateCRD redisClusterCRD, ServeHTTP (joinHostPort (omsAddress s) (showInt (sint (omsPort s)))) (httpRoutes s)] @
     (if leLeaderElect (omsLeaderElection s) then [AcquireLease] else []) @ operatorPlan s @
     [StartFactory RedisFactory, StartFactory CoreFactory, InformersStarted]"

text \<open>A factory with one informer, running.\<close>

definition oneRunning :: "informerType \<Rightarrow> unit sharedInformerFactory \<Rightarrow> bool" where
  "oneRunning t f \<longleftrightarrow> sfInformers f = [t \<mapsto> 0] \<and> sfStartedInformers f = {t} \<and> sfRunning f = [0]"

definition noneRunning :: "unit sharedInformerFactory \<Rightarrow> bool" where
  "noneRunning f \<longleftrightarrow> sfInformers f = Map.empty \<and> sfRunning f = []"

lemma new_factory [simp]:
  "sfInformers (NewSharedInformerFactory r) = Map.empty" "sfStartedInformers (NewSharedInformerFactory r) = {}"
  "sfRunning (NewSharedInformerFactory r) = []" "sfBuilt (NewSharedInformerFactory r) = []"
  "sfCustomResync (NewSharedInformerFactory r) = Map.empty"
  by (simp_all add: NewSharedInformerFactory_def NewSharedInformerFactoryWithOptions_def)

text \<open>The manager: the operator's events, then the factories, with the informers the operator asked for.\<close>

lemma controller_run:
  "startRedisClusterController env s p =
     (if seClient env ''default-kube-client'' \<noteq> None \<or> seClient env ''rediscluster-operator'' \<noteq> None then (Fatal, p)
      else (Done (True, None), p\<lparr>prRedis := snd (Informer (RedisClusters (prRedis p)) (prRedis p)),
        prCore := snd (statefulSetInformer (prCore p)), prTrace := prTrace p @ [AddEventHandler RedisClusterType,
          AddEventHandler StatefulSetType, GoRun (sint (omsConcurrentRedisClusterSyncs s))]\<rparr>))"
proof -
  have informer: "Informer r (snd (Informer r f)) = Informer r f" for r :: "unit redisClusterInformer" and f
    using InformerFor_same [of RedisClusterType "defaultInformer r" f "fst (Informer r f)" "snd (Informer r f)"]
    by (simp add: Informer_def)
  have sts: "statefulSetInformer (snd (statefulSetInformer f)) = statefulSetInformer f" for f
    using InformerFor_same [of StatefulSetType _ f "fst (statefulSetInformer f)" "snd (statefulSetInformer f)"]
    by (simp add: statefulSetInformer_def)
  show ?thesis
    by (cases "seClient env ''default-kube-client''"; cases "seClient env ''rediscluster-operator''")
      (simp_all add: startRedisClusterController_def NewRedisClusterOperator_def clientOrDie_def Lister_def informer sts)
qed

lemma started_factories:
  "oneRunning RedisClusterType (startFactory [RedisClusterType]
     (snd (Informer i (NewSharedInformerFactory r))))"
  "oneRunning StatefulSetType (startFactory [StatefulSetType]
     (snd (statefulSetInformer (NewSharedInformerFactory r))))"
  "noneRunning (startFactory [t] (NewSharedInformerFactory r))"
  by (simp_all add: oneRunning_def noneRunning_def startFactory_def startInformer_def Informer_def InformerFor_def
      Let_def statefulSetInformer_def)

abbreviation factoriesStarted :: "startEvent list" where
  "factoriesStarted \<equiv> [StartFactory RedisFactory, StartFactory CoreFactory, InformersStarted]"

definition factoriesFit :: "OperatorManagerServer \<Rightarrow> process \<Rightarrow> bool" where
  "factoriesFit s p \<longleftrightarrow>
     (if IsOperatorEnabled ''rediscluster'' (omsOperators s)
      then oneRunning RedisClusterType (prRedis p) \<and> oneRunning StatefulSetType (prCore p)
      else noneRunning (prRedis p) \<and> noneRunning (prCore p))"

lemma context_run:
  "andThen (CreateOperatorContext env s) f p =
     (if seClient env ''middleware-shared-informers'' \<noteq> None then (Fatal, p)
      else f () (p\<lparr>prRedis := NewSharedInformerFactory (omsResyncPeriod s * second)\<rparr>))"
  by (simp add: CreateOperatorContext_def clientOrDie_def) (simp add: andThen_def)

lemma operators_run:
  "andThen (StartOperators env s NewOperatorInitializers) f p =
     (if \<not> IsOperatorEnabled ''rediscluster'' (omsOperators s) then f None p
      else
        (case startRedisClusterController env s
            (p\<lparr>prTrace := prTrace p @ [SleepJitter (omsControllerStartInterval s)]\<rparr>) of
           (Done _, p') \<Rightarrow> f None p' | (_, p') \<Rightarrow> (Fatal, p')))"
  by (cases "IsOperatorEnabled ''rediscluster'' (omsOperators s)"; cases "seClient env ''default-kube-client''";
      cases "seClient env ''rediscluster-operator''")
    (simp_all add: NewOperatorInitializers_def andThen_applied controller_run traced_def)

lemma startFactories_run:
  "startFactories p = (Blocked, p\<lparr>prRedis := startFactory [RedisClusterType] (prRedis p),
     prCore := startFactory [StatefulSetType] (prCore p), prTrace := prTrace p @ factoriesStarted\<rparr>)"
  by (simp add: startFactories_def startAllOf_def)

lemma manager_run:
  "runManager env s p \<in>
     {(Blocked, p') |p'. prTrace p' = prTrace p @ operatorPlan s @ factoriesStarted \<and> factoriesFit s p'} \<union>
     {(Fatal, p') |p'. \<exists>front. prefix front (operatorPlan s) \<and> prTrace p' = prTrace p @ front}"
proof (cases "seClient env ''middleware-shared-informers''")
  case (Some err)
  then show ?thesis
    by (auto simp: runManager_def context_run)
next
  case None
  let ?new = "NewSharedInformerFactory (omsResyncPeriod s * second)"
  have run: "runManager env s p = andThen (StartOperators env s NewOperatorInitializers)
      (\<lambda>err. if err \<noteq> None then halt Fatal else startFactories) (p\<lparr>prRedis := ?new, prCore := ?new\<rparr>)"
    using None by (simp add: runManager_def context_run) (simp add: andThen_def)
  show ?thesis
  proof (cases "IsOperatorEnabled ''rediscluster'' (omsOperators s)")
    case False
    then show ?thesis
      unfolding run operators_run
      by (simp add: startFactories_run operatorPlan_def factoriesFit_def started_factories)
  next
    case True
    then show ?thesis
      unfolding run operators_run
      by (auto simp: startFactories_run controller_run operatorPlan_def factoriesFit_def started_factories
          intro!: exI [of _ "[SleepJitter (omsControllerStartInterval s)]"])
  qed
qed

lemma manager_then:
  "andThen (runManager env s) f p \<in>
     {(Blocked, p') |p'. prTrace p' = prTrace p @ operatorPlan s @ factoriesStarted \<and> factoriesFit s p'} \<union>
     {(Fatal, p') |p'. \<exists>front. prefix front (operatorPlan s) \<and> prTrace p' = prTrace p @ front}"
  using manager_run [of env s p] by (auto simp: andThen_def)

lemma lost_run:
  "andThen (loseAfter n (runManager env s)) f p \<in>
     {(Fatal, p') |p'. \<exists>front. prefix front (operatorPlan s @ factoriesStarted) \<and> prTrace p' = prTrace p @ front @ [LoseLease] \<and>
        (InformersStarted \<in> set front \<longrightarrow> factoriesFit s p')} \<union>
     {(Fatal, p') |p'. \<exists>front. prefix front (operatorPlan s) \<and> prTrace p' = prTrace p @ front}"
proof -
  have unfit: "InformersStarted \<notin> set front" if "prefix front (operatorPlan s)" for front
    using set_mono_prefix [OF that] by (auto simp: operatorPlan_def split: if_splits)
  have cut: "prefix (take n front) (operatorPlan s @ factoriesStarted)" if "prefix front (operatorPlan s @ factoriesStarted)" for front n
    using that take_is_prefix prefix_order.trans by blast
  have lost: "factoriesFit s (q\<lparr>prTrace := t\<rparr>) = factoriesFit s q" for q t
    by (simp add: factoriesFit_def)
  from manager_run [of env s p] consider
    (blocked) p' where "runManager env s p = (Blocked, p')" "prTrace p' = prTrace p @ operatorPlan s @ factoriesStarted" "factoriesFit s p'"
    | (fatal) p' front where "runManager env s p = (Fatal, p')" "prefix front (operatorPlan s)" "prTrace p' = prTrace p @ front"
    by auto
  then show ?thesis
  proof cases
    case blocked
    have "prefix (take n (operatorPlan s @ factoriesStarted)) (operatorPlan s @ factoriesStarted)" by (rule take_is_prefix)
    then show ?thesis
      using blocked by (auto simp: andThen_def loseAfter_def lost)
  next
    case fatal
    have "prefix (take n front) (operatorPlan s @ factoriesStarted)" "InformersStarted \<notin> set (take n front)"
      using fatal(2) cut unfit set_take_subset [of n front] by (auto intro: prefix_prefix)
    then show ?thesis
      using fatal by (cases "length front \<le> n") (auto simp: andThen_def loseAfter_def lost)
  qed
qed

lemma elected_then:
  "andThen (runOrDie env le (runManager env s)) f p \<in>
     {(e, p') |e p'. p' = p \<and> e \<in> {Blocked, Crash} \<and> (e = Blocked \<longrightarrow> seLeadership env = Waits)} \<union>
     {(Blocked, p') |p'. prTrace p' = prTrace p @ AcquireLease # operatorPlan s @ factoriesStarted \<and> factoriesFit s p'} \<union>
     {(Fatal, p') |p'. \<exists>front. prefix front (operatorPlan s @ factoriesStarted) \<and>
        prTrace p' = prTrace p @ AcquireLease # front @ [LoseLease] \<and> (InformersStarted \<in> set front \<longrightarrow> factoriesFit s p')} \<union>
     {(Fatal, p') |p'. \<exists>front. prefix front (operatorPlan s) \<and> prTrace p' = prTrace p @ AcquireLease # front}"
proof -
  let ?p = "p\<lparr>prTrace := prTrace p @ [AcquireLease]\<rparr>"
  show ?thesis
  proof (cases "validElector env le")
    case False
    then show ?thesis by (auto simp: runOrDie_def)
  next
    case True
    then show ?thesis
      using manager_then [of env s f ?p] lost_run [of _ env s f ?p] by (cases "seLeadership env") (auto simp: runOrDie_def)
  qed
qed

lemma elected_cases:
  obtains (ended) e where "andThen (runOrDie env le (runManager env s)) f p = (e, p)" "e \<in> {Blocked, Crash}"
      "e = Blocked \<longrightarrow> seLeadership env = Waits"
  | (leading) p' where "andThen (runOrDie env le (runManager env s)) f p = (Blocked, p')"
      "prTrace p' = prTrace p @ AcquireLease # operatorPlan s @ factoriesStarted" "factoriesFit s p'"
  | (lost) p' front where "andThen (runOrDie env le (runManager env s)) f p = (Fatal, p')"
      "prefix front (operatorPlan s @ factoriesStarted)" "prTrace p' = prTrace p @ AcquireLease # front @ [LoseLease]"
      "InformersStarted \<in> set front \<longrightarrow> factoriesFit s p'"
  | (early) p' front where "andThen (runOrDie env le (runManager env s)) f p = (Fatal, p')"
      "prefix front (operatorPlan s)" "prTrace p' = prTrace p @ AcquireLease # front"
  using elected_then [of env le s f p] unfolding Un_iff mem_Collect_eq by (elim disjE exE conjE) blast+

lemma not_in_operatorPlan: "InformersStarted \<notin> set (operatorPlan s)"
  by (simp add: operatorPlan_def)

lemma start_served:
  "RunServer env s initialProcess \<in>
     {(e, p) |e p. prTrace p \<in> {[], [CreateCRD redisClusterCRD]} \<and> e \<notin> {Done None, Blocked}} \<union>
     (if seCreateCRD env \<noteq> None \<and> \<not> isAlreadyExists (seCreateCRD env) then {}
      else {(e, p) |e p. prTrace p = take 2 (startPlan s) \<and> e \<noteq> Done None \<and> (e = Blocked \<longrightarrow> seLeadership env = Waits)} \<union>
       {(Blocked, p) |p. prTrace p = startPlan s \<and> factoriesFit s p} \<union>
       {(Fatal, p) |p. \<exists>front. prefix front (startPlan s) \<and> AcquireLease \<in> set front \<and> prTrace p = front @ [LoseLease] \<and>
        (InformersStarted \<in> set front \<longrightarrow> factoriesFit s p)} \<union>
       {(Fatal, p) |p. \<exists>front. prefix front (startPlan s) \<and> InformersStarted \<notin> set front \<and> prTrace p = front})"
proof -
  let ?q = "initialProcess\<lparr>prTrace := take 2 (startPlan s)\<rparr>"
  let ?serve = "if \<not> leLeaderElect (omsLeaderElection s) then andThen (runManager env s) (\<lambda>_. halt Crash)
      else if seHostname env \<noteq> None then finish (seHostname env)
      else if seLock env \<noteq> None then halt Fatal
      else andThen (runOrDie env (omsLeaderElection s) (runManager env s)) (\<lambda>_. halt Crash)"
  have begun: "prefix (take 2 (startPlan s) @ (if leLeaderElect (omsLeaderElection s) then [AcquireLease] else []) @ front) (startPlan s) \<and>
      InformersStarted \<notin> set (take 2 (startPlan s) @ (if leLeaderElect (omsLeaderElection s) then [AcquireLease] else []) @ front)"
    if "prefix front (operatorPlan s)" for front
    using that set_mono_prefix [OF that] not_in_operatorPlan [of s] by (auto simp: startPlan_def)
  have late: "prefix (take 2 (startPlan s) @ AcquireLease # front) (startPlan s) \<and>
      (InformersStarted \<in> set (take 2 (startPlan s) @ AcquireLease # front) \<longleftrightarrow> InformersStarted \<in> set front)"
    if "leLeaderElect (omsLeaderElection s)" "prefix front (operatorPlan s @ factoriesStarted)" for front
    using that by (simp add: startPlan_def)
  have served: "?serve ?q \<in>
      {(e, p) |e p. prTrace p = take 2 (startPlan s) \<and> e \<noteq> Done None \<and> (e = Blocked \<longrightarrow> seLeadership env = Waits)} \<union>
      {(Blocked, p) |p. prTrace p = startPlan s \<and> factoriesFit s p} \<union>
      {(Fatal, p) |p. \<exists>front. prefix front (startPlan s) \<and> AcquireLease \<in> set front \<and> prTrace p = front @ [LoseLease] \<and>
        (InformersStarted \<in> set front \<longrightarrow> factoriesFit s p)} \<union>
      {(Fatal, p) |p. \<exists>front. prefix front (startPlan s) \<and> InformersStarted \<notin> set front \<and> prTrace p = front}"
  proof (cases "leLeaderElect (omsLeaderElection s)")
    case False
    then show ?thesis
      using manager_then [of env s "\<lambda>_. halt Crash" ?q] begun by (auto simp: startPlan_def)
  next
    case True
    let ?r = "andThen (runOrDie env (omsLeaderElection s) (runManager env s)) (\<lambda>_. halt Crash) ?q"
    have serve: "?serve ?q = (if seHostname env \<noteq> None then (Done (seHostname env), ?q)
        else if seLock env \<noteq> None then (Fatal, ?q) else ?r)"
      using True by simp
    show ?thesis
    proof (cases rule: elected_cases [of env "omsLeaderElection s" s "\<lambda>_. halt Crash :: error proc" ?q])
      case ended
      then show ?thesis unfolding serve by auto
    next
      case (leading p)
      then show ?thesis unfolding serve using True by (auto simp: startPlan_def)
    next
      case (lost p front)
      have "AcquireLease \<in> set (take 2 (startPlan s) @ AcquireLease # front)" by simp
      then show ?thesis unfolding serve using lost late [OF True lost(2)] by auto
    next
      case (early p front)
      then show ?thesis unfolding serve using begun [OF early(2)] True by auto
    qed
  qed
  have "RunServer env s initialProcess =
      (if seBuildConfig env \<noteq> None then (Done (seBuildConfig env), initialProcess)
       else if seKubeClient env \<noteq> None then (Fatal, initialProcess)
       else if seLeaderClient env \<noteq> None then (Crash, initialProcess)
       else if seExtensionClient env \<noteq> None then (Fatal, initialProcess)
       else if seCreateCRD env \<noteq> None \<and> \<not> isAlreadyExists (seCreateCRD env)
       then (Done (seCreateCRD env), initialProcess\<lparr>prTrace := [CreateCRD redisClusterCRD]\<rparr>)
       else ?serve ?q)"
    by (simp add: RunServer_def createClients_def CreateRedisClusterCRD_def startHTTP_def startPlan_def initialProcess_def)
  then show ?thesis
    using served by (auto simp: initialProcess_def)
qed

text \<open>
  C18: a start keeps its order and never ends well. Whatever the cluster, the operating system and the
  leader election reply, the process does an initial part of its plan, which is followed at most by the
  loss of the lease once it was held: the custom resource definition is created first, nothing of the operator happens
  before the lease is held when leaders are elected, both event handlers are in place before the
  operator runs, and informers are started after that. It never returns without an error; when it
  reaches its end it stays there, with one goroutine for the informer of each of the two types if the
  operator is enabled and none otherwise; and a definition that cannot be created for another reason
  than that it exists ends it at once.
\<close>

theorem RunServer_plan:
  assumes "RunServer env s initialProcess = (e, p)"
  shows "(\<exists>front. prefix front (startPlan s) \<and> (prTrace p = front \<or> AcquireLease \<in> set front \<and> prTrace p = front @ [LoseLease])) \<and>
    e \<noteq> Done None \<and>
    (if InformersStarted \<in> set (prTrace p)
     then (e = Blocked \<or> e = Fatal \<and> last (prTrace p) = LoseLease) \<and> factoriesFit s p
     else e = Blocked \<longrightarrow> seLeadership env = Waits) \<and>
    (seCreateCRD env \<noteq> None \<and> \<not> isAlreadyExists (seCreateCRD env) \<longrightarrow> prTrace p \<in> {[], [CreateCRD redisClusterCRD]})"
proof -
  have plan: "prefix [] (startPlan s)" "prefix [CreateCRD redisClusterCRD] (startPlan s)" "prefix (take 2 (startPlan s)) (startPlan s)"
    "InformersStarted \<in> set (startPlan s)" "InformersStarted \<notin> set (take 2 (startPlan s))"
    by (simp_all add: startPlan_def)
  show ?thesis
    using start_served [of env s] plan unfolding assms
    by (cases "seCreateCRD env \<noteq> None \<and> \<not> isAlreadyExists (seCreateCRD env)") fastforce+
qed

text \<open>A start where every client can be made, without leader election.\<close>

definition quietEnv :: startEnv where
  "quietEnv = \<lparr>seBuildConfig = None, seKubeClient = None, seLeaderClient = None, seExtensionClient = None,
     seCreateCRD = None, seHostname = None, seLock = None, seJitter = (\<lambda>d. d), seLeadership = Leads, seClient = (\<lambda>_. None)\<rparr>"

lemma quiet_start: "fst (RunServer quietEnv (AddFlags NewOMServer) initialProcess) = Blocked"
proof -
  have opts: "omsOperators (AddFlags NewOMServer) = [''*'']" "\<not> leLeaderElect (omsLeaderElection (AddFlags NewOMServer))"
    by (simp_all add: AddFlags_def NewOMServer_def DefaultLeaderElectionConfiguration_def)
  show ?thesis
    by (simp add: RunServer_def createClients_def CreateRedisClusterCRD_def startHTTP_def quietEnv_def opts)
      (simp add: runManager_def context_run operators_run controller_run startFactories_run andThen_def opts
        IsOperatorEnabled_def quietEnv_def CreateOperatorContext_def clientOrDie_def StartOperators.simps
        NewOperatorInitializers_def traced_def)
qed

theorem RunServer_plan_witness:
  "factoriesFit (AddFlags NewOMServer) (snd (RunServer quietEnv (AddFlags NewOMServer) initialProcess))"
  using RunServer_plan [of quietEnv "AddFlags NewOMServer" "fst (RunServer quietEnv (AddFlags NewOMServer) initialProcess)"
      "snd (RunServer quietEnv (AddFlags NewOMServer) initialProcess)"] quiet_start
  by (simp add: quietEnv_def split: if_splits)

end
