(* ===== verification/ClientConfig.thy ===== *)
theory ClientConfig
  imports Startup
begin

text \<open>
  The clients of the process and their configurations: \<^verbatim>\<open>createClients\<close> of
  \<^verbatim>\<open>operatormanager.go\<close>, the builder of clients (\<^verbatim>\<open>client_builder.go\<close>), the clientset
  (\<^verbatim>\<open>clientset.go\<close>) and the client of the API group (\<^verbatim>\<open>redis_client.go\<close>). A configuration
  is passed by pointer, copied in some places and written in place in others; so configurations are cells of
  a memory. A client is described by the configuration it was made from.
\<close>

section \<open>Configurations in memory\<close>

record restConfig =
  cfGroupVersion :: "(string \<times> string) option"
  cfAPIPath :: string
  cfNegotiatedSerializer :: "string option"
  cfUserAgent :: string
  cfQPS :: opaque
  cfBurst :: int64
  cfRateLimiter :: "nat option"
  cfOthers :: opaque

text \<open>A rate limiter is a number; the memory keeps what each was made with.\<close>

record configMemory =
  cmNext :: nat
  cmConfigs :: "nat \<Rightarrow> restConfig"
  cmLimiters :: "(opaque \<times> int64) list"

text \<open>What the libraries reply, and the agent that they use by default.\<close>

record clientLibrary =
  clDefaultKubernetesUserAgent :: string
  clPositive :: "opaque \<Rightarrow> bool"
  clBuildConfigFromFlags :: "string \<Rightarrow> string \<Rightarrow> gerr + restConfig"
  clRESTClientFor :: "restConfig \<Rightarrow> error"
  clUnversionedRESTClientFor :: "restConfig \<Rightarrow> error"
  clKubeNewForConfig :: "restConfig \<Rightarrow> error"
  clExtensionsNewForConfig :: "restConfig \<Rightarrow> error"

datatype restInterface = RESTClient restConfig | OtherREST opaque

record DiscoveryClient =
  dcRest :: restInterface

record CrV1alpha1Client =
  crRest :: restInterface

record Clientset =
  csDiscoveryClient :: "DiscoveryClient option"
  csCrV1alpha1 :: "CrV1alpha1Client option"

type_synonym 'a cfg = "(configMemory, 'a) state"

definition configAt :: "nat \<Rightarrow> restConfig cfg" where
  "configAt p = do { m \<leftarrow> State_Monad.get; State_Monad.return (cmConfigs m p) }"

definition setConfig :: "nat \<Rightarrow> restConfig \<Rightarrow> unit cfg" where
  "setConfig p c = State_Monad.update (\<lambda>m. m\<lparr>cmConfigs := (cmConfigs m)(p := c)\<rparr>)"

definition newConfig :: "restConfig \<Rightarrow> nat cfg" where
  "newConfig c = do {
     m \<leftarrow> State_Monad.get;
     State_Monad.set (m\<lparr>cmConfigs := (cmConfigs m)(cmNext m := c), cmNext := Suc (cmNext m)\<rparr>);
     State_Monad.return (cmNext m) }"

definition NewTokenBucketRateLimiter :: "opaque \<Rightarrow> int64 \<Rightarrow> nat cfg" where
  "NewTokenBucketRateLimiter qps burst = do {
     m \<leftarrow> State_Monad.get;
     State_Monad.set (m\<lparr>cmLimiters := cmLimiters m @ [(qps, burst)]\<rparr>);
     State_Monad.return (length (cmLimiters m)) }"

section \<open>Clients from configurations\<close>

definition AddUserAgent :: "clientLibrary \<Rightarrow> nat \<Rightarrow> string \<Rightarrow> nat cfg" where
  "AddUserAgent lib p userAgent = do {
     c \<leftarrow> configAt p;
     setConfig p (c\<lparr>cfUserAgent := clDefaultKubernetesUserAgent lib @ ''/'' @ userAgent\<rparr>);
     State_Monad.return p }"

definition agentOr :: "clientLibrary \<Rightarrow> string \<Rightarrow> string" where
  "agentOr lib agent = (if agent = [] then clDefaultKubernetesUserAgent lib else agent)"

definition setConfigDefaults :: "clientLibrary \<Rightarrow> nat \<Rightarrow> error cfg" where
  "setConfigDefaults lib p = do {
     c \<leftarrow> configAt p;
     setConfig p (c\<lparr>cfGroupVersion := Some (GroupName, GroupVersion), cfAPIPath := ''/apis'',
       cfNegotiatedSerializer := Some ''DirectCodecFactory'', cfUserAgent := agentOr lib (cfUserAgent c)\<rparr>);
     State_Monad.return None }"

definition crNewForConfig :: "clientLibrary \<Rightarrow> nat \<Rightarrow> (CrV1alpha1Client option \<times> error) cfg" where
  "crNewForConfig lib p = do {
     c \<leftarrow> configAt p;
     q \<leftarrow> newConfig c;
     err \<leftarrow> setConfigDefaults lib q;
     if err \<noteq> None then State_Monad.return (None, err)
     else do {
       config \<leftarrow> configAt q;
       let err = clRESTClientFor lib config in
       State_Monad.return (if err \<noteq> None then (None, err) else (Some \<lparr>crRest = RESTClient config\<rparr>, None)) } }"

definition crNewForConfigOrDie :: "clientLibrary \<Rightarrow> nat \<Rightarrow> CrV1alpha1Client option exit cfg" where
  "crNewForConfigOrDie lib p = do {
     (client, err) \<leftarrow> crNewForConfig lib p;
     State_Monad.return (if err \<noteq> None then Crash else Done client) }"

definition crNew :: "restInterface \<Rightarrow> CrV1alpha1Client" where
  "crNew c = \<lparr>crRest = c\<rparr>"

definition crRESTClient :: "CrV1alpha1Client option \<Rightarrow> restInterface option" where
  "crRESTClient c = map_option crRest c"

definition NewDiscoveryClientForConfig :: "clientLibrary \<Rightarrow> nat \<Rightarrow> (DiscoveryClient \<times> error) cfg" where
  "NewDiscoveryClientForConfig lib p = do {
     c \<leftarrow> configAt p;
     let config = c\<lparr>cfAPIPath := [], cfGroupVersion := None, cfNegotiatedSerializer := Some ''SerializerWrapper'',
       cfUserAgent := agentOr lib (cfUserAgent c)\<rparr> in
     State_Monad.return (\<lparr>dcRest = RESTClient config\<rparr>, clUnversionedRESTClientFor lib config) }"

text \<open>The clientset: one rate limiter for all of its clients when the configuration has none.\<close>

definition shareRateLimiter :: "clientLibrary \<Rightarrow> nat \<Rightarrow> unit cfg" where
  "shareRateLimiter lib p = do {
     c \<leftarrow> configAt p;
     if cfRateLimiter c = None \<and> clPositive lib (cfQPS c)
     then do {
       l \<leftarrow> NewTokenBucketRateLimiter (cfQPS c) (cfBurst c);
       setConfig p (c\<lparr>cfRateLimiter := Some l\<rparr>) }
     else State_Monad.return () }"

definition NewForConfig :: "clientLibrary \<Rightarrow> nat \<Rightarrow> (Clientset option \<times> error) cfg" where
  "NewForConfig lib p = do {
     c \<leftarrow> configAt p;
     q \<leftarrow> newConfig c;
     shareRateLimiter lib q;
     (cr, err) \<leftarrow> crNewForConfig lib q;
     if err \<noteq> None then State_Monad.return (None, err)
     else do {
       (discovery, err) \<leftarrow> NewDiscoveryClientForConfig lib q;
       State_Monad.return (if err \<noteq> None then (None, err)
         else (Some \<lparr>csDiscoveryClient = Some discovery, csCrV1alpha1 = cr\<rparr>, None)) } }"

definition NewForConfigOrDie :: "clientLibrary \<Rightarrow> nat \<Rightarrow> Clientset exit cfg" where
  "NewForConfigOrDie lib p = do {
     cr \<leftarrow> crNewForConfigOrDie lib p;
     (case cr of
        Done client \<Rightarrow> do {
          (discovery, err) \<leftarrow> NewDiscoveryClientForConfig lib p;
          State_Monad.return (if err \<noteq> None then Crash
            else Done \<lparr>csDiscoveryClient = Some discovery, csCrV1alpha1 = client\<rparr>) }
      | _ \<Rightarrow> State_Monad.return Crash) }"

definition clientsetNew :: "restInterface \<Rightarrow> Clientset" where
  "clientsetNew c = \<lparr>csDiscoveryClient = Some \<lparr>dcRest = c\<rparr>, csCrV1alpha1 = Some (crNew c)\<rparr>"

definition CrV1alpha1 :: "Clientset option \<Rightarrow> CrV1alpha1Client option outcome" where
  "CrV1alpha1 c = obnd (deref c) (\<lambda>cs. Ret (csCrV1alpha1 cs))"

definition Discovery :: "Clientset option \<Rightarrow> DiscoveryClient option" where
  "Discovery c = (case c of None \<Rightarrow> None | Some cs \<Rightarrow> csDiscoveryClient cs)"

section \<open>The builder of clients\<close>

record SimpleOperatorClientBuilder =
  sbClientConfig :: nat

definition builderConfig :: "clientLibrary \<Rightarrow> SimpleOperatorClientBuilder \<Rightarrow> string \<Rightarrow> (nat \<times> error) cfg" where
  "builderConfig lib b name = do {
     clientConfig \<leftarrow> configAt (sbClientConfig b);
     p \<leftarrow> newConfig clientConfig;
     q \<leftarrow> AddUserAgent lib p name;
     State_Monad.return (q, None) }"

definition builderConfigOrDie :: "clientLibrary \<Rightarrow> SimpleOperatorClientBuilder \<Rightarrow> string \<Rightarrow> nat exit cfg" where
  "builderConfigOrDie lib b name = do {
     (clientConfig, err) \<leftarrow> builderConfig lib b name;
     State_Monad.return (if err \<noteq> None then Fatal else Done clientConfig) }"

definition builderClient :: "clientLibrary \<Rightarrow> SimpleOperatorClientBuilder \<Rightarrow> string \<Rightarrow>
    (Clientset option \<times> error) cfg" where
  "builderClient lib b name = do {
     (clientConfig, err) \<leftarrow> builderConfig lib b name;
     if err \<noteq> None then State_Monad.return (None, err) else NewForConfig lib clientConfig }"

definition builderClientOrDie :: "clientLibrary \<Rightarrow> SimpleOperatorClientBuilder \<Rightarrow> string \<Rightarrow>
    Clientset option exit cfg" where
  "builderClientOrDie lib b name = do {
     (client, err) \<leftarrow> builderClient lib b name;
     State_Monad.return (if err \<noteq> None then Fatal else Done client) }"

definition builderClientGoClient :: "clientLibrary \<Rightarrow> SimpleOperatorClientBuilder \<Rightarrow> string \<Rightarrow>
    (Clientset option \<times> error) cfg" where
  "builderClientGoClient lib b name = do {
     (clientConfig, err) \<leftarrow> builderConfig lib b name;
     if err \<noteq> None then State_Monad.return (None, err) else NewForConfig lib clientConfig }"

definition builderClientGoClientOrDie :: "clientLibrary \<Rightarrow> SimpleOperatorClientBuilder \<Rightarrow> string \<Rightarrow>
    Clientset option exit cfg" where
  "builderClientGoClientOrDie lib b name = do {
     (client, err) \<leftarrow> builderClientGoClient lib b name;
     State_Monad.return (if err \<noteq> None then Fatal else Done client) }"

section \<open>The clients of the process\<close>

text \<open>
  The Kubernetes, the leader election and the extensions client, by the configuration each was made from,
  and the pointer that is kept for the builder.
\<close>

record processClients =
  pcKubeClient :: restConfig
  pcLeaderElectionClient :: restConfig
  pcExtensionCRClient :: restConfig
  pcKubeconfig :: nat

definition buildClients :: "clientLibrary \<Rightarrow> OperatorManagerServer \<Rightarrow> (processClients option \<times> error) exit cfg" where
  "buildClients lib s =
     (case clBuildConfigFromFlags lib (omsMaster s) (omsKubeconfig s) of
        Inl e \<Rightarrow> State_Monad.return (Done (None, Some e))
      | Inr config \<Rightarrow> do {
          kubeconfig \<leftarrow> newConfig config;
          c \<leftarrow> configAt kubeconfig;
          setConfig kubeconfig (c\<lparr>cfQPS := omsKubeAPIQPS s, cfBurst := scast (omsKubeAPIBurst s)\<rparr>);
          p \<leftarrow> AddUserAgent lib kubeconfig ''operator-manager'';
          kube \<leftarrow> configAt p;
          if clKubeNewForConfig lib kube \<noteq> None then State_Monad.return Fatal
          else do {
            p \<leftarrow> AddUserAgent lib kubeconfig ''leader-election'';
            leader \<leftarrow> configAt p;
            if clKubeNewForConfig lib leader \<noteq> None then State_Monad.return Crash
            else do {
              extension \<leftarrow> configAt kubeconfig;
              if clExtensionsNewForConfig lib extension \<noteq> None then State_Monad.return Fatal
              else State_Monad.return (Done (Some \<lparr>pcKubeClient = kube, pcLeaderElectionClient = leader,
                pcExtensionCRClient = extension, pcKubeconfig = kubeconfig\<rparr>, None)) } } })"

section \<open>Clients of one builder do not disturb each other\<close>

text \<open>The clients for a list of operators, in order.\<close>

fun clientsFor :: "clientLibrary \<Rightarrow> SimpleOperatorClientBuilder \<Rightarrow> string list \<Rightarrow> Clientset option exit list cfg" where
  "clientsFor lib b [] = State_Monad.return []"
| "clientsFor lib b (name # names) = do {
     client \<leftarrow> builderClientOrDie lib b name;
     clients \<leftarrow> clientsFor lib b names;
     State_Monad.return (client # clients) }"

fun configOf :: "restInterface \<Rightarrow> restConfig option" where
  "configOf (RESTClient c) = Some c"
| "configOf (OtherREST x) = None"

text \<open>The configurations behind the two parts of a clientset.\<close>

definition crConfigOf :: "Clientset option \<Rightarrow> restConfig option" where
  "crConfigOf cs = (case CrV1alpha1 cs of Ret (Some cr) \<Rightarrow> configOf (crRest cr) | _ \<Rightarrow> None)"

definition discoveryConfigOf :: "Clientset option \<Rightarrow> restConfig option" where
  "discoveryConfigOf cs = (case Discovery cs of Some d \<Rightarrow> configOf (dcRest d) | None \<Rightarrow> None)"

definition limiterOf :: "Clientset option exit \<Rightarrow> nat option" where
  "limiterOf r = (case r of Done cs \<Rightarrow> Option.bind (crConfigOf cs) cfRateLimiter | _ \<Rightarrow> None)"

text \<open>A client for a name: both parts carry the name in their agent, and share one rate limiter.\<close>

definition namedClient :: "clientLibrary \<Rightarrow> string \<Rightarrow> Clientset option exit \<Rightarrow> bool" where
  "namedClient lib name r \<longleftrightarrow>
     (case r of
        Done cs \<Rightarrow> (\<exists>c d. crConfigOf cs = Some c \<and> discoveryConfigOf cs = Some d \<and>
          cfUserAgent c = clDefaultKubernetesUserAgent lib @ ''/'' @ name \<and> cfUserAgent d = cfUserAgent c \<and>
          cfRateLimiter d = cfRateLimiter c \<and> cfGroupVersion c = Some (GroupName, GroupVersion))
      | _ \<Rightarrow> r = Fatal)"

text \<open>What building clients does to the memory: it adds cells and limiters.\<close>

definition grows :: "configMemory \<Rightarrow> configMemory \<Rightarrow> bool" where
  "grows m m' \<longleftrightarrow> cmNext m \<le> cmNext m' \<and> (\<forall>p<cmNext m. cmConfigs m' p = cmConfigs m p) \<and>
     prefix (cmLimiters m) (cmLimiters m')"

lemma grows_refl [simp]: "grows m m"
  by (simp add: grows_def)

lemma grows_trans: "grows m m' \<Longrightarrow> grows m' m'' \<Longrightarrow> grows m m''"
  by (auto simp: grows_def)

lemmas cfg_simps = configAt_def setConfig_def newConfig_def NewTokenBucketRateLimiter_def State_Monad.update_def

lemma AddUserAgent_run [simp]:
  "run_state (AddUserAgent lib p name) m = (p, m\<lparr>cmConfigs := (cmConfigs m)
     (p := (cmConfigs m p)\<lparr>cfUserAgent := clDefaultKubernetesUserAgent lib @ ''/'' @ name\<rparr>)\<rparr>)"
  by (simp add: AddUserAgent_def cfg_simps)

definition crConfig :: "clientLibrary \<Rightarrow> restConfig \<Rightarrow> restConfig" where
  "crConfig lib c = c\<lparr>cfGroupVersion := Some (GroupName, GroupVersion), cfAPIPath := ''/apis'',
     cfNegotiatedSerializer := Some ''DirectCodecFactory'', cfUserAgent := agentOr lib (cfUserAgent c)\<rparr>"

lemma crNewForConfig_run:
  assumes "p < cmNext m"
  shows "\<exists>m'. run_state (crNewForConfig lib p) m =
      (if clRESTClientFor lib (crConfig lib (cmConfigs m p)) = None
       then (Some \<lparr>crRest = RESTClient (crConfig lib (cmConfigs m p))\<rparr>, None)
       else (None, clRESTClientFor lib (crConfig lib (cmConfigs m p))), m') \<and>
     grows m m' \<and> cmLimiters m' = cmLimiters m"
  using assms by (simp add: crNewForConfig_def setConfigDefaults_def cfg_simps crConfig_def grows_def)

lemma shareRateLimiter_run:
  "run_state (shareRateLimiter lib p) m =
     (if cfRateLimiter (cmConfigs m p) = None \<and> clPositive lib (cfQPS (cmConfigs m p))
      then ((), m\<lparr>cmConfigs := (cmConfigs m)(p := (cmConfigs m p)\<lparr>cfRateLimiter := Some (length (cmLimiters m))\<rparr>),
        cmLimiters := cmLimiters m @ [(cfQPS (cmConfigs m p), cfBurst (cmConfigs m p))]\<rparr>)
      else ((), m))"
  by (simp add: shareRateLimiter_def cfg_simps)

definition limits :: "clientLibrary \<Rightarrow> restConfig \<Rightarrow> bool" where
  "limits lib c \<longleftrightarrow> cfRateLimiter c = None \<and> clPositive lib (cfQPS c)"

definition limited :: "clientLibrary \<Rightarrow> configMemory \<Rightarrow> restConfig \<Rightarrow> restConfig" where
  "limited lib m c = (if limits lib c then c\<lparr>cfRateLimiter := Some (length (cmLimiters m))\<rparr> else c)"

definition limitersAfter :: "clientLibrary \<Rightarrow> configMemory \<Rightarrow> restConfig \<Rightarrow> (opaque \<times> int64) list" where
  "limitersAfter lib m c = cmLimiters m @ (if limits lib c then [(cfQPS c, cfBurst c)] else [])"

text \<open>A clientset, or an error, from a configuration in memory.\<close>

definition madeFrom :: "clientLibrary \<Rightarrow> restConfig \<Rightarrow> Clientset option \<times> error \<Rightarrow> bool" where
  "madeFrom lib c r \<longleftrightarrow> (snd r = None \<longrightarrow> crConfigOf (fst r) = Some (crConfig lib c) \<and>
     (\<exists>d. discoveryConfigOf (fst r) = Some d \<and> cfUserAgent d = agentOr lib (cfUserAgent c) \<and>
        cfRateLimiter d = cfRateLimiter c))"

lemma copied_run:
  assumes "run_state (newConfig c) m = (q, m1)"
  shows "q = cmNext m \<and> cmConfigs m1 q = c \<and> q < cmNext m1 \<and> grows m m1 \<and> cmLimiters m1 = cmLimiters m"
  using assms by (auto simp: cfg_simps grows_def)

lemma shared_run:
  assumes "run_state (newConfig c) m = (q, m1)" and "run_state (shareRateLimiter lib q) m1 = (u, m2)"
  shows "q < cmNext m2 \<and> cmConfigs m2 q = limited lib m c \<and> grows m m2 \<and> cmLimiters m2 = limitersAfter lib m c"
proof -
  have "(u, m2) = (if limits lib c then ((), m1\<lparr>cmConfigs := (cmConfigs m1)
        (q := c\<lparr>cfRateLimiter := Some (length (cmLimiters m1))\<rparr>), cmLimiters := cmLimiters m1 @ [(cfQPS c, cfBurst c)]\<rparr>)
      else ((), m1))"
    using assms(2) [unfolded shareRateLimiter_run conjunct1 [OF conjunct2 [OF copied_run [OF assms(1)]]], symmetric]
    by (cases u) (simp add: limits_def)
  then show ?thesis
    using copied_run [OF assms(1)]
    by (auto simp: limited_def limitersAfter_def grows_def split: if_splits)
qed

lemma discovery_run:
  "\<exists>d err. run_state (NewDiscoveryClientForConfig lib p) m = ((\<lparr>dcRest = RESTClient d\<rparr>, err), m) \<and>
     cfUserAgent d = agentOr lib (cfUserAgent (cmConfigs m p)) \<and> cfRateLimiter d = cfRateLimiter (cmConfigs m p)"
  by (simp add: NewDiscoveryClientForConfig_def configAt_def Let_def)

lemma NewForConfig_run:
  assumes "p < cmNext m" and "run_state (NewForConfig lib p) m = (r, m')"
  shows "grows m m' \<and> cmLimiters m' = limitersAfter lib m (cmConfigs m p) \<and>
     madeFrom lib (limited lib m (cmConfigs m p)) r"
proof -
  obtain q m1 where new: "run_state (newConfig (cmConfigs m p)) m = (q, m1)" by (cases "run_state (newConfig (cmConfigs m p)) m")
  obtain m2 where share: "run_state (shareRateLimiter lib q) m1 = ((), m2)" by (cases "run_state (shareRateLimiter lib q) m1") auto
  note s = shared_run [OF new share]
  let ?c = "limited lib m (cmConfigs m p)"
  let ?err = "clRESTClientFor lib (crConfig lib ?c)"
  obtain m3 where cr: "run_state (crNewForConfig lib q) m2 =
      (if ?err = None then (Some \<lparr>crRest = RESTClient (crConfig lib ?c)\<rparr>, None) else (None, ?err), m3)"
    and m3: "grows m2 m3" "cmLimiters m3 = cmLimiters m2"
    using crNewForConfig_run [of q m2 lib] s by auto
  have start: "run_state (NewForConfig lib p) m = run_state (do {
     (cr, err) \<leftarrow> crNewForConfig lib q;
     if err \<noteq> None then State_Monad.return (None, err)
     else do {
       (discovery, err) \<leftarrow> NewDiscoveryClientForConfig lib q;
       State_Monad.return (if err \<noteq> None then (None, err)
         else (Some \<lparr>csDiscoveryClient = Some discovery, csCrV1alpha1 = cr\<rparr>, None)) } }) m2"
    using new share by (simp add: NewForConfig_def configAt_def)
  have "cmConfigs m3 q = ?c" using s m3 by (simp add: grows_def)
  then obtain d derr where "run_state (NewDiscoveryClientForConfig lib q) m3 = ((\<lparr>dcRest = RESTClient d\<rparr>, derr), m3)"
    and d: "cfUserAgent d = agentOr lib (cfUserAgent ?c)" "cfRateLimiter d = cfRateLimiter ?c"
    using discovery_run [of lib q m3] by metis
  then have "run_state (NewForConfig lib p) m = (if ?err \<noteq> None then (None, ?err) else if derr \<noteq> None then (None, derr)
      else (Some \<lparr>csDiscoveryClient = Some \<lparr>dcRest = RESTClient d\<rparr>,
        csCrV1alpha1 = Some \<lparr>crRest = RESTClient (crConfig lib ?c)\<rparr>\<rparr>, None), m3)"
    unfolding start by (simp add: cr)
  then have "m' = m3 \<and> madeFrom lib ?c r"
    using assms(2) d
    by (auto simp: madeFrom_def crConfigOf_def discoveryConfigOf_def CrV1alpha1_def Discovery_def split: if_splits)
  then show ?thesis
    using s m3 grows_trans by metis
qed

lemma builder_run:
  assumes "sbClientConfig b < cmNext m" and "run_state (builderClientOrDie lib b name) m = (r, m')"
  shows "grows m m' \<and> namedClient lib name r \<and> cmLimiters m' = limitersAfter lib m (cmConfigs m (sbClientConfig b)) \<and>
     (limits lib (cmConfigs m (sbClientConfig b)) \<longrightarrow> limiterOf r \<in> {None, Some (length (cmLimiters m))})"
proof -
  let ?c = "cmConfigs m (sbClientConfig b)"
  let ?named = "?c\<lparr>cfUserAgent := clDefaultKubernetesUserAgent lib @ ''/'' @ name\<rparr>"
  let ?m1 = "m\<lparr>cmConfigs := (cmConfigs m)(cmNext m := ?named), cmNext := Suc (cmNext m)\<rparr>"
  obtain x m2 where made: "run_state (NewForConfig lib (cmNext m)) ?m1 = (x, m2)"
    by (cases "run_state (NewForConfig lib (cmNext m)) ?m1")
  have conf: "run_state (builderConfig lib b name) m = ((cmNext m, None), ?m1)"
    by (simp add: builderConfig_def configAt_def newConfig_def)
  have r: "r = (if snd x \<noteq> None then Fatal else Done (fst x))" "m' = m2"
    using assms(2) made conf by (auto simp: builderClientOrDie_def builderClient_def split: prod.splits)
  have "grows ?m1 m2 \<and> cmLimiters m2 = limitersAfter lib ?m1 ?named \<and> madeFrom lib (limited lib ?m1 ?named) x"
    using NewForConfig_run [OF _ made] by simp
  moreover have "grows m ?m1" by (simp add: grows_def)
  moreover have "limits lib ?named = limits lib ?c" by (simp add: limits_def)
  ultimately show ?thesis
    using r grows_trans [of m ?m1 m2]
    by (auto simp: limited_def limitersAfter_def madeFrom_def namedClient_def limiterOf_def crConfig_def agentOr_def limits_def)
qed

text \<open>The limiters of the clients that have one.\<close>

definition limitersOf :: "Clientset option exit list \<Rightarrow> nat list" where
  "limitersOf rs = concat (map (\<lambda>r. case limiterOf r of Some l \<Rightarrow> [l] | None \<Rightarrow> []) rs)"

lemma clientsFor_run:
  assumes "sbClientConfig b < cmNext m" and "run_state (clientsFor lib b names) m = (rs, m')"
  shows "grows m m' \<and> list_all2 (namedClient lib) names rs \<and>
     (limits lib (cmConfigs m (sbClientConfig b)) \<longrightarrow> distinct (limitersOf rs) \<and>
        (\<forall>l\<in>set (limitersOf rs). length (cmLimiters m) \<le> l \<and>
           cmLimiters m' ! l = (cfQPS (cmConfigs m (sbClientConfig b)), cfBurst (cmConfigs m (sbClientConfig b))) \<and>
           l < length (cmLimiters m')))"
  using assms
proof (induction names arbitrary: m rs)
  case Nil
  then show ?case by (simp add: limitersOf_def)
next
  case (Cons name names)
  let ?c = "cmConfigs m (sbClientConfig b)"
  obtain r m1 where first: "run_state (builderClientOrDie lib b name) m = (r, m1)"
    by (cases "run_state (builderClientOrDie lib b name) m")
  obtain rs1 where rest: "run_state (clientsFor lib b names) m1 = (rs1, m')" and eq: "rs = r # rs1"
    using Cons.prems(2) first by (auto split: prod.splits)
  note one = builder_run [OF Cons.prems(1) first]
  have "sbClientConfig b < cmNext m1" and same: "cmConfigs m1 (sbClientConfig b) = ?c"
    using one Cons.prems(1) by (auto simp: grows_def)
  note IH = Cons.IH [OF this(1) rest, unfolded same]
  have "distinct (limitersOf rs) \<and> (\<forall>l\<in>set (limitersOf rs). length (cmLimiters m) \<le> l \<and>
      cmLimiters m' ! l = (cfQPS ?c, cfBurst ?c) \<and> l < length (cmLimiters m'))" if "limits lib ?c"
  proof -
    have m1: "cmLimiters m1 = cmLimiters m @ [(cfQPS ?c, cfBurst ?c)]" and r: "limiterOf r \<in> {None, Some (length (cmLimiters m))}"
      using one that by (simp_all add: limitersAfter_def)
    obtain zs where "cmLimiters m' = cmLimiters m1 @ zs"
      using IH by (auto simp: grows_def prefix_def)
    then have "cmLimiters m' ! length (cmLimiters m) = (cfQPS ?c, cfBurst ?c)" "length (cmLimiters m) < length (cmLimiters m')"
      by (simp_all add: m1 nth_append)
    moreover have "distinct (limitersOf rs1)" "\<forall>l\<in>set (limitersOf rs1). Suc (length (cmLimiters m)) \<le> l \<and>
        cmLimiters m' ! l = (cfQPS ?c, cfBurst ?c) \<and> l < length (cmLimiters m')"
      using IH that by (simp_all add: m1)
    moreover have "limitersOf rs = (case limiterOf r of Some l \<Rightarrow> [l] | None \<Rightarrow> []) @ limitersOf rs1"
      by (simp add: limitersOf_def eq)
    ultimately show ?thesis using r by auto
  qed
  then show ?case
    using one IH grows_trans eq by auto
qed

text \<open>
  C32: the clients of one builder do not disturb each other. Building clients for any names leaves the
  configuration of the builder, and every other that existed, as it was; every client that is returned
  carries its own name in the agent of both of its parts, which share one rate limiter; and when the
  configuration brings no limiter but a positive rate, no two clients share one, and each limiter was made
  with the configured rate and burst.
\<close>

theorem clientsFor_separate:
  assumes "sbClientConfig b < cmNext m" and "run_state (clientsFor lib b names) m = (rs, m')"
  shows "(\<forall>p<cmNext m. cmConfigs m' p = cmConfigs m p) \<and> list_all2 (namedClient lib) names rs \<and>
     (limits lib (cmConfigs m (sbClientConfig b)) \<longrightarrow> distinct (limitersOf rs) \<and>
        (\<forall>l\<in>set (limitersOf rs). l < length (cmLimiters m') \<and>
           cmLimiters m' ! l = (cfQPS (cmConfigs m (sbClientConfig b)), cfBurst (cmConfigs m (sbClientConfig b)))))"
  using clientsFor_run [OF assms] unfolding grows_def by blast

definition exampleConfig :: restConfig where
  "exampleConfig = \<lparr>cfGroupVersion = None, cfAPIPath = [], cfNegotiatedSerializer = None, cfUserAgent = [],
     cfQPS = ''20.0'', cfBurst = 30, cfRateLimiter = None, cfOthers = []\<rparr>"

definition exampleLibrary :: clientLibrary where
  "exampleLibrary = \<lparr>clDefaultKubernetesUserAgent = ''om'', clPositive = \<lambda>x. x \<noteq> ''0.0'',
     clBuildConfigFromFlags = \<lambda>_ _. Inr exampleConfig, clRESTClientFor = \<lambda>_. None,
     clUnversionedRESTClientFor = \<lambda>_. None, clKubeNewForConfig = \<lambda>_. None, clExtensionsNewForConfig = \<lambda>_. None\<rparr>"

definition exampleMemory :: configMemory where
  "exampleMemory = \<lparr>cmNext = 1, cmConfigs = \<lambda>_. exampleConfig, cmLimiters = []\<rparr>"

theorem clientsFor_separate_witness:
  "cmConfigs (snd (run_state (clientsFor exampleLibrary \<lparr>sbClientConfig = 0\<rparr> [''a'', ''b'']) exampleMemory)) 0 = exampleConfig \<and>
   list_all2 (namedClient exampleLibrary) [''a'', ''b'']
     (fst (run_state (clientsFor exampleLibrary \<lparr>sbClientConfig = 0\<rparr> [''a'', ''b'']) exampleMemory)) \<and>
   distinct (limitersOf (fst (run_state (clientsFor exampleLibrary \<lparr>sbClientConfig = 0\<rparr> [''a'', ''b'']) exampleMemory)))"
proof -
  have pos: "sbClientConfig \<lparr>sbClientConfig = 0\<rparr> < cmNext exampleMemory" "0 < cmNext exampleMemory"
    and at: "cmConfigs exampleMemory 0 = exampleConfig"
    and lim: "limits exampleLibrary (cmConfigs exampleMemory (sbClientConfig \<lparr>sbClientConfig = 0\<rparr>))"
    by (simp_all add: exampleMemory_def exampleConfig_def exampleLibrary_def limits_def)
  show ?thesis
    using clientsFor_separate [OF pos(1) surjective_pairing, of exampleLibrary "[''a'', ''b'']"] pos(2) lim
    unfolding at [symmetric] by blast
qed

section \<open>The clients of the process\<close>

text \<open>The configuration behind a client that is given a name, as \<open>createClients\<close> sets it up.\<close>

definition configured :: "clientLibrary \<Rightarrow> OperatorManagerServer \<Rightarrow> string \<Rightarrow> restConfig \<Rightarrow> restConfig" where
  "configured lib s name c = c\<lparr>cfQPS := omsKubeAPIQPS s, cfBurst := scast (omsKubeAPIBurst s),
     cfUserAgent := clDefaultKubernetesUserAgent lib @ ''/'' @ name\<rparr>"

text \<open>The replies that the start of the process then gets.\<close>

definition repliesOf :: "clientLibrary \<Rightarrow> OperatorManagerServer \<Rightarrow> startEnv \<Rightarrow> startEnv" where
  "repliesOf lib s env =
     (case clBuildConfigFromFlags lib (omsMaster s) (omsKubeconfig s) of
        Inl e \<Rightarrow> env\<lparr>seBuildConfig := Some e\<rparr>
      | Inr c \<Rightarrow> env\<lparr>seBuildConfig := None,
          seKubeClient := clKubeNewForConfig lib (configured lib s ''operator-manager'' c),
          seLeaderClient := clKubeNewForConfig lib (configured lib s ''leader-election'' c),
          seExtensionClient := clExtensionsNewForConfig lib (configured lib s ''leader-election'' c)\<rparr>)"

fun exitError :: "('a \<times> error) exit \<Rightarrow> error exit" where
  "exitError (Done (x, err)) = Done err"
| "exitError Fatal = Fatal"
| "exitError Crash = Crash"
| "exitError Blocked = Blocked"

text \<open>
  The clients of the process. The start of the process ends the construction of its clients exactly as
  the detailed construction does. When it succeeds, the Kubernetes client calls itself operator-manager,
  the leader election client leader-election, and so does the client for extensions, because the
  configuration was renamed in place; the configuration kept for the builder has the rate and the burst of
  the options, and no configuration that existed before was written.
\<close>

theorem buildClients_configured:
  "exitError (fst (run_state (buildClients lib s) m)) = fst (createClients (repliesOf lib s env) pr) \<and>
   (\<forall>p<cmNext m. cmConfigs (snd (run_state (buildClients lib s) m)) p = cmConfigs m p) \<and>
   (case fst (run_state (buildClients lib s) m) of
      Done (Some pc, err) \<Rightarrow> err = None \<and>
        (\<exists>c. clBuildConfigFromFlags lib (omsMaster s) (omsKubeconfig s) = Inr c \<and>
          pcKubeClient pc = configured lib s ''operator-manager'' c \<and>
          pcLeaderElectionClient pc = configured lib s ''leader-election'' c \<and>
          pcExtensionCRClient pc = configured lib s ''leader-election'' c \<and>
          cmConfigs (snd (run_state (buildClients lib s) m)) (pcKubeconfig pc) = configured lib s ''leader-election'' c)
    | _ \<Rightarrow> True)"
  by (cases "clBuildConfigFromFlags lib (omsMaster s) (omsKubeconfig s)")
    (auto simp: buildClients_def createClients_def repliesOf_def cfg_simps configured_def finish_def halt_def)

end
