(* ===== verification/ClusterClient.thy ===== *)
theory ClusterClient
  imports ApiTypes
begin

text \<open>
  The typed client of RedisClusters (\<^verbatim>\<open>typed/redis/v1alpha1/rediscluster.go\<close>) with the request
  builder of \<^verbatim>\<open>client-go/rest/request.go\<close> it uses, and the way an API server reads a request
  (\<^verbatim>\<open>requestinfo.go\<close>). The wire and the encoding of bodies are parameters; the options are
  types of the code's scheme, so that encoding them as query parameters does not fail. The retries of a
  request, its headers besides the content type and the throttle are left out.
\<close>

section \<open>Options as query parameters\<close>

record ListOptions =
  loLabelSelector :: string
  loFieldSelector :: string
  loIncludeUninitialized :: bool
  loWatch :: bool
  loResourceVersion :: string
  loTimeoutSeconds :: "int64 option"
  loLimit :: int64
  loContinue :: string

record GetOptions =
  goResourceVersion :: string
  goIncludeUninitialized :: bool

type_synonym query = "(string \<times> string) list"

text \<open>All these parameters have \<open>omitempty\<close>.\<close>

definition stringParam :: "string \<Rightarrow> string \<Rightarrow> query" where
  "stringParam tag v = (if v = [] then [] else [(tag, v)])"

definition boolParam :: "string \<Rightarrow> bool \<Rightarrow> query" where
  "boolParam tag v = (if v then [(tag, ''true'')] else [])"

definition intParam :: "string \<Rightarrow> int64 \<Rightarrow> query" where
  "intParam tag v = (if v = 0 then [] else [(tag, showInt (sint v))])"

definition listParams :: "ListOptions \<Rightarrow> query" where
  "listParams o' = stringParam ''labelSelector'' (loLabelSelector o') @ stringParam ''fieldSelector'' (loFieldSelector o') @
     boolParam ''includeUninitialized'' (loIncludeUninitialized o') @ boolParam ''watch'' (loWatch o') @
     stringParam ''resourceVersion'' (loResourceVersion o') @
     (case loTimeoutSeconds o' of None \<Rightarrow> [] | Some t \<Rightarrow> intParam ''timeoutSeconds'' t) @
     intParam ''limit'' (loLimit o') @ stringParam ''continue'' (loContinue o')"

definition getParams :: "GetOptions \<Rightarrow> query" where
  "getParams o' = stringParam ''resourceVersion'' (goResourceVersion o') @
     boolParam ''includeUninitialized'' (goIncludeUninitialized o')"

section \<open>Building a request\<close>

datatype clientError =
    EmptyName
  | AlreadySet string string
  | InvalidSegment string
  | EmptyNamespaceWithName
  | EmptyNamespaceOnCreate
  | EncodeError string
  | Remote gerr

datatype payload = Cluster RedisCluster | DeleteOptions "opaque option" | Bytes string

record Request =
  rqVerb :: string
  rqContentType :: string
  rqNamespace :: string
  rqNamespaceSet :: bool
  rqResource :: string
  rqResourceName :: string
  rqSubresource :: string
  rqParams :: query
  rqTimeout :: int64
  rqBody :: "payload option"
  rqErr :: "clientError option"

definition validSegment :: "string \<Rightarrow> bool" where
  "validSegment name \<longleftrightarrow> name \<notin> {''.'', ''..''} \<and> CHR ''/'' \<notin> set name \<and> CHR ''%'' \<notin> set name"

definition NewRequest :: "string \<Rightarrow> Request" where
  "NewRequest verb = \<lparr>rqVerb = verb, rqContentType = [], rqNamespace = [], rqNamespaceSet = False, rqResource = [],
     rqResourceName = [], rqSubresource = [], rqParams = [], rqTimeout = 0, rqBody = None, rqErr = None\<rparr>"

text \<open>\<open>path.Join\<close> on clean elements: the empty ones are dropped, the others joined.\<close>

definition pathJoin :: "string list \<Rightarrow> string" where
  "pathJoin parts = join ''/'' (filter (\<lambda>p. p \<noteq> []) parts)"

definition reqNamespace :: "string \<Rightarrow> Request \<Rightarrow> Request" where
  "reqNamespace namespace r =
     (if rqErr r \<noteq> None then r
      else if rqNamespaceSet r then r\<lparr>rqErr := Some (AlreadySet (rqNamespace r) namespace)\<rparr>
      else if \<not> validSegment namespace then r\<lparr>rqErr := Some (InvalidSegment namespace)\<rparr>
      else r\<lparr>rqNamespaceSet := True, rqNamespace := namespace\<rparr>)"

definition reqResource :: "string \<Rightarrow> Request \<Rightarrow> Request" where
  "reqResource resource r =
     (if rqErr r \<noteq> None then r
      else if rqResource r \<noteq> [] then r\<lparr>rqErr := Some (AlreadySet (rqResource r) resource)\<rparr>
      else if \<not> validSegment resource then r\<lparr>rqErr := Some (InvalidSegment resource)\<rparr>
      else r\<lparr>rqResource := resource\<rparr>)"

definition reqName :: "string \<Rightarrow> Request \<Rightarrow> Request" where
  "reqName resourceName r =
     (if rqErr r \<noteq> None then r
      else if resourceName = [] then r\<lparr>rqErr := Some EmptyName\<rparr>
      else if rqResourceName r \<noteq> [] then r\<lparr>rqErr := Some (AlreadySet (rqResourceName r) resourceName)\<rparr>
      else if \<not> validSegment resourceName then r\<lparr>rqErr := Some (InvalidSegment resourceName)\<rparr>
      else r\<lparr>rqResourceName := resourceName\<rparr>)"

definition reqSubResource :: "string list \<Rightarrow> Request \<Rightarrow> Request" where
  "reqSubResource subresources r =
     (if rqErr r \<noteq> None then r
      else if rqSubresource r \<noteq> [] then r\<lparr>rqErr := Some (AlreadySet (rqResource r) (pathJoin subresources))\<rparr>
      else
        (case find (\<lambda>s. \<not> validSegment s) subresources of
           Some s \<Rightarrow> r\<lparr>rqErr := Some (InvalidSegment s)\<rparr>
         | None \<Rightarrow> r\<lparr>rqSubresource := pathJoin subresources\<rparr>))"

definition reqVersionedParams :: "query \<Rightarrow> Request \<Rightarrow> Request" where
  "reqVersionedParams params r = (if rqErr r \<noteq> None then r else r\<lparr>rqParams := rqParams r @ params\<rparr>)"

definition reqTimeout :: "int64 \<Rightarrow> Request \<Rightarrow> Request" where
  "reqTimeout d r = (if rqErr r \<noteq> None then r else r\<lparr>rqTimeout := d\<rparr>)"

text \<open>Delete options that are a nil pointer send no body; bytes are sent as they are.\<close>

definition reqBody :: "(payload \<Rightarrow> string option) \<Rightarrow> payload \<Rightarrow> Request \<Rightarrow> Request" where
  "reqBody encodeError obj r =
     (if rqErr r \<noteq> None then r
      else
        (case obj of
           Bytes b \<Rightarrow> r\<lparr>rqBody := Some (Bytes b)\<rparr>
         | DeleteOptions None \<Rightarrow> r
         | _ \<Rightarrow>
             (case encodeError obj of
                Some e \<Rightarrow> r\<lparr>rqErr := Some (EncodeError e)\<rparr>
              | None \<Rightarrow> r\<lparr>rqBody := Some obj, rqContentType := ''application/json''\<rparr>)))"

definition build :: "Request \<Rightarrow> (Request \<Rightarrow> Request) list \<Rightarrow> Request" where
  "build r steps = fold (\<lambda>step. step) steps r"

section \<open>Sending a request\<close>

record httpRequest =
  hrMethod :: string
  hrPath :: string
  hrQuery :: query
  hrTimeout :: int64
  hrContentType :: string
  hrBody :: "payload option"

abbreviation redisclusters :: string where "redisclusters \<equiv> ''redisclusters''"

text \<open>The client is configured with the path of the group version, on a server at the root.\<close>

definition pathPrefix :: string where
  "pathPrefix = CHR ''/'' # pathJoin [''apis'', GroupName, GroupVersion]"

definition toLower :: "string \<Rightarrow> string" where
  "toLower = map (\<lambda>c. if 65 \<le> (of_char c :: nat) \<and> of_char c \<le> (90 :: nat) then char_of (of_char c + 32 :: nat) else c)"

definition requestURL :: "Request \<Rightarrow> string" where
  "requestURL r = (
     let p = pathPrefix;
         p = if rqNamespaceSet r \<and> rqNamespace r \<noteq> [] then pathJoin [p, ''namespaces'', rqNamespace r] else p;
         p = if rqResource r \<noteq> [] then pathJoin [p, toLower (rqResource r)] else p
     in if rqResourceName r \<noteq> [] \<or> rqSubresource r \<noteq> [] then pathJoin [p, rqResourceName r, rqSubresource r] else p)"

definition httpOf :: "Request \<Rightarrow> httpRequest" where
  "httpOf r = \<lparr>hrMethod = rqVerb r, hrPath = requestURL r, hrQuery = rqParams r, hrTimeout = rqTimeout r,
     hrContentType = rqContentType r, hrBody = rqBody r\<rparr>"

text \<open>The checks of \<open>Do\<close>, and the only one of \<open>Watch\<close>.\<close>

definition checkDo :: "Request \<Rightarrow> clientError + httpRequest" where
  "checkDo r =
     (case rqErr r of
        Some e \<Rightarrow> Inl e
      | None \<Rightarrow>
          if rqVerb r \<in> {''GET'', ''PUT'', ''DELETE''} \<and> rqNamespaceSet r \<and> rqResourceName r \<noteq> [] \<and> rqNamespace r = []
          then Inl EmptyNamespaceWithName
          else if rqVerb r = ''POST'' \<and> rqNamespaceSet r \<and> rqNamespace r = [] then Inl EmptyNamespaceOnCreate
          else Inr (httpOf r))"

definition checkWatch :: "Request \<Rightarrow> clientError + httpRequest" where
  "checkWatch r = (case rqErr r of Some e \<Rightarrow> Inl e | None \<Rightarrow> Inr (httpOf r))"

text \<open>\<open>Do().Into(result)\<close>: the wire decodes its reply into the object that is there; \<open>Do().Error()\<close>.\<close>

definition doInto :: "(httpRequest \<Rightarrow> 'o \<Rightarrow> 'o \<times> clientError option) \<Rightarrow> 'o \<Rightarrow> Request \<Rightarrow> 'o \<times> clientError option" where
  "doInto wire obj r = (case checkDo r of Inl e \<Rightarrow> (obj, Some e) | Inr h \<Rightarrow> wire h obj)"

definition doError :: "(httpRequest \<Rightarrow> clientError option) \<Rightarrow> Request \<Rightarrow> clientError option" where
  "doError wire r = (case checkDo r of Inl e \<Rightarrow> Some e | Inr h \<Rightarrow> wire h)"

definition doWatch :: "(httpRequest \<Rightarrow> 'w option \<times> clientError option) \<Rightarrow> Request \<Rightarrow> 'w option \<times> clientError option" where
  "doWatch wire r = (case checkWatch r of Inl e \<Rightarrow> (None, Some e) | Inr h \<Rightarrow> wire h)"


section \<open>The client\<close>

definition getRequest :: "string \<Rightarrow> string \<Rightarrow> GetOptions \<Rightarrow> Request" where
  "getRequest ns name options = build (NewRequest ''GET'')
     [reqNamespace ns, reqResource redisclusters, reqName name, reqVersionedParams (getParams options)]"

text \<open>\<open>time.Duration(*opts.TimeoutSeconds) * time.Second\<close>, in 64 bits.\<close>

definition optionsTimeout :: "ListOptions \<Rightarrow> int64" where
  "optionsTimeout opts = (case loTimeoutSeconds opts of None \<Rightarrow> 0 | Some t \<Rightarrow> t * 1000000000)"

definition listRequest :: "string \<Rightarrow> ListOptions \<Rightarrow> Request" where
  "listRequest ns opts = build (NewRequest ''GET'')
     [reqNamespace ns, reqResource redisclusters, reqVersionedParams (listParams opts), reqTimeout (optionsTimeout opts)]"

definition watchRequest :: "string \<Rightarrow> ListOptions \<Rightarrow> Request" where
  "watchRequest ns opts = (let opts' = opts\<lparr>loWatch := True\<rparr> in build (NewRequest ''GET'')
     [reqNamespace ns, reqResource redisclusters, reqVersionedParams (listParams opts'), reqTimeout (optionsTimeout opts)])"

definition createRequest :: "(payload \<Rightarrow> string option) \<Rightarrow> string \<Rightarrow> RedisCluster \<Rightarrow> Request" where
  "createRequest enc ns redisCluster = build (NewRequest ''POST'')
     [reqNamespace ns, reqResource redisclusters, reqBody enc (Cluster redisCluster)]"

definition updateRequest :: "(payload \<Rightarrow> string option) \<Rightarrow> string \<Rightarrow> RedisCluster \<Rightarrow> Request" where
  "updateRequest enc ns redisCluster = build (NewRequest ''PUT'')
     [reqNamespace ns, reqResource redisclusters, reqName (rcName redisCluster), reqBody enc (Cluster redisCluster)]"

definition updateStatusRequest :: "(payload \<Rightarrow> string option) \<Rightarrow> string \<Rightarrow> RedisCluster \<Rightarrow> Request" where
  "updateStatusRequest enc ns redisCluster = build (NewRequest ''PUT'')
     [reqNamespace ns, reqResource redisclusters, reqName (rcName redisCluster), reqSubResource [''status''],
      reqBody enc (Cluster redisCluster)]"

definition deleteRequest :: "(payload \<Rightarrow> string option) \<Rightarrow> string \<Rightarrow> string \<Rightarrow> opaque option \<Rightarrow> Request" where
  "deleteRequest enc ns name options = build (NewRequest ''DELETE'')
     [reqNamespace ns, reqResource redisclusters, reqName name, reqBody enc (DeleteOptions options)]"

definition deleteCollectionRequest ::
    "(payload \<Rightarrow> string option) \<Rightarrow> string \<Rightarrow> opaque option \<Rightarrow> ListOptions \<Rightarrow> Request" where
  "deleteCollectionRequest enc ns options listOptions = build (NewRequest ''DELETE'')
     [reqNamespace ns, reqResource redisclusters, reqVersionedParams (listParams listOptions),
      reqTimeout (optionsTimeout listOptions), reqBody enc (DeleteOptions options)]"

definition patchRequest ::
    "(payload \<Rightarrow> string option) \<Rightarrow> string \<Rightarrow> string \<Rightarrow> string \<Rightarrow> string \<Rightarrow> string list \<Rightarrow> Request" where
  "patchRequest enc ns name pt data subresources = build (NewRequest ''PATCH''\<lparr>rqContentType := pt\<rparr>)
     [reqNamespace ns, reqResource redisclusters, reqSubResource subresources, reqName name, reqBody enc (Bytes data)]"

text \<open>A call of the interface, with its namespace apart.\<close>

datatype clientCall =
    GetCall string GetOptions
  | ListCall ListOptions
  | WatchCall ListOptions
  | CreateCall RedisCluster
  | UpdateCall RedisCluster
  | UpdateStatusCall RedisCluster
  | DeleteCall string "opaque option"
  | DeleteCollectionCall "opaque option" ListOptions
  | PatchCall string string string "string list"

text \<open>What the client sends for a call, or the error it stops with.\<close>

fun sent :: "(payload \<Rightarrow> string option) \<Rightarrow> string \<Rightarrow> clientCall \<Rightarrow> clientError + httpRequest" where
  "sent enc ns (GetCall name options) = checkDo (getRequest ns name options)"
| "sent enc ns (ListCall opts) = checkDo (listRequest ns opts)"
| "sent enc ns (WatchCall opts) = checkWatch (watchRequest ns opts)"
| "sent enc ns (CreateCall rc) = checkDo (createRequest enc ns rc)"
| "sent enc ns (UpdateCall rc) = checkDo (updateRequest enc ns rc)"
| "sent enc ns (UpdateStatusCall rc) = checkDo (updateStatusRequest enc ns rc)"
| "sent enc ns (DeleteCall name options) = checkDo (deleteRequest enc ns name options)"
| "sent enc ns (DeleteCollectionCall options opts) = checkDo (deleteCollectionRequest enc ns options opts)"
| "sent enc ns (PatchCall name pt data subresources) = checkDo (patchRequest enc ns name pt data subresources)"

section \<open>How the server reads a request\<close>

record RequestInfo =
  riIsResourceRequest :: bool
  riVerb :: string
  riAPIPrefix :: string
  riAPIGroup :: string
  riAPIVersion :: string
  riNamespace :: string
  riResource :: string
  riSubresource :: string
  riName :: string
  riParts :: "string list"

definition splitPath :: "string \<Rightarrow> string list" where
  "splitPath path =
     (let p = rev (dropWhile (\<lambda>c. c = CHR ''/'') (rev (dropWhile (\<lambda>c. c = CHR ''/'') path)))
      in if p = [] then [] else splitOn (CHR ''/'') p)"

definition verbOfMethod :: "string \<Rightarrow> string" where
  "verbOfMethod m =
     (if m = ''POST'' then ''create''
      else if m \<in> {''GET'', ''HEAD''} then ''get''
      else if m = ''PUT'' then ''update''
      else if m = ''PATCH'' then ''patch''
      else if m = ''DELETE'' then ''delete''
      else [])"

text \<open>The path below the version: namespace, then resource, name and subresource.\<close>

definition readParts :: "string list \<Rightarrow> RequestInfo \<Rightarrow> RequestInfo" where
  "readParts currentParts info = (
     let info = (if currentParts ! 0 = ''namespaces'' then if 1 < length currentParts then info\<lparr>riNamespace := currentParts ! 1\<rparr> else info
                 else info\<lparr>riNamespace := []\<rparr>);
         parts = (if currentParts ! 0 = ''namespaces'' \<and> 2 < length currentParts \<and> currentParts ! 2 \<notin> {''status'', ''finalize''}
                  then drop 2 currentParts else currentParts);
         info = info\<lparr>riParts := parts\<rparr>;
         info = (if 3 \<le> length parts \<and> riVerb info \<noteq> ''proxy'' then info\<lparr>riSubresource := parts ! 2\<rparr> else info);
         info = (if 2 \<le> length parts then info\<lparr>riName := parts ! 1\<rparr> else info)
     in if 1 \<le> length parts then info\<lparr>riResource := parts ! 0\<rparr> else info)"

text \<open>Without a name, a get is a list or a watch, and a delete is for the collection.\<close>

definition collectionVerb :: "query \<Rightarrow> RequestInfo \<Rightarrow> RequestInfo" where
  "collectionVerb q info = (
     let info = (if riName info = [] \<and> riVerb info = ''get''
                 then (case find (\<lambda>(k, v). k = ''watch'') q of
                         None \<Rightarrow> info\<lparr>riVerb := ''list''\<rparr>
                       | Some (_, v) \<Rightarrow> info\<lparr>riVerb := if toLower v \<in> {''false'', ''0''} then ''list'' else ''watch''\<rparr>)
                 else info)
     in if riName info = [] \<and> riVerb info = ''delete'' then info\<lparr>riVerb := ''deletecollection''\<rparr> else info)"

text \<open>A path of a special verb with nothing behind it is an error; then the info is what is known by then.\<close>

definition NewRequestInfo :: "httpRequest \<Rightarrow> RequestInfo \<times> bool" where
  "NewRequestInfo req = (
     let start = \<lparr>riIsResourceRequest = False, riVerb = toLower (hrMethod req), riAPIPrefix = [], riAPIGroup = [],
           riAPIVersion = [], riNamespace = [], riResource = [], riSubresource = [], riName = [], riParts = []\<rparr>;
         parts = splitPath (hrPath req)
     in if length parts < 3 \<or> hd parts \<notin> {''api'', ''apis''} then (start, True)
        else (
          let info = start\<lparr>riAPIPrefix := hd parts\<rparr>; parts = tl parts
          in if riAPIPrefix info \<noteq> ''api'' \<and> length parts < 3 then (info, True)
             else (
               let info' = (if riAPIPrefix info \<noteq> ''api'' then info\<lparr>riAPIGroup := hd parts\<rparr> else info);
                   parts = (if riAPIPrefix info \<noteq> ''api'' then tl parts else parts);
                   info' = info'\<lparr>riIsResourceRequest := True, riAPIVersion := hd parts\<rparr>;
                   parts = tl parts
               in if hd parts \<in> {''proxy'', ''watch''}
                  then if length parts < 2 then (info', False)
                       else (collectionVerb (hrQuery req) (readParts (tl parts) (info'\<lparr>riVerb := hd parts\<rparr>)), True)
                  else (collectionVerb (hrQuery req) (readParts parts (info'\<lparr>riVerb := verbOfMethod (hrMethod req)\<rparr>)), True))))"


section \<open>A request says which call it is\<close>

definition slashed :: "string list \<Rightarrow> string" where
  "slashed segments = concat (map (\<lambda>s. CHR ''/'' # s) segments)"

lemma slashed_simps [simp]: "slashed [] = []" "slashed (s # ss) = CHR ''/'' # s @ slashed ss"
  by (simp_all add: slashed_def)

lemma slashed_append: "slashed (xs @ ys) = slashed xs @ slashed ys"
  by (simp add: slashed_def)

lemma join_slashed: "join ''/'' (w # ws) = w @ slashed ws"
  by (induction ws arbitrary: w) simp_all

lemma pathJoin_slashed:
  "p \<noteq> [] \<Longrightarrow> pathJoin (p # ps) = p @ slashed (filter (\<lambda>s. s \<noteq> []) ps)"
  by (simp add: pathJoin_def join_slashed)

lemma pathJoin_sub:
  "filter (\<lambda>s. s \<noteq> []) ps \<noteq> [] \<Longrightarrow> CHR ''/'' # pathJoin ps = slashed (filter (\<lambda>s. s \<noteq> []) ps)"
  by (cases "filter (\<lambda>s. s \<noteq> []) ps") (simp_all add: pathJoin_def join_slashed)

lemma pathPrefix_slashed: "pathPrefix = slashed [''apis'', GroupName, GroupVersion]"
  by (simp add: pathPrefix_def pathJoin_def)

lemma splitPath_slashed:
  assumes "segments \<noteq> []" "\<forall>s\<in>set segments. s \<noteq> [] \<and> CHR ''/'' \<notin> set s"
  shows "splitPath (slashed segments) = segments"
proof -
  obtain w ws where w: "segments = w # ws" using assms(1) by (cases segments) auto
  have joined: "join ''/'' segments = w @ slashed ws" by (simp add: w join_slashed)
  obtain c cs where c: "w = c # cs" "c \<noteq> CHR ''/''" using assms(2) w by (cases w) auto
  have strip: "dropWhile (\<lambda>c. c = CHR ''/'') (slashed segments) = join ''/'' segments"
    using c by (simp add: w joined [symmetric] join_slashed)
  have ended: "\<exists>us u. w @ slashed ws = us @ [u] \<and> u \<noteq> CHR ''/''"
    if "w \<noteq> []" "CHR ''/'' \<notin> set w" "\<forall>s\<in>set ws. s \<noteq> [] \<and> CHR ''/'' \<notin> set s" for w ws
    using that
  proof (induction ws arbitrary: w)
    case Nil
    then show ?case by (cases w rule: rev_cases) auto
  next
    case (Cons v vs)
    from Cons.IH [of v] Cons.prems obtain us u where "v @ slashed vs = us @ [u]" "u \<noteq> CHR ''/''" by auto
    then show ?case by (intro exI [of _ "w @ CHR ''/'' # us"] exI [of _ u]) simp
  qed
  obtain us u where last: "w @ slashed ws = us @ [u]" "u \<noteq> CHR ''/''"
    using ended [of w ws] assms(2) w by auto
  have "rev (dropWhile (\<lambda>c. c = CHR ''/'') (rev (join ''/'' segments))) = join ''/'' segments"
    using last by (simp add: joined)
  moreover have "join ''/'' segments \<noteq> []" using last by (simp add: joined)
  ultimately show ?thesis
    using splitOn_join [of segments "CHR ''/''"] assms by (simp add: splitPath_def strip)
qed

lemma requestURL_slashed:
  assumes "rqSubresource r = pathJoin subs"
  shows "requestURL r = slashed ([''apis'', GroupName, GroupVersion] @
     (if rqNamespaceSet r \<and> rqNamespace r \<noteq> [] then [''namespaces'', rqNamespace r] else []) @
     (if rqResource r \<noteq> [] then [toLower (rqResource r)] else []) @
     (if rqResourceName r \<noteq> [] then [rqResourceName r] else []) @ filter (\<lambda>s. s \<noteq> []) subs)"
proof -
  have lower: "toLower s = [] \<longleftrightarrow> s = []" for s by (simp add: toLower_def)
  have sub: "pathJoin subs = [] \<longleftrightarrow> filter (\<lambda>s. s \<noteq> []) subs = []"
    by (cases "filter (\<lambda>s. s \<noteq> []) subs") (auto simp: pathJoin_def join_slashed filter_eq_Cons_iff)
  show ?thesis
    using pathJoin_sub [of subs]
    by (cases "filter (\<lambda>s. s \<noteq> []) subs = []"; cases "rqNamespaceSet r \<and> rqNamespace r \<noteq> []";
        cases "rqResource r = []"; cases "rqResourceName r = []")
      (simp_all add: requestURL_def Let_def assms pathPrefix_slashed pathJoin_slashed slashed_append lower sub)
qed


text \<open>What a call asks for: verb, name, subresources and the query of a list.\<close>

fun callVerb :: "clientCall \<Rightarrow> string" where
  "callVerb (GetCall n o') = ''get''"
| "callVerb (ListCall o') = (if loWatch o' then ''watch'' else ''list'')"
| "callVerb (WatchCall o') = ''watch''"
| "callVerb (CreateCall rc) = ''create''"
| "callVerb (UpdateCall rc) = ''update''"
| "callVerb (UpdateStatusCall rc) = ''update''"
| "callVerb (DeleteCall n o') = ''delete''"
| "callVerb (DeleteCollectionCall o' l) = ''deletecollection''"
| "callVerb (PatchCall n pt d subs) = ''patch''"

fun callName :: "clientCall \<Rightarrow> string" where
  "callName (GetCall n o') = n"
| "callName (UpdateCall rc) = rcName rc"
| "callName (UpdateStatusCall rc) = rcName rc"
| "callName (DeleteCall n o') = n"
| "callName (PatchCall n pt d subs) = n"
| "callName _ = []"

fun callSubresources :: "clientCall \<Rightarrow> string list" where
  "callSubresources (UpdateStatusCall rc) = [''status'']"
| "callSubresources (PatchCall n pt d subs) = filter (\<lambda>s. s \<noteq> []) subs"
| "callSubresources _ = []"

definition callParts :: "clientCall \<Rightarrow> string list" where
  "callParts call = [redisclusters] @ (if callName call = [] then [] else [callName call]) @ callSubresources call"

definition calledInfo :: "string \<Rightarrow> clientCall \<Rightarrow> RequestInfo" where
  "calledInfo ns call = \<lparr>riIsResourceRequest = True, riVerb = callVerb call, riAPIPrefix = ''apis'', riAPIGroup = GroupName,
     riAPIVersion = GroupVersion, riNamespace = ns, riResource = redisclusters,
     riSubresource = (case callSubresources call of [] \<Rightarrow> [] | s # _ \<Rightarrow> s), riName = callName call, riParts = callParts call\<rparr>"

text \<open>What is known of a request that is sent.\<close>

definition fits :: "string \<Rightarrow> clientCall \<Rightarrow> httpRequest \<Rightarrow> bool" where
  "fits ns call h \<longleftrightarrow>
     hrPath h = slashed ([''apis'', GroupName, GroupVersion] @ (if ns \<noteq> [] then [''namespaces'', ns] else []) @ callParts call) \<and>
     validSegment ns \<and> (\<forall>s\<in>set (callParts call). s \<noteq> [] \<and> validSegment s) \<and>
     (callSubresources call \<noteq> [] \<longrightarrow> callName call \<noteq> []) \<and>
     (case call of
        GetCall _ _ \<Rightarrow> hrMethod h = ''GET'' \<and> callName call \<noteq> []
      | ListCall o' \<Rightarrow> hrMethod h = ''GET'' \<and> hrQuery h = listParams o'
      | WatchCall o' \<Rightarrow> hrMethod h = ''GET'' \<and> hrQuery h = listParams (o'\<lparr>loWatch := True\<rparr>)
      | CreateCall _ \<Rightarrow> hrMethod h = ''POST''
      | UpdateCall _ \<Rightarrow> hrMethod h = ''PUT'' \<and> callName call \<noteq> []
      | UpdateStatusCall _ \<Rightarrow> hrMethod h = ''PUT'' \<and> callName call \<noteq> []
      | DeleteCall _ _ \<Rightarrow> hrMethod h = ''DELETE'' \<and> callName call \<noteq> []
      | DeleteCollectionCall _ _ \<Rightarrow> hrMethod h = ''DELETE''
      | PatchCall _ _ _ _ \<Rightarrow> hrMethod h = ''PATCH'' \<and> callName call \<noteq> [])"

lemma valid_segments [simp]: "validSegment redisclusters" "validSegment ''status''" "validSegment []"
  by (simp_all add: validSegment_def)

lemma lower_redisclusters: "toLower redisclusters = redisclusters"
  by (simp add: toLower_def)

lemma pathJoin_one: "w \<noteq> [] \<Longrightarrow> pathJoin [w] = w"
  by (simp add: pathJoin_def)

lemmas request_steps = build_def NewRequest_def reqNamespace_def reqResource_def reqName_def reqSubResource_def
  reqVersionedParams_def reqTimeout_def Let_def

lemma checkDo_sent: "checkDo r = Inr h \<Longrightarrow> rqErr r = None \<and> h = httpOf r"
  by (simp add: checkDo_def split: option.splits if_splits)

lemma checkWatch_sent: "checkWatch r = Inr h \<Longrightarrow> rqErr r = None \<and> h = httpOf r"
  by (simp add: checkWatch_def split: option.splits)

text \<open>The fields of a request that has no error, one lemma for each method.\<close>

definition targets :: "string \<Rightarrow> string \<Rightarrow> string list \<Rightarrow> Request \<Rightarrow> bool" where
  "targets ns name subs r \<longleftrightarrow> rqNamespaceSet r \<and> rqNamespace r = ns \<and> validSegment ns \<and> rqResource r = redisclusters \<and>
     rqResourceName r = name \<and> validSegment name \<and> rqSubresource r = pathJoin subs \<and> (\<forall>s\<in>set subs. validSegment s)"

lemma pathJoin_Nil [simp]: "pathJoin [] = []"
  by (simp add: pathJoin_def)

lemma body_step:
  assumes "rqErr (reqBody enc obj r) = None"
  shows "rqErr r = None" "targets ns name subs (reqBody enc obj r) = targets ns name subs r"
    "rqVerb (reqBody enc obj r) = rqVerb r"
  using assms by (auto simp: reqBody_def targets_def split: payload.splits option.splits if_splits)

text \<open>Each step keeps what the steps before have set.\<close>

lemma scope_step:
  assumes "rqErr (reqResource redisclusters (reqNamespace ns (NewRequest verb\<lparr>rqContentType := ct\<rparr>))) = None"
  shows "targets ns [] [] (reqResource redisclusters (reqNamespace ns (NewRequest verb\<lparr>rqContentType := ct\<rparr>)))"
    "rqVerb (reqResource redisclusters (reqNamespace ns (NewRequest verb\<lparr>rqContentType := ct\<rparr>))) = verb"
  using assms by (simp_all add: NewRequest_def reqNamespace_def reqResource_def targets_def split: if_splits)

lemma name_step:
  assumes "rqErr (reqName name r) = None"
  shows "rqErr r = None" "name \<noteq> []" "rqVerb (reqName name r) = rqVerb r"
    "targets ns [] subs r \<Longrightarrow> targets ns name subs (reqName name r)"
  using assms by (simp_all add: reqName_def targets_def split: if_splits)

lemma subresource_step:
  assumes "rqErr (reqSubResource subs r) = None"
  shows "rqErr r = None" "rqVerb (reqSubResource subs r) = rqVerb r"
    "targets ns name [] r \<Longrightarrow> targets ns name subs (reqSubResource subs r)"
proof -
  have err: "rqErr r = None" using assms by (simp add: reqSubResource_def split: if_splits)
  have empty: "rqSubresource r = []" using assms err by (simp add: reqSubResource_def split: if_splits)
  have all: "find (\<lambda>s. \<not> validSegment s) subs = None"
    using assms err empty by (simp add: reqSubResource_def split: option.splits)
  have step: "reqSubResource subs r = r\<lparr>rqSubresource := pathJoin subs\<rparr>"
    using err empty all by (simp add: reqSubResource_def)
  show "rqErr r = None" by (rule err)
  show "rqVerb (reqSubResource subs r) = rqVerb r" by (simp add: step)
  show "targets ns name [] r \<Longrightarrow> targets ns name subs (reqSubResource subs r)"
    using all by (simp add: step targets_def find_None_iff)
qed

lemma get_built:
  "rqErr (getRequest ns name o') = None \<Longrightarrow>
     targets ns name [] (getRequest ns name o') \<and> name \<noteq> [] \<and> rqVerb (getRequest ns name o') = ''GET''"
  by (simp add: getRequest_def request_steps targets_def split: if_splits)

lemma list_built:
  "rqErr (listRequest ns o') = None \<Longrightarrow>
     targets ns [] [] (listRequest ns o') \<and> rqVerb (listRequest ns o') = ''GET'' \<and> rqParams (listRequest ns o') = listParams o'"
  by (simp add: listRequest_def request_steps targets_def split: if_splits)

lemma watch_built:
  "rqErr (watchRequest ns o') = None \<Longrightarrow>
     targets ns [] [] (watchRequest ns o') \<and> rqVerb (watchRequest ns o') = ''GET'' \<and>
     rqParams (watchRequest ns o') = listParams (o'\<lparr>loWatch := True\<rparr>)"
  by (simp add: watchRequest_def request_steps targets_def split: if_splits)

lemma create_built:
  "rqErr (createRequest enc ns rc) = None \<Longrightarrow>
     targets ns [] [] (createRequest enc ns rc) \<and> rqVerb (createRequest enc ns rc) = ''POST''"
  by (simp add: createRequest_def build_def body_step, drule body_step(1))
    (simp add: request_steps targets_def split: if_splits option.splits)

lemma update_built:
  "rqErr (updateRequest enc ns rc) = None \<Longrightarrow>
     targets ns (rcName rc) [] (updateRequest enc ns rc) \<and> rcName rc \<noteq> [] \<and> rqVerb (updateRequest enc ns rc) = ''PUT''"
  by (simp add: updateRequest_def build_def body_step, drule body_step(1))
    (simp add: request_steps targets_def split: if_splits option.splits)

lemma updateStatus_built:
  "rqErr (updateStatusRequest enc ns rc) = None \<Longrightarrow>
     targets ns (rcName rc) [''status''] (updateStatusRequest enc ns rc) \<and> rcName rc \<noteq> [] \<and>
     rqVerb (updateStatusRequest enc ns rc) = ''PUT''"
  by (simp add: updateStatusRequest_def build_def body_step, drule body_step(1))
    (simp add: request_steps targets_def pathJoin_one split: if_splits option.splits)

lemma delete_built:
  "rqErr (deleteRequest enc ns name o') = None \<Longrightarrow>
     targets ns name [] (deleteRequest enc ns name o') \<and> name \<noteq> [] \<and> rqVerb (deleteRequest enc ns name o') = ''DELETE''"
  by (simp add: deleteRequest_def build_def body_step, drule body_step(1))
    (simp add: request_steps targets_def split: if_splits option.splits)

lemma deleteCollection_built:
  "rqErr (deleteCollectionRequest enc ns o' l) = None \<Longrightarrow>
     targets ns [] [] (deleteCollectionRequest enc ns o' l) \<and> rqVerb (deleteCollectionRequest enc ns o' l) = ''DELETE''"
  by (simp add: deleteCollectionRequest_def build_def body_step, drule body_step(1))
    (simp add: request_steps targets_def split: if_splits option.splits)

lemma patch_built:
  assumes "rqErr (patchRequest enc ns name pt d subs) = None"
  shows "targets ns name subs (patchRequest enc ns name pt d subs) \<and> name \<noteq> [] \<and>
     rqVerb (patchRequest enc ns name pt d subs) = ''PATCH''"
proof -
  let ?scope = "reqResource redisclusters (reqNamespace ns (NewRequest ''PATCH''\<lparr>rqContentType := pt\<rparr>))"
  have built: "patchRequest enc ns name pt d subs = reqBody enc (Bytes d) (reqName name (reqSubResource subs ?scope))"
    by (simp add: patchRequest_def build_def)
  note body = body_step [OF assms [unfolded built]]
  note named = name_step [OF body(1)]
  note sub = subresource_step [OF named(1)]
  show ?thesis
    unfolding built body using named sub scope_step [OF sub(1)] by simp
qed


lemma targets_URL:
  assumes "targets ns name subs r"
  shows "requestURL r = slashed ([''apis'', GroupName, GroupVersion] @ (if ns \<noteq> [] then [''namespaces'', ns] else []) @
     [redisclusters] @ (if name = [] then [] else [name]) @ filter (\<lambda>s. s \<noteq> []) subs)"
  using assms requestURL_slashed [of r subs] lower_redisclusters by (simp add: targets_def)

lemma sent_fits:
  assumes "sent enc ns call = Inr h"
  shows "fits ns call h"
proof (cases call)
  case (GetCall n o')
  then show ?thesis using assms get_built [of ns n o'] targets_URL [of ns n "[]" "getRequest ns n o'"]
    by (auto dest!: checkDo_sent simp: fits_def callParts_def httpOf_def targets_def)
next
  case (ListCall o')
  then show ?thesis using assms list_built [of ns o'] targets_URL [of ns "[]" "[]" "listRequest ns o'"]
    by (auto dest!: checkDo_sent simp: fits_def callParts_def httpOf_def targets_def)
next
  case (WatchCall o')
  then show ?thesis using assms watch_built [of ns o'] targets_URL [of ns "[]" "[]" "watchRequest ns o'"]
    by (auto dest!: checkWatch_sent simp: fits_def callParts_def httpOf_def targets_def)
next
  case (CreateCall rc)
  then show ?thesis using assms create_built [of enc ns rc] targets_URL [of ns "[]" "[]" "createRequest enc ns rc"]
    by (auto dest!: checkDo_sent simp: fits_def callParts_def httpOf_def targets_def)
next
  case (UpdateCall rc)
  then show ?thesis using assms update_built [of enc ns rc] targets_URL [of ns "rcName rc" "[]" "updateRequest enc ns rc"]
    by (auto dest!: checkDo_sent simp: fits_def callParts_def httpOf_def targets_def)
next
  case (UpdateStatusCall rc)
  then show ?thesis
    using assms updateStatus_built [of enc ns rc] targets_URL [of ns "rcName rc" "[''status'']" "updateStatusRequest enc ns rc"]
    by (auto dest!: checkDo_sent simp: fits_def callParts_def httpOf_def targets_def)
next
  case (DeleteCall n o')
  then show ?thesis using assms delete_built [of enc ns n o'] targets_URL [of ns n "[]" "deleteRequest enc ns n o'"]
    by (auto dest!: checkDo_sent simp: fits_def callParts_def httpOf_def targets_def)
next
  case (DeleteCollectionCall o' l)
  then show ?thesis
    using assms deleteCollection_built [of enc ns o' l] targets_URL [of ns "[]" "[]" "deleteCollectionRequest enc ns o' l"]
    by (auto dest!: checkDo_sent simp: fits_def callParts_def httpOf_def targets_def)
next
  case (PatchCall n pt d subs)
  then show ?thesis
    using assms patch_built [of enc ns n pt d subs] targets_URL [of ns n subs "patchRequest enc ns n pt d subs"]
    by (auto dest!: checkDo_sent simp: fits_def callParts_def httpOf_def targets_def)
qed

lemma find_watch:
  "find (\<lambda>(k, v). k = ''watch'') (listParams o') = (if loWatch o' then Some (''watch'', ''true'') else None)"
proof -
  have none: "find (\<lambda>(k, v). k = ''watch'') q = None" if "''watch'' \<notin> fst ` set q" for q :: query
    using that by (induction q) (auto split: prod.splits)
  have app: "find P (xs @ ys) = (case find P xs of None \<Rightarrow> find P ys | Some y \<Rightarrow> Some y)" for P xs and ys :: query
    by (induction xs) auto
  show ?thesis
    by (simp add: listParams_def app stringParam_def boolParam_def intParam_def none split: option.splits)
qed

lemma sent_read_back:
  assumes "sent enc ns call = Inr h"
  shows "NewRequestInfo h = (calledInfo ns call, True)"
proof -
  let ?scope = "if ns \<noteq> [] then [''namespaces'', ns] else []"
  note fit = sent_fits [OF assms, unfolded fits_def]
  have path: "hrPath h = slashed ([''apis'', GroupName, GroupVersion] @ ?scope @ callParts call)"
    and ns: "validSegment ns" and segs: "\<forall>s\<in>set (callParts call). s \<noteq> [] \<and> validSegment s"
    using fit by blast+
  have named: "callSubresources call \<noteq> [] \<Longrightarrow> callName call \<noteq> []" using fit by blast
  have slash: "validSegment s \<Longrightarrow> CHR ''/'' \<notin> set s" for s by (simp add: validSegment_def)
  have front: "\<forall>s\<in>set [''apis'', GroupName, GroupVersion]. s \<noteq> [] \<and> CHR ''/'' \<notin> set s" by simp
  have scope: "\<forall>s\<in>set ?scope. s \<noteq> [] \<and> CHR ''/'' \<notin> set s"
    using slash [OF ns] by (cases "ns = []") simp_all
  have below: "\<forall>s\<in>set (callParts call). s \<noteq> [] \<and> CHR ''/'' \<notin> set s"
    using segs slash by (rule_tac ballI) (drule (1) bspec, simp)
  have "\<forall>s\<in>set ([''apis'', GroupName, GroupVersion] @ ?scope @ callParts call). s \<noteq> [] \<and> CHR ''/'' \<notin> set s"
    unfolding set_append ball_Un by (intro conjI front scope below)
  then have parts: "splitPath (hrPath h) = [''apis'', GroupName, GroupVersion] @ ?scope @ callParts call"
    unfolding path by (rule splitPath_slashed [rotated]) simp
  have read: "readParts (?scope @ callParts call) info =
      info\<lparr>riNamespace := ns, riParts := callParts call,
        riSubresource := (case callSubresources call of [] \<Rightarrow> riSubresource info | s # _ \<Rightarrow> s),
        riName := (if callName call = [] then riName info else callName call), riResource := redisclusters\<rparr>"
    if "riVerb info \<noteq> ''proxy''" for info
    using that named by (cases "ns = []"; cases "callName call = []")
      (auto simp: readParts_def callParts_def split: list.splits)
  have info: "NewRequestInfo h = (collectionVerb (hrQuery h) (readParts (?scope @ callParts call)
      \<lparr>riIsResourceRequest = True, riVerb = verbOfMethod (hrMethod h), riAPIPrefix = ''apis'', riAPIGroup = GroupName,
       riAPIVersion = GroupVersion, riNamespace = [], riResource = [], riSubresource = [], riName = [], riParts = []\<rparr>), True)"
    by (cases "ns = []") (simp_all add: NewRequestInfo_def parts callParts_def)
  have verb: "verbOfMethod (hrMethod h) \<noteq> ''proxy''"
    by (simp add: verbOfMethod_def)
  have "NewRequestInfo h = (collectionVerb (hrQuery h)
      \<lparr>riIsResourceRequest = True, riVerb = verbOfMethod (hrMethod h), riAPIPrefix = ''apis'', riAPIGroup = GroupName,
       riAPIVersion = GroupVersion, riNamespace = ns, riResource = redisclusters,
       riSubresource = (case callSubresources call of [] \<Rightarrow> [] | s # _ \<Rightarrow> s), riName = callName call,
       riParts = callParts call\<rparr>, True)"
    unfolding info by (subst read) (simp_all add: verb cong: list.case_cong)
  then show ?thesis
    using fit by (cases call) (simp_all add: collectionVerb_def calledInfo_def verbOfMethod_def find_watch toLower_def)
qed


text \<open>
  C20: what the client sends is what the server understands. Whenever a call of the client for RedisClusters
  gets as far as the wire, the server reads out of method, path and query exactly that call: its verb (a
  list asked to watch counts as a watch), group, version, namespace, resource, name and first
  subresource. A name or a namespace that would change the meaning of the path never gets there.
\<close>

theorem request_read_back:
  assumes "sent enc ns call = Inr h"
  shows "NewRequestInfo h = (calledInfo ns call, True)"
  by (rule sent_read_back [OF assms])

lemma sent_example:
  "\<exists>h. sent (\<lambda>_. None) ''ns'' (PatchCall ''r'' ''application/merge-patch+json'' ''{}'' [''status'']) = Inr h"
  by (simp add: patchRequest_def request_steps reqBody_def checkDo_def validSegment_def pathJoin_def)

theorem request_read_back_witness:
  "\<exists>h. riSubresource (fst (NewRequestInfo h)) = ''status'' \<and> riNamespace (fst (NewRequestInfo h)) = ''ns''"
proof -
  obtain h where "sent (\<lambda>_. None) ''ns'' (PatchCall ''r'' ''application/merge-patch+json'' ''{}'' [''status'']) = Inr h"
    using sent_example by blast
  from request_read_back [OF this] show ?thesis by (intro exI [of _ h]) (simp add: calledInfo_def)
qed

section \<open>The methods of the client\<close>

text \<open>The object a method decodes its reply into.\<close>

definition emptyCluster :: RedisCluster where
  "emptyCluster = \<lparr>rcName = [], rcNamespace = [], rcUID = [], rcResourceVersion = [],
     rcSpec = \<lparr>spReplicas = None, spPause = False, spFinalizers = [], spRepository = [], spVersion = [],
       spUpdateStrategy = \<lparr>usType = [], usPipeline = [], usAssignStrategies = []\<rparr>, spPod = []\<rparr>,
     rcStatus = zeroStatus\<rparr>"

record 'w wire =
  wrEncode :: "payload \<Rightarrow> string option"
  wrCluster :: "httpRequest \<Rightarrow> RedisCluster \<Rightarrow> RedisCluster \<times> clientError option"
  wrList :: "httpRequest \<Rightarrow> RedisCluster list \<Rightarrow> RedisCluster list \<times> clientError option"
  wrError :: "httpRequest \<Rightarrow> clientError option"
  wrWatch :: "httpRequest \<Rightarrow> 'w option \<times> clientError option"

definition clientGet :: "'w wire \<Rightarrow> string \<Rightarrow> string \<Rightarrow> GetOptions \<Rightarrow> RedisCluster \<times> clientError option" where
  "clientGet w ns name options = doInto (wrCluster w) emptyCluster (getRequest ns name options)"

definition clientList :: "'w wire \<Rightarrow> string \<Rightarrow> ListOptions \<Rightarrow> RedisCluster list \<times> clientError option" where
  "clientList w ns opts = doInto (wrList w) [] (listRequest ns opts)"

definition clientWatch :: "'w wire \<Rightarrow> string \<Rightarrow> ListOptions \<Rightarrow> 'w option \<times> clientError option" where
  "clientWatch w ns opts = doWatch (wrWatch w) (watchRequest ns opts)"

definition clientCreate :: "'w wire \<Rightarrow> string \<Rightarrow> RedisCluster \<Rightarrow> RedisCluster \<times> clientError option" where
  "clientCreate w ns rc = doInto (wrCluster w) emptyCluster (createRequest (wrEncode w) ns rc)"

definition clientUpdate :: "'w wire \<Rightarrow> string \<Rightarrow> RedisCluster \<Rightarrow> RedisCluster \<times> clientError option" where
  "clientUpdate w ns rc = doInto (wrCluster w) emptyCluster (updateRequest (wrEncode w) ns rc)"

definition clientUpdateStatus :: "'w wire \<Rightarrow> string \<Rightarrow> RedisCluster \<Rightarrow> RedisCluster \<times> clientError option" where
  "clientUpdateStatus w ns rc = doInto (wrCluster w) emptyCluster (updateStatusRequest (wrEncode w) ns rc)"

definition clientDelete :: "'w wire \<Rightarrow> string \<Rightarrow> string \<Rightarrow> opaque option \<Rightarrow> clientError option" where
  "clientDelete w ns name options = doError (wrError w) (deleteRequest (wrEncode w) ns name options)"

definition clientDeleteCollection ::
    "'w wire \<Rightarrow> string \<Rightarrow> opaque option \<Rightarrow> ListOptions \<Rightarrow> clientError option" where
  "clientDeleteCollection w ns options listOptions =
     doError (wrError w) (deleteCollectionRequest (wrEncode w) ns options listOptions)"

definition clientPatch ::
    "'w wire \<Rightarrow> string \<Rightarrow> string \<Rightarrow> string \<Rightarrow> string \<Rightarrow> string list \<Rightarrow> RedisCluster \<times> clientError option" where
  "clientPatch w ns name pt data subresources =
     doInto (wrCluster w) emptyCluster (patchRequest (wrEncode w) ns name pt data subresources)"

text \<open>
  The methods that take a name never reach the wire without one, and those that read, change or delete one
  resource never without a namespace.
\<close>

lemma no_name_no_request:
  "sent enc ns call \<noteq> Inr h" if "case call of GetCall n _ \<Rightarrow> n = [] | UpdateCall rc \<Rightarrow> rcName rc = [] | UpdateStatusCall rc \<Rightarrow> rcName rc = []
     | DeleteCall n _ \<Rightarrow> n = [] | PatchCall n _ _ _ \<Rightarrow> n = [] | _ \<Rightarrow> False"
proof
  assume "sent enc ns call = Inr h"
  from sent_fits [OF this] that show False
    by (cases call) (simp_all add: fits_def)
qed

end
