(* ===== verification/FakeClient.thy ===== *)
theory FakeClient
  imports ClusterClient
begin

text \<open>
  The fake client for tests (\<^verbatim>\<open>fake/fake_rediscluster.go\<close>) with the actions it records
  (\<^verbatim>\<open>client-go/testing/actions.go\<close>) and the chain of reactors behind it
  (\<^verbatim>\<open>client-go/testing/fake.go\<close>). Reactors have a state of their own; the parsing of
  selectors and the labels of a resource are parameters.
\<close>

section \<open>Actions and reactors\<close>

record fakeAction =
  faVerb :: string
  faGroup :: string
  faVersion :: string
  faResource :: string
  faSubresource :: string
  faNamespace :: string
  faName :: string
  faObject :: "RedisCluster option"
  faPatch :: string
  faLabels :: string
  faFields :: string
  faResourceVersion :: string

datatype fakeObject = ClusterObj RedisCluster | ListObj "RedisCluster list" | OtherObj opaque

type_synonym 'r reply = "bool \<times> 'r option \<times> clientError option"

record ('w, 's) fakeClient =
  fkActions :: "fakeAction list"
  fkReactionChain :: "((fakeAction \<Rightarrow> bool) \<times> (fakeAction \<Rightarrow> 's \<Rightarrow> fakeObject reply \<times> 's)) list"
  fkWatchReactionChain :: "((fakeAction \<Rightarrow> bool) \<times> (fakeAction \<Rightarrow> 's \<Rightarrow> 'w reply \<times> 's)) list"
  fkState :: 's

fun react :: "((fakeAction \<Rightarrow> bool) \<times> (fakeAction \<Rightarrow> 's \<Rightarrow> 'r reply \<times> 's)) list \<Rightarrow> fakeAction \<Rightarrow>
    ('r option \<times> clientError option) \<Rightarrow> 's \<Rightarrow> ('r option \<times> clientError option) \<times> 's" where
  "react [] action unhandled s = (unhandled, s)"
| "react ((handles, reaction) # chain) action unhandled s =
     (if \<not> handles action then react chain action unhandled s
      else
        (case reaction action s of
           ((True, obj, err), s') \<Rightarrow> ((obj, err), s')
         | ((False, _, _), s') \<Rightarrow> react chain action unhandled s'))"

definition Invokes :: "fakeAction \<Rightarrow> fakeObject \<Rightarrow> ('w, 's) fakeClient \<Rightarrow>
    (fakeObject option \<times> clientError option) \<times> ('w, 's) fakeClient" where
  "Invokes action defaultReturnObj f =
     (case react (fkReactionChain f) action (Some defaultReturnObj, None) (fkState f) of
        (r, s) \<Rightarrow> (r, f\<lparr>fkActions := fkActions f @ [action], fkState := s\<rparr>))"

definition InvokesWatch :: "fakeAction \<Rightarrow> ('w, 's) fakeClient \<Rightarrow>
    ('w option \<times> clientError option) \<times> ('w, 's) fakeClient" where
  "InvokesWatch action f =
     (case react (fkWatchReactionChain f) action (None, Some (Remote (Err ''unhandled watch''))) (fkState f) of
        (r, s) \<Rightarrow> (r, f\<lparr>fkActions := fkActions f @ [action], fkState := s\<rparr>))"

text \<open>The resource the fake names in its actions.\<close>

abbreviation fakeGroup :: string where "fakeGroup \<equiv> ''cr.example.apiextensions.k8s.io''"

definition newAction :: "string \<Rightarrow> string \<Rightarrow> fakeAction" where
  "newAction verb ns = \<lparr>faVerb = verb, faGroup = fakeGroup, faVersion = ''v1alpha1'', faResource = redisclusters,
     faSubresource = [], faNamespace = ns, faName = [], faObject = None, faPatch = [], faLabels = [], faFields = [],
     faResourceVersion = []\<rparr>"

text \<open>
  \<open>ExtractFromListOptions\<close> parses both selectors and panics when one does not parse; a selector is kept
  as its text.
\<close>

record selectors =
  slLabels :: "string \<Rightarrow> (stringMap \<Rightarrow> bool) option"
  slFields :: "string \<Rightarrow> bool"
  slLabelsOf :: "RedisCluster \<Rightarrow> stringMap"

definition ExtractFromListOptions :: "selectors \<Rightarrow> ListOptions \<Rightarrow> ((stringMap \<Rightarrow> bool) \<times> string \<times> string \<times> string) outcome" where
  "ExtractFromListOptions sl opts =
     (case slLabels sl (loLabelSelector opts) of
        None \<Rightarrow> Panic
      | Some matches \<Rightarrow>
          if \<not> slFields sl (loFieldSelector opts) then Panic
          else Ret (matches, loLabelSelector opts, loFieldSelector opts, loResourceVersion opts))"

definition NewGetAction :: "string \<Rightarrow> string \<Rightarrow> fakeAction" where
  "NewGetAction ns name = newAction ''get'' ns\<lparr>faName := name\<rparr>"

definition NewListAction :: "selectors \<Rightarrow> string \<Rightarrow> ListOptions \<Rightarrow> fakeAction outcome" where
  "NewListAction sl ns opts = obnd (ExtractFromListOptions sl opts) (\<lambda>(_, labels, fields, _).
     Ret (newAction ''list'' ns\<lparr>faLabels := labels, faFields := fields\<rparr>))"

definition NewWatchAction :: "selectors \<Rightarrow> string \<Rightarrow> ListOptions \<Rightarrow> fakeAction outcome" where
  "NewWatchAction sl ns opts = obnd (ExtractFromListOptions sl opts) (\<lambda>(_, labels, fields, rv).
     Ret (newAction ''watch'' ns\<lparr>faLabels := labels, faFields := fields, faResourceVersion := rv\<rparr>))"

definition NewCreateAction :: "string \<Rightarrow> RedisCluster \<Rightarrow> fakeAction" where
  "NewCreateAction ns rc = newAction ''create'' ns\<lparr>faObject := Some rc\<rparr>"

definition NewUpdateAction :: "string \<Rightarrow> RedisCluster \<Rightarrow> fakeAction" where
  "NewUpdateAction ns rc = newAction ''update'' ns\<lparr>faObject := Some rc\<rparr>"

definition NewUpdateSubresourceAction :: "string \<Rightarrow> string \<Rightarrow> RedisCluster \<Rightarrow> fakeAction" where
  "NewUpdateSubresourceAction subresource ns rc = newAction ''update'' ns\<lparr>faSubresource := subresource, faObject := Some rc\<rparr>"

definition NewDeleteAction :: "string \<Rightarrow> string \<Rightarrow> fakeAction" where
  "NewDeleteAction ns name = newAction ''delete'' ns\<lparr>faName := name\<rparr>"

definition NewDeleteCollectionAction :: "selectors \<Rightarrow> string \<Rightarrow> ListOptions \<Rightarrow> fakeAction outcome" where
  "NewDeleteCollectionAction sl ns opts = obnd (ExtractFromListOptions sl opts) (\<lambda>(_, labels, fields, _).
     Ret (newAction ''delete-collection'' ns\<lparr>faLabels := labels, faFields := fields\<rparr>))"

definition NewPatchSubresourceAction :: "string \<Rightarrow> string \<Rightarrow> string \<Rightarrow> string list \<Rightarrow> fakeAction" where
  "NewPatchSubresourceAction ns name data subresources =
     newAction ''patch'' ns\<lparr>faSubresource := pathJoin subresources, faName := name, faPatch := data\<rparr>"

section \<open>The methods of the fake\<close>

text \<open>A nil object is returned as it is; another type of object than the method's panics.\<close>

definition asCluster :: "fakeObject option \<times> clientError option \<Rightarrow> (RedisCluster option \<times> clientError option) outcome" where
  "asCluster r =
     (case r of
        (None, err) \<Rightarrow> Ret (None, err)
      | (Some (ClusterObj rc), err) \<Rightarrow> Ret (Some rc, err)
      | _ \<Rightarrow> Panic)"

type_synonym ('a, 'w, 's) fakeOp = "('w, 's) fakeClient \<Rightarrow> 'a outcome \<times> ('w, 's) fakeClient"

definition invokeCluster :: "fakeAction \<Rightarrow> (RedisCluster option \<times> clientError option, 'w, 's) fakeOp" where
  "invokeCluster action f = (case Invokes action (ClusterObj emptyCluster) f of (r, f') \<Rightarrow> (asCluster r, f'))"

definition fakeGet :: "string \<Rightarrow> string \<Rightarrow> (RedisCluster option \<times> clientError option, 'w, 's) fakeOp" where
  "fakeGet ns name = invokeCluster (NewGetAction ns name)"

definition fakeList :: "selectors \<Rightarrow> string \<Rightarrow> ListOptions \<Rightarrow>
    (RedisCluster list option \<times> clientError option, 'w, 's) fakeOp" where
  "fakeList sl ns opts f =
     (case NewListAction sl ns opts of
        Ret action \<Rightarrow>
          (case Invokes action (ListObj []) f of
             ((None, err), f') \<Rightarrow> (Ret (None, err), f')
           | ((Some (ListObj items), err), f') \<Rightarrow>
               (obnd (ExtractFromListOptions sl opts) (\<lambda>(matches, _).
                  Ret (Some (filter (\<lambda>item. matches (slLabelsOf sl item)) items), err)), f')
           | (_, f') \<Rightarrow> (Panic, f'))
      | _ \<Rightarrow> (Panic, f))"

definition fakeWatch :: "selectors \<Rightarrow> string \<Rightarrow> ListOptions \<Rightarrow> ('w option \<times> clientError option, 'w, 's) fakeOp" where
  "fakeWatch sl ns opts f =
     (case NewWatchAction sl ns opts of
        Ret action \<Rightarrow> (case InvokesWatch action f of (r, f') \<Rightarrow> (Ret r, f'))
      | _ \<Rightarrow> (Panic, f))"

definition fakeCreate :: "string \<Rightarrow> RedisCluster \<Rightarrow> (RedisCluster option \<times> clientError option, 'w, 's) fakeOp" where
  "fakeCreate ns rc = invokeCluster (NewCreateAction ns rc)"

definition fakeUpdate :: "string \<Rightarrow> RedisCluster \<Rightarrow> (RedisCluster option \<times> clientError option, 'w, 's) fakeOp" where
  "fakeUpdate ns rc = invokeCluster (NewUpdateAction ns rc)"

definition fakeUpdateStatus :: "string \<Rightarrow> RedisCluster \<Rightarrow> (RedisCluster option \<times> clientError option, 'w, 's) fakeOp" where
  "fakeUpdateStatus ns rc = invokeCluster (NewUpdateSubresourceAction ''status'' ns rc)"

definition fakeDelete :: "string \<Rightarrow> string \<Rightarrow> (clientError option, 'w, 's) fakeOp" where
  "fakeDelete ns name f =
     (case Invokes (NewDeleteAction ns name) (ClusterObj emptyCluster) f of ((_, err), f') \<Rightarrow> (Ret err, f'))"

definition fakeDeleteCollection :: "selectors \<Rightarrow> string \<Rightarrow> ListOptions \<Rightarrow> (clientError option, 'w, 's) fakeOp" where
  "fakeDeleteCollection sl ns listOptions f =
     (case NewDeleteCollectionAction sl ns listOptions of
        Ret action \<Rightarrow> (case Invokes action (ListObj []) f of ((_, err), f') \<Rightarrow> (Ret err, f'))
      | _ \<Rightarrow> (Panic, f))"

definition fakePatch :: "string \<Rightarrow> string \<Rightarrow> string \<Rightarrow> string list \<Rightarrow>
    (RedisCluster option \<times> clientError option, 'w, 's) fakeOp" where
  "fakePatch ns name data subresources = invokeCluster (NewPatchSubresourceAction ns name data subresources)"

text \<open>What a call leaves in the fake.\<close>

fun fakeAfter :: "selectors \<Rightarrow> string \<Rightarrow> clientCall \<Rightarrow> ('w, 's) fakeClient \<Rightarrow> ('w, 's) fakeClient" where
  "fakeAfter sl ns (GetCall name o') f = snd (fakeGet ns name f)"
| "fakeAfter sl ns (ListCall o') f = snd (fakeList sl ns o' f)"
| "fakeAfter sl ns (WatchCall o') f = snd (fakeWatch sl ns o' f)"
| "fakeAfter sl ns (CreateCall rc) f = snd (fakeCreate ns rc f)"
| "fakeAfter sl ns (UpdateCall rc) f = snd (fakeUpdate ns rc f)"
| "fakeAfter sl ns (UpdateStatusCall rc) f = snd (fakeUpdateStatus ns rc f)"
| "fakeAfter sl ns (DeleteCall name o') f = snd (fakeDelete ns name f)"
| "fakeAfter sl ns (DeleteCollectionCall o' l) f = snd (fakeDeleteCollection sl ns l f)"
| "fakeAfter sl ns (PatchCall name pt d subs) f = snd (fakePatch ns name d subs f)"


section \<open>The fake and the client\<close>

text \<open>The name an action is about: its own, or that of the object of an update.\<close>

definition actionName :: "fakeAction \<Rightarrow> string" where
  "actionName a =
     (if faVerb a = ''update'' then (case faObject a of Some rc \<Rightarrow> rcName rc | None \<Rightarrow> []) else faName a)"

definition agrees :: "RequestInfo \<Rightarrow> fakeAction \<Rightarrow> bool" where
  "agrees info a \<longleftrightarrow>
     faVerb a = (if riVerb info = ''deletecollection'' then ''delete-collection'' else riVerb info) \<and>
     faVersion a = riAPIVersion info \<and> faResource a = riResource info \<and> faNamespace a = riNamespace info \<and>
     faSubresource a = riSubresource info \<and> actionName a = riName info"

lemma invoke_recorded:
  "fkActions (snd (Invokes a d f)) = fkActions f @ [a]" "fkActions (snd (InvokesWatch a f)) = fkActions f @ [a]"
  "fkActions (snd (invokeCluster a f)) = fkActions f @ [a]"
  by (simp_all add: Invokes_def InvokesWatch_def invokeCluster_def split: prod.splits)

lemma list_recorded:
  "NewListAction sl ns o' = Ret a \<Longrightarrow> fkActions (snd (fakeList sl ns o' f)) = fkActions f @ [a]"
  "NewWatchAction sl ns o' = Ret a \<Longrightarrow> fkActions (snd (fakeWatch sl ns o' f)) = fkActions f @ [a]"
  "NewDeleteCollectionAction sl ns o' = Ret a \<Longrightarrow> fkActions (snd (fakeDeleteCollection sl ns o' f)) = fkActions f @ [a]"
  using invoke_recorded(1) [of a "ListObj []" f] invoke_recorded(2) [of a f]
  by (auto simp: fakeList_def fakeWatch_def fakeDeleteCollection_def split: prod.splits option.splits fakeObject.splits)

lemma delete_recorded: "fkActions (snd (fakeDelete ns name f)) = fkActions f @ [NewDeleteAction ns name]"
  using invoke_recorded(1) [of "NewDeleteAction ns name" "ClusterObj emptyCluster" f]
  by (auto simp: fakeDelete_def split: prod.splits)

lemma extracted:
  assumes "slLabels sl (loLabelSelector o') \<noteq> None" "slFields sl (loFieldSelector o')"
  shows "ExtractFromListOptions sl o' =
     Ret (the (slLabels sl (loLabelSelector o')), loLabelSelector o', loFieldSelector o', loResourceVersion o')"
  using assms by (auto simp: ExtractFromListOptions_def)

lemma pathJoin_single:
  assumes "length (filter (\<lambda>s. s \<noteq> []) subs) \<le> 1"
  shows "pathJoin subs = (case filter (\<lambda>s. s \<noteq> []) subs of [] \<Rightarrow> [] | s # _ \<Rightarrow> s)"
  using assms by (cases "filter (\<lambda>s. s \<noteq> []) subs") (simp_all add: pathJoin_def)

text \<open>
  C35: the fake records what the client would have sent. When a call of the client reaches the wire and the
  selectors parse, the same call on the fake records one action that names the same verb, version,
  resource, namespace, subresource and name as the server would read; a list that asks to watch and a
  patch of nested subresources are left out. But the API group of every action is another one than the
  group the client talks to.
\<close>

theorem fake_agrees:
  assumes "sent enc ns call = Inr h"
    and "\<forall>t. slLabels sl t \<noteq> None" "\<forall>t. slFields sl t"
    and "length (callSubresources call) \<le> 1"
    and "\<forall>o'. call = ListCall o' \<longrightarrow> \<not> loWatch o'"
  shows "\<exists>a. fkActions (fakeAfter sl ns call f) = fkActions f @ [a] \<and> agrees (fst (NewRequestInfo h)) a \<and>
     riAPIGroup (fst (NewRequestInfo h)) = GroupName \<and> faGroup a = fakeGroup"
proof -
  have info: "fst (NewRequestInfo h) = calledInfo ns call" using sent_read_back [OF assms(1)] by simp
  have parsed: "ExtractFromListOptions sl o' =
      Ret (the (slLabels sl (loLabelSelector o')), loLabelSelector o', loFieldSelector o', loResourceVersion o')" for o'
    using assms(2,3) by (intro extracted) simp_all
  note facts = info agrees_def calledInfo_def actionName_def newAction_def
  show ?thesis
  proof (cases call)
    case (GetCall n o')
    then show ?thesis by (simp add: facts fakeGet_def invoke_recorded NewGetAction_def)
  next
    case (ListCall o')
    then show ?thesis using assms(5) list_recorded(1) [of sl ns o' _ f] by (simp add: facts NewListAction_def parsed)
  next
    case (WatchCall o')
    then show ?thesis using list_recorded(2) [of sl ns o' _ f] by (simp add: facts NewWatchAction_def parsed)
  next
    case (CreateCall rc)
    then show ?thesis by (simp add: facts fakeCreate_def invoke_recorded NewCreateAction_def)
  next
    case (UpdateCall rc)
    then show ?thesis by (simp add: facts fakeUpdate_def invoke_recorded NewUpdateAction_def)
  next
    case (UpdateStatusCall rc)
    then show ?thesis by (simp add: facts fakeUpdateStatus_def invoke_recorded NewUpdateSubresourceAction_def)
  next
    case (DeleteCall n o')
    then show ?thesis by (simp add: facts delete_recorded NewDeleteAction_def)
  next
    case (DeleteCollectionCall o' l)
    then show ?thesis using list_recorded(3) [of sl ns l _ f] by (simp add: facts NewDeleteCollectionAction_def parsed)
  next
    case (PatchCall n pt d subs)
    then show ?thesis
      using assms(4) pathJoin_single [of subs] by (simp add: facts fakePatch_def invoke_recorded NewPatchSubresourceAction_def)
  qed
qed

definition noSelectors :: selectors where
  "noSelectors = \<lparr>slLabels = (\<lambda>_. Some (\<lambda>_. True)), slFields = (\<lambda>_. True), slLabelsOf = (\<lambda>_. Map.empty)\<rparr>"

definition freshFake :: "(unit, unit) fakeClient" where
  "freshFake = \<lparr>fkActions = [], fkReactionChain = [], fkWatchReactionChain = [], fkState = ()\<rparr>"

theorem fake_agrees_witness:
  "\<exists>h a. fkActions (fakeAfter noSelectors ''ns'' (PatchCall ''r'' ''application/merge-patch+json'' ''{}'' [''status'']) freshFake) = [a] \<and>
     agrees (fst (NewRequestInfo h)) a"
proof -
  obtain h where sent: "sent (\<lambda>_. None) ''ns'' (PatchCall ''r'' ''application/merge-patch+json'' ''{}'' [''status'']) = Inr h"
    using sent_example by blast
  show ?thesis
    using fake_agrees [OF sent, of noSelectors freshFake] by (auto simp: noSelectors_def freshFake_def)
qed

end
