(* ===== verification/Registration.thy ===== *)
theory Registration
  imports ApiTypes
begin

text \<open>
  The registration of the API types: the kinds and resources of the API group and its builder
  (\<^verbatim>\<open>v1alpha1/register.go\<close>), the schemes of the real and of the fake clientset
  (\<^verbatim>\<open>scheme/register.go\<close>, \<^verbatim>\<open>fake/register.go\<close>), and the registry below them
  (\<^verbatim>\<open>runtime/scheme.go\<close>, \<^verbatim>\<open>meta/v1/register.go\<close>) without conversions and defaults.
  A Go type is its package and its name.
\<close>

type_synonym gvk = "string \<times> string \<times> string"
type_synonym goType = "string \<times> string"

record scheme =
  scGvkToType :: "(gvk \<times> goType) list"
  scTypeToGVK :: "(goType \<times> gvk) list"
  scUnversionedKinds :: "(string \<times> goType) list"

definition NewScheme :: scheme where
  "NewScheme = \<lparr>scGvkToType = [], scTypeToGVK = [], scUnversionedKinds = []\<rparr>"

definition AddKnownTypeWithName :: "gvk \<Rightarrow> goType \<Rightarrow> scheme \<Rightarrow> scheme outcome" where
  "AddKnownTypeWithName k t s =
     (if fst (snd k) = [] then Panic
      else
        (case map_of (scGvkToType s) k of
           Some old \<Rightarrow> if old \<noteq> t then Panic else Ret s
         | None \<Rightarrow> Ret (s\<lparr>scGvkToType := (k, t) # scGvkToType s, scTypeToGVK := scTypeToGVK s @ [(t, k)]\<rparr>)))"

fun AddKnownTypes :: "string \<Rightarrow> string \<Rightarrow> goType list \<Rightarrow> scheme \<Rightarrow> scheme outcome" where
  "AddKnownTypes grp version [] s = Ret s"
| "AddKnownTypes grp version (t # ts) s =
     obnd (AddKnownTypeWithName (grp, version, snd t) t s) (AddKnownTypes grp version ts)"

fun markUnversioned :: "goType list \<Rightarrow> scheme \<Rightarrow> scheme outcome" where
  "markUnversioned [] s = Ret s"
| "markUnversioned (t # ts) s =
     (case map_of (scUnversionedKinds s) (snd t) of
        Some old \<Rightarrow> if t \<noteq> old then Panic else markUnversioned ts s
      | None \<Rightarrow> markUnversioned ts (s\<lparr>scUnversionedKinds := (snd t, t) # scUnversionedKinds s\<rparr>))"

definition AddUnversionedTypes :: "string \<Rightarrow> string \<Rightarrow> goType list \<Rightarrow> scheme \<Rightarrow> scheme outcome" where
  "AddUnversionedTypes grp version ts s = obnd (AddKnownTypes grp version ts s) (markUnversioned ts)"

definition AddToGroupVersion :: "string \<Rightarrow> string \<Rightarrow> scheme \<Rightarrow> scheme outcome" where
  "AddToGroupVersion grp version s =
     obnd (AddKnownTypeWithName (grp, version, ''WatchEvent'') (''v1'', ''WatchEvent'') s) (\<lambda>s.
     obnd (AddKnownTypeWithName (grp, ''__internal'', ''WatchEvent'') (''v1'', ''InternalEvent'') s) (\<lambda>s.
     obnd (AddKnownTypes grp version [(''v1'', ''ListOptions''), (''v1'', ''ExportOptions''), (''v1'', ''GetOptions''),
       (''v1'', ''DeleteOptions'')] s)
     (AddUnversionedTypes [] ''v1'' [(''v1'', ''Status''), (''v1'', ''APIVersions''), (''v1'', ''APIGroupList''),
       (''v1'', ''APIGroup''), (''v1'', ''APIResourceList'')])))"

section \<open>The API group\<close>

definition Kind :: "string \<Rightarrow> string \<times> string" where
  "Kind kind = (GroupName, kind)"

definition Resource :: "string \<Rightarrow> string \<times> string" where
  "Resource resource = (GroupName, resource)"

definition addKnownTypes :: "scheme \<Rightarrow> (error \<times> scheme) outcome" where
  "addKnownTypes s =
     obnd (AddKnownTypes GroupName GroupVersion [(''v1alpha1'', ''RedisCluster''), (''v1alpha1'', ''RedisClusterList'')] s) (\<lambda>s.
     obnd (AddToGroupVersion GroupName GroupVersion s) (\<lambda>s. Ret (None, s)))"

text \<open>A builder runs its functions until one fails.\<close>

fun builderAddToScheme :: "(scheme \<Rightarrow> (error \<times> scheme) outcome) list \<Rightarrow> scheme \<Rightarrow> (error \<times> scheme) outcome" where
  "builderAddToScheme [] s = Ret (None, s)"
| "builderAddToScheme (f # fs) s =
     obnd (f s) (\<lambda>(err, s). if err \<noteq> None then Ret (err, s) else builderAddToScheme fs s)"

definition apiAddToScheme :: "scheme \<Rightarrow> (error \<times> scheme) outcome" where
  "apiAddToScheme = builderAddToScheme [addKnownTypes]"

definition AddToScheme :: "scheme \<Rightarrow> (error \<times> scheme) outcome" where
  "AddToScheme = builderAddToScheme [apiAddToScheme]"

text \<open>The scheme of the clientset when its package is initialised; that of the fake is built alike.\<close>

definition initScheme :: "scheme outcome" where
  "initScheme =
     obnd (AddToGroupVersion [] ''v1'' NewScheme) (\<lambda>s.
     obnd (AddToScheme s) (\<lambda>(err, s). if err \<noteq> None then Panic else Ret s))"

definition fakeInitScheme :: "scheme outcome" where
  "fakeInitScheme =
     obnd (AddToGroupVersion [] ''v1'' NewScheme) (\<lambda>s.
     obnd (AddToScheme s) (\<lambda>(err, s). if err \<noteq> None then Panic else Ret s))"

section \<open>Using a scheme\<close>

definition recognizes :: "scheme \<Rightarrow> gvk \<Rightarrow> bool" where
  "recognizes s k \<longleftrightarrow> map_of (scGvkToType s) k \<noteq> None"

definition schemeNew :: "scheme \<Rightarrow> gvk \<Rightarrow> goType option" where
  "schemeNew s k =
     (case map_of (scGvkToType s) k of
        Some t \<Rightarrow> Some t
      | None \<Rightarrow> map_of (scUnversionedKinds s) (snd (snd k)))"

definition ObjectKinds :: "scheme \<Rightarrow> goType \<Rightarrow> gvk list" where
  "ObjectKinds s t = map snd (filter (\<lambda>p. fst p = t) (scTypeToGVK s))"

text \<open>What the scheme of the clientset holds.\<close>

definition metaTypes :: "string \<Rightarrow> string \<Rightarrow> (gvk \<times> goType) list" where
  "metaTypes grp version =
     [((grp, version, ''WatchEvent''), (''v1'', ''WatchEvent'')),
      ((grp, ''__internal'', ''WatchEvent''), (''v1'', ''InternalEvent'')),
      ((grp, version, ''ListOptions''), (''v1'', ''ListOptions'')),
      ((grp, version, ''ExportOptions''), (''v1'', ''ExportOptions'')),
      ((grp, version, ''GetOptions''), (''v1'', ''GetOptions'')),
      ((grp, version, ''DeleteOptions''), (''v1'', ''DeleteOptions''))]"

definition unversioned :: "string list" where
  "unversioned = [''Status'', ''APIVersions'', ''APIGroupList'', ''APIGroup'', ''APIResourceList'']"

definition registered :: "(gvk \<times> goType) list" where
  "registered = metaTypes [] ''v1'' @ map (\<lambda>k. (([], ''v1'', k), (''v1'', k))) unversioned @
     map (\<lambda>k. ((GroupName, GroupVersion, k), (''v1alpha1'', k))) [''RedisCluster'', ''RedisClusterList''] @
     metaTypes GroupName GroupVersion"

definition clientScheme :: scheme where
  "clientScheme = \<lparr>scGvkToType = rev registered, scTypeToGVK = map (\<lambda>(k, t). (t, k)) registered,
     scUnversionedKinds = rev (map (\<lambda>k. (k, (''v1'', k))) unversioned)\<rparr>"

lemma initScheme_returns: "initScheme = Ret clientScheme"
  by code_simp

lemma fakeInitScheme_returns: "fakeInitScheme = Ret clientScheme"
  using initScheme_returns by (simp only: fakeInitScheme_def initScheme_def)

lemmas scheme_contents = clientScheme_def registered_def metaTypes_def unversioned_def

lemma clientScheme_clusters:
  "ObjectKinds clientScheme (''v1alpha1'', ''RedisCluster'') = [(GroupName, GroupVersion, ''RedisCluster'')]"
  "schemeNew clientScheme (GroupName, GroupVersion, ''RedisClusterList'') = Some (''v1alpha1'', ''RedisClusterList'')"
  "recognizes clientScheme (GroupName, GroupVersion, ''RedisCluster'')"
  "recognizes clientScheme (GroupName, GroupVersion, ''RedisClusterList'')"
  by (simp_all add: scheme_contents ObjectKinds_def schemeNew_def recognizes_def)

lemma clientScheme_groups:
  "schemeNew clientScheme (g, v, ''RedisClusterList'') \<noteq> None \<longleftrightarrow> (g, v) = (GroupName, GroupVersion)"
  by (simp add: scheme_contents schemeNew_def)

end
