(* ===== verification/FakeTracker.thy ===== *)
theory FakeTracker
  imports FakeClient Registration
begin

text \<open>
  The fake clientset with its store of objects: \<^verbatim>\<open>NewSimpleClientset\<close>
  (\<^verbatim>\<open>fake/clientset_generated.go\<close>, \<^verbatim>\<open>fake/fake_redis_client.go\<close>) over the
  object tracker of \<^verbatim>\<open>client-go/testing/fixture.go\<close>. Deep copies need no model here, as the
  objects are values. The method \<open>Watch\<close> that the clientset calls on the tracker does not exist in the
  vendored library: it is a parameter.
\<close>

section \<open>The tracker\<close>

type_synonym gvr = "string \<times> string \<times> string"

type_synonym tracker = "gvr \<rightharpoonup> RedisCluster list"

abbreviation apiError :: "gerr \<Rightarrow> clientError option" where "apiError e \<equiv> Some (Remote e)"

definition trackerNotFound :: "gvr \<Rightarrow> string \<Rightarrow> gerr" where
  "trackerNotFound gvr name = NotFoundErr (snd (snd gvr) @ ''.'' @ fst gvr @ '' \"'' @ name @ ''\" not found'')"

definition trackerExists :: "gvr \<Rightarrow> string \<Rightarrow> gerr" where
  "trackerExists gvr name = AlreadyExistsErr (snd (snd gvr) @ ''.'' @ fst gvr @ '' \"'' @ name @ ''\" already exists'')"

definition filterByNamespaceAndName :: "RedisCluster list \<Rightarrow> string \<Rightarrow> string \<Rightarrow> RedisCluster list" where
  "filterByNamespaceAndName objs ns name =
     filter (\<lambda>rc. (ns = [] \<or> rcNamespace rc = ns) \<and> (name = [] \<or> rcName rc = name)) objs"

definition trackerGet :: "gvr \<Rightarrow> string \<Rightarrow> string \<Rightarrow> tracker \<Rightarrow> fakeObject option \<times> clientError option" where
  "trackerGet gvr ns name t =
     (case t gvr of
        None \<Rightarrow> (None, apiError (trackerNotFound gvr name))
      | Some objs \<Rightarrow>
          (case filterByNamespaceAndName objs ns name of
             [] \<Rightarrow> (None, apiError (trackerNotFound gvr name))
           | [rc] \<Rightarrow> (Some (ClusterObj rc), None)
           | _ \<Rightarrow> (None, apiError (Err ''more than one object matched''))))"

definition trackerList :: "gvr \<Rightarrow> gvk \<Rightarrow> string \<Rightarrow> tracker \<Rightarrow> fakeObject option \<times> clientError option" where
  "trackerList gvr gvk ns t =
     (let (grp, version, kind) = gvk;
          listGVK = (grp, if version = [] then ''__internal'' else version, kind @ ''List'') in
      case schemeNew clientScheme listGVK of
        None \<Rightarrow> (None, apiError (Err (''no kind is registered for '' @ kind @ ''List'')))
      | Some ty \<Rightarrow>
          if ty \<noteq> (''v1alpha1'', ''RedisClusterList'') then (None, apiError (Err ''is not a list type''))
          else
            (case t gvr of
               None \<Rightarrow> (Some (ListObj []), None)
             | Some objs \<Rightarrow> (Some (ListObj (filterByNamespaceAndName objs ns [])), None)))"

definition sameKey :: "RedisCluster \<Rightarrow> RedisCluster \<Rightarrow> bool" where
  "sameKey a b \<longleftrightarrow> rcNamespace a = rcNamespace b \<and> rcName a = rcName b"

text \<open>The search for the object to replace; \<open>None\<close> when there is none.\<close>

fun replaceFirst :: "RedisCluster \<Rightarrow> RedisCluster list \<Rightarrow> RedisCluster list option" where
  "replaceFirst rc [] = None"
| "replaceFirst rc (old # olds) =
     (if sameKey old rc then Some (rc # olds) else map_option ((#) old) (replaceFirst rc olds))"

definition objectsAt :: "gvr \<Rightarrow> tracker \<Rightarrow> RedisCluster list" where
  "objectsAt gvr t = (case t gvr of None \<Rightarrow> [] | Some objs \<Rightarrow> objs)"

definition inNamespace :: "string \<Rightarrow> RedisCluster \<Rightarrow> RedisCluster" where
  "inNamespace ns rc = (if rcNamespace rc = [] then rc\<lparr>rcNamespace := ns\<rparr> else rc)"

definition trackerAdd :: "gvr \<Rightarrow> RedisCluster \<Rightarrow> string \<Rightarrow> bool \<Rightarrow> tracker \<Rightarrow> clientError option \<times> tracker" where
  "trackerAdd gvr obj ns replaceExisting t =
     (let rc = inNamespace ns obj in
      if ns \<noteq> rcNamespace rc
      then (apiError (Err (''request namespace does not match object namespace, request: '' @ ns @ '' object: '' @ rcNamespace rc)), t)
      else
        (case replaceFirst rc (objectsAt gvr t) of
           Some objs \<Rightarrow> if replaceExisting then (None, t(gvr \<mapsto> objs)) else (apiError (trackerExists gvr (rcName rc)), t)
         | None \<Rightarrow>
             if replaceExisting then (apiError (trackerNotFound gvr (rcName rc)), t)
             else (None, t(gvr \<mapsto> objectsAt gvr t @ [rc]))))"

fun removeFirst :: "string \<Rightarrow> string \<Rightarrow> RedisCluster list \<Rightarrow> RedisCluster list option" where
  "removeFirst ns name [] = None"
| "removeFirst ns name (rc # rcs) =
     (if rcNamespace rc = ns \<and> rcName rc = name then Some rcs else map_option ((#) rc) (removeFirst ns name rcs))"

definition trackerDelete :: "gvr \<Rightarrow> string \<Rightarrow> string \<Rightarrow> tracker \<Rightarrow> clientError option \<times> tracker" where
  "trackerDelete gvr ns name t =
     (case removeFirst ns name (objectsAt gvr t) of
        Some objs \<Rightarrow> (None, t(gvr \<mapsto> objs))
      | None \<Rightarrow> (apiError (trackerNotFound gvr name), t))"

text \<open>
  Adding an object under the resource its kind suggests: the lower case name of the kind with an s
  (no kind that can be added here ends in s or y or has no plural).
\<close>

definition guessResource :: "gvk \<Rightarrow> gvr" where
  "guessResource k = (let (grp, version, kind) = k in
     (grp, if version = ''__internal'' then [] else version, toLower kind @ ''s''))"

fun addUnder :: "gvk list \<Rightarrow> RedisCluster \<Rightarrow> tracker \<Rightarrow> clientError option \<times> tracker" where
  "addUnder [] rc t = (None, t)"
| "addUnder (k # ks) rc t =
     (case trackerAdd (guessResource k) rc (rcNamespace rc) False t of
        (Some e, t') \<Rightarrow> (Some e, t')
      | (None, t') \<Rightarrow> addUnder ks rc t')"

fun addItems :: "RedisCluster list \<Rightarrow> tracker \<Rightarrow> clientError option \<times> tracker" where
  "addItems [] t = (None, t)"
| "addItems (rc # rcs) t =
     (case addUnder (ObjectKinds clientScheme (''v1alpha1'', ''RedisCluster'')) rc t of
        (Some e, t') \<Rightarrow> (Some e, t')
      | (None, t') \<Rightarrow> addItems rcs t')"

text \<open>Objects that are neither clusters nor lists of clusters are taken to be of an unregistered type.\<close>

fun trackerPreset :: "fakeObject \<Rightarrow> tracker \<Rightarrow> clientError option \<times> tracker" where
  "trackerPreset (ClusterObj rc) t = addItems [rc] t"
| "trackerPreset (ListObj rcs) t = addItems rcs t"
| "trackerPreset (OtherObj x) t = (apiError (Err ''no kind is registered for the type''), t)"

section \<open>The reaction of the tracker\<close>

definition fakeResource :: "fakeAction \<Rightarrow> gvr" where
  "fakeResource a = (faGroup a, faVersion a, faResource a)"

definition redisclustersKind :: gvk where
  "redisclustersKind = (fakeGroup, ''v1alpha1'', ''RedisCluster'')"

text \<open>Creating and updating answer with the object as it is stored then.\<close>

definition stored :: "gvr \<Rightarrow> string \<Rightarrow> string \<Rightarrow> clientError option \<times> tracker \<Rightarrow> fakeObject reply \<times> tracker" where
  "stored gvr ns name r =
     (case r of
        (Some e, t) \<Rightarrow> ((True, None, Some e), t)
      | (None, t) \<Rightarrow> (case trackerGet gvr ns name t of (obj, err) \<Rightarrow> ((True, obj, err), t)))"

definition ObjectReaction :: "fakeAction \<Rightarrow> tracker \<Rightarrow> fakeObject reply \<times> tracker" where
  "ObjectReaction a t =
     (let ns = faNamespace a; gvr = fakeResource a in
      if faVerb a = ''list'' then (case trackerList gvr redisclustersKind ns t of (obj, err) \<Rightarrow> ((True, obj, err), t))
      else if faVerb a = ''get'' then (case trackerGet gvr ns (faName a) t of (obj, err) \<Rightarrow> ((True, obj, err), t))
      else if faVerb a = ''create'' \<or> faVerb a = ''update'' then
        (case faObject a of
           None \<Rightarrow> ((True, None, apiError (Err ''object does not implement the Object interfaces'')), t)
         | Some rc \<Rightarrow> stored gvr ns (rcName rc)
             (trackerAdd gvr rc ns (faVerb a = ''update'' \<or> faSubresource a \<noteq> []) t))
      else if faVerb a = ''delete'' then
        (case trackerDelete gvr ns (faName a) t of (err, t') \<Rightarrow> ((True, None, err), t'))
      else ((False, None, apiError (Err ''no reaction implemented'')), t))"

section \<open>The fake clientset\<close>

text \<open>The loop over the objects ends in a panic at the first that cannot be added.\<close>

fun presetAll :: "fakeObject list \<Rightarrow> tracker \<Rightarrow> tracker outcome" where
  "presetAll [] t = Ret t"
| "presetAll (obj # objs) t =
     (case trackerPreset obj t of
        (Some e, t') \<Rightarrow> Panic
      | (None, t') \<Rightarrow> presetAll objs t')"

definition watchReaction :: "(gvr \<Rightarrow> string \<Rightarrow> tracker \<Rightarrow> 'w + clientError) \<Rightarrow> fakeAction \<Rightarrow> tracker \<Rightarrow> 'w reply \<times> tracker" where
  "watchReaction trackerWatch action t =
     (case trackerWatch (fakeResource action) (faNamespace action) t of
        Inr err \<Rightarrow> ((False, None, Some err), t)
      | Inl w \<Rightarrow> ((True, Some w, None), t))"

definition NewSimpleClientset :: "(gvr \<Rightarrow> string \<Rightarrow> tracker \<Rightarrow> 'w + clientError) \<Rightarrow> fakeObject list \<Rightarrow>
    ('w, tracker) fakeClient outcome" where
  "NewSimpleClientset trackerWatch objects =
     obnd (presetAll objects Map.empty) (\<lambda>t.
     Ret \<lparr>fkActions = [], fkReactionChain = [(\<lambda>_. True, ObjectReaction)],
       fkWatchReactionChain = [(\<lambda>_. True, watchReaction trackerWatch)], fkState = t\<rparr>)"

section \<open>The fake clientset is a store that starts empty\<close>

datatype storeCall =
    StoreGet string
  | StoreCreate RedisCluster
  | StoreUpdate RedisCluster
  | StoreUpdateStatus RedisCluster
  | StoreDelete string

fun storeName :: "storeCall \<Rightarrow> string" where
  "storeName (StoreGet name) = name"
| "storeName (StoreCreate rc) = rcName rc"
| "storeName (StoreUpdate rc) = rcName rc"
| "storeName (StoreUpdateStatus rc) = rcName rc"
| "storeName (StoreDelete name) = name"

type_synonym storeReply = "(RedisCluster option \<times> clientError option) outcome"

fun fakeStep :: "string \<Rightarrow> storeCall \<Rightarrow> ('w, tracker) fakeClient \<Rightarrow> storeReply \<times> ('w, tracker) fakeClient" where
  "fakeStep ns (StoreGet name) f = fakeGet ns name f"
| "fakeStep ns (StoreCreate rc) f = fakeCreate ns rc f"
| "fakeStep ns (StoreUpdate rc) f = fakeUpdate ns rc f"
| "fakeStep ns (StoreUpdateStatus rc) f = fakeUpdateStatus ns rc f"
| "fakeStep ns (StoreDelete name) f = (case fakeDelete ns name f of (r, f') \<Rightarrow> (obnd r (\<lambda>err. Ret (None, err)), f'))"

text \<open>The specification: a map from namespace and name to the object.\<close>

type_synonym store = "string \<times> string \<rightharpoonup> RedisCluster"

abbreviation fakeGvr :: gvr where "fakeGvr \<equiv> (fakeGroup, ''v1alpha1'', redisclusters)"

definition storeWrite :: "bool \<Rightarrow> string \<Rightarrow> RedisCluster \<Rightarrow> store \<Rightarrow> storeReply \<times> store" where
  "storeWrite existing ns rc m =
     (let rc' = inNamespace ns rc; k = (ns, rcName rc) in
      if rcNamespace rc' \<noteq> ns
      then (Ret (None, apiError (Err (''request namespace does not match object namespace, request: '' @ ns @ '' object: '' @ rcNamespace rc'))), m)
      else if \<not> existing \<and> m k \<noteq> None then (Ret (None, apiError (trackerExists fakeGvr (rcName rc))), m)
      else if existing \<and> m k = None then (Ret (None, apiError (trackerNotFound fakeGvr (rcName rc))), m)
      else (Ret (Some rc', None), m(k \<mapsto> rc')))"

fun storeStep :: "string \<Rightarrow> storeCall \<Rightarrow> store \<Rightarrow> storeReply \<times> store" where
  "storeStep ns (StoreGet name) m =
     (case m (ns, name) of
        None \<Rightarrow> (Ret (None, apiError (trackerNotFound fakeGvr name)), m)
      | Some rc \<Rightarrow> (Ret (Some rc, None), m))"
| "storeStep ns (StoreCreate rc) m = storeWrite False ns rc m"
| "storeStep ns (StoreUpdate rc) m = storeWrite True ns rc m"
| "storeStep ns (StoreUpdateStatus rc) m = storeWrite True ns rc m"
| "storeStep ns (StoreDelete name) m =
     (case m (ns, name) of
        None \<Rightarrow> (Ret (None, apiError (trackerNotFound fakeGvr name)), m)
      | Some rc \<Rightarrow> (Ret (None, None), m((ns, name) := None)))"

fun repliesTo :: "('c \<Rightarrow> 's \<Rightarrow> 'r \<times> 's) \<Rightarrow> 'c list \<Rightarrow> 's \<Rightarrow> 'r list" where
  "repliesTo step [] s = []"
| "repliesTo step (c # cs) s = (case step c s of (r, s') \<Rightarrow> r # repliesTo step cs s')"

text \<open>The list of objects of a tracker as a map, each key at most once.\<close>

definition objectKey :: "RedisCluster \<Rightarrow> string \<times> string" where
  "objectKey rc = (rcNamespace rc, rcName rc)"

definition keyed :: "RedisCluster list \<Rightarrow> store" where
  "keyed objs = map_of (map (\<lambda>rc. (objectKey rc, rc)) objs)"

definition tracks :: "tracker \<Rightarrow> store \<Rightarrow> bool" where
  "tracks t m \<longleftrightarrow> distinct (map objectKey (objectsAt fakeGvr t)) \<and> keyed (objectsAt fakeGvr t) = m"

lemma keyed_simps [simp]:
  "keyed [] = Map.empty" "keyed (rc # rcs) = (keyed rcs)(objectKey rc \<mapsto> rc)"
  by (simp_all add: keyed_def)

lemma keyed_None: "keyed objs k = None \<longleftrightarrow> k \<notin> objectKey ` set objs"
  by (induction objs) auto

lemma keyed_append_new:
  "objectKey rc \<notin> objectKey ` set objs \<Longrightarrow> keyed (objs @ [rc]) = (keyed objs)(objectKey rc \<mapsto> rc)"
  by (induction objs) (auto simp: fun_upd_twist)

lemma filter_key:
  assumes "distinct (map objectKey objs)"
  shows "filter (\<lambda>rc. objectKey rc = k) objs = (case keyed objs k of None \<Rightarrow> [] | Some rc \<Rightarrow> [rc])"
  using assms
proof (induction objs)
  case (Cons rc objs)
  show ?case
  proof (cases "objectKey rc = k")
    case True
    then have "keyed objs k = None" using Cons.prems by (auto simp: keyed_None)
    then show ?thesis using Cons True by simp
  qed (use Cons in simp)
qed simp

lemma filterByNamespaceAndName_key:
  assumes "ns \<noteq> []" and "name \<noteq> []"
  shows "filterByNamespaceAndName objs ns name = filter (\<lambda>rc. objectKey rc = (ns, name)) objs"
  using assms by (simp add: filterByNamespaceAndName_def objectKey_def)

lemma trackerGet_tracks:
  assumes "tracks t m" and "ns \<noteq> []" and "name \<noteq> []"
  shows "trackerGet fakeGvr ns name t =
     (case m (ns, name) of None \<Rightarrow> (None, apiError (trackerNotFound fakeGvr name)) | Some rc \<Rightarrow> (Some (ClusterObj rc), None))"
  using assms filter_key [of "objectsAt fakeGvr t" "(ns, name)"]
  by (auto simp: trackerGet_def tracks_def filterByNamespaceAndName_key objectsAt_def split: option.splits)

lemma replaceFirst_keyed:
  assumes "distinct (map objectKey objs)"
  shows "case replaceFirst rc objs of
       None \<Rightarrow> keyed objs (objectKey rc) = None
     | Some objs' \<Rightarrow> keyed objs (objectKey rc) \<noteq> None \<and> map objectKey objs' = map objectKey objs \<and>
         keyed objs' = (keyed objs)(objectKey rc \<mapsto> rc)"
  using assms
  by (induction objs) (auto simp: sameKey_def objectKey_def split: option.splits)

lemma removeFirst_keyed:
  assumes "distinct (map objectKey objs)"
  shows "case removeFirst ns name objs of
       None \<Rightarrow> keyed objs (ns, name) = None
     | Some objs' \<Rightarrow> keyed objs (ns, name) \<noteq> None \<and> distinct (map objectKey objs') \<and>
         set (map objectKey objs') \<subseteq> set (map objectKey objs) \<and> keyed objs' = (keyed objs)((ns, name) := None)"
  using assms
proof (induction objs)
  case (Cons rc objs)
  show ?case
  proof (cases "objectKey rc = (ns, name)")
    case True
    then have "keyed objs (ns, name) = None" "distinct (map objectKey objs)" using Cons.prems by (auto simp: keyed_None)
    then show ?thesis using True by (auto simp: objectKey_def fun_upd_idem)
  next
    case False
    then show ?thesis
      using Cons by (auto simp: objectKey_def fun_upd_twist split: option.splits)
  qed
qed simp

lemma objectsAt_upd [simp]: "objectsAt g (t(g \<mapsto> objs)) = objs"
  by (simp add: objectsAt_def)

lemma trackerAdd_tracks:
  assumes "tracks t m" and "rcNamespace (inNamespace ns rc) = ns"
  shows "case trackerAdd fakeGvr rc ns existing t of (err, t') \<Rightarrow>
     if existing \<longleftrightarrow> m (ns, rcName rc) \<noteq> None
     then err = None \<and> tracks t' (m((ns, rcName rc) \<mapsto> inNamespace ns rc))
     else err = apiError (if existing then trackerNotFound fakeGvr (rcName rc) else trackerExists fakeGvr (rcName rc)) \<and> t' = t"
proof -
  let ?rc = "inNamespace ns rc" and ?objs = "objectsAt fakeGvr t"
  have name: "rcName ?rc = rcName rc" by (simp add: inNamespace_def)
  have key: "objectKey ?rc = (ns, rcName rc)" using assms(2) name by (simp add: objectKey_def)
  have m: "distinct (map objectKey ?objs)" "keyed ?objs = m" using assms(1) by (simp_all add: tracks_def)
  have fresh: "distinct (map objectKey (?objs @ [?rc])) \<and> keyed (?objs @ [?rc]) = m((ns, rcName rc) \<mapsto> ?rc)"
    if "m (ns, rcName rc) = None"
  proof -
    have out: "(ns, rcName rc) \<notin> objectKey ` set ?objs" using that keyed_None m(2) by metis
    then have "keyed (?objs @ [?rc]) = (keyed ?objs)((ns, rcName rc) \<mapsto> ?rc)"
      using keyed_append_new [of ?rc ?objs] by (simp add: key)
    then show ?thesis using out m key by auto
  qed
  show ?thesis
    using replaceFirst_keyed [OF m(1), of ?rc] fresh m assms(2)
    by (auto simp: trackerAdd_def Let_def name key tracks_def split: option.splits)
qed

text \<open>A fake clientset as \<open>NewSimpleClientset\<close> makes it, whose tracker holds a map.\<close>

definition represents :: "('w, tracker) fakeClient \<Rightarrow> store \<Rightarrow> bool" where
  "represents f m \<longleftrightarrow> fkReactionChain f = [(\<lambda>_. True, ObjectReaction)] \<and> tracks (fkState f) m"

lemma invoke_reaction:
  assumes "fkReactionChain f = [(\<lambda>_. True, ObjectReaction)]"
    and "ObjectReaction a (fkState f) = ((True, obj, err), t')"
  shows "Invokes a d f = ((obj, err), f\<lparr>fkActions := fkActions f @ [a], fkState := t'\<rparr>)"
  using assms by (simp add: Invokes_def)

lemma represents_upd [simp]:
  "represents (f\<lparr>fkActions := as, fkState := t\<rparr>) m \<longleftrightarrow> fkReactionChain f = [(\<lambda>_. True, ObjectReaction)] \<and> tracks t m"
  by (simp add: represents_def)

lemmas action_defs = newAction_def NewGetAction_def NewCreateAction_def NewUpdateAction_def
  NewUpdateSubresourceAction_def NewDeleteAction_def

lemma write_represents:
  assumes "represents f m" and "ns \<noteq> []" and "rcName rc \<noteq> []"
    and "faVerb a = ''create'' \<and> faSubresource a = [] \<or> faVerb a = ''update''"
    and "faObject a = Some rc" "faNamespace a = ns" "fakeResource a = fakeGvr"
  shows "\<exists>f'. invokeCluster a f = (fst (storeWrite (faVerb a = ''update'') ns rc m), f') \<and>
     represents f' (snd (storeWrite (faVerb a = ''update'') ns rc m))"
proof -
  let ?existing = "faVerb a = ''update''"
  have t: "tracks (fkState f) m" and chain: "fkReactionChain f = [(\<lambda>_. True, ObjectReaction)]"
    using assms(1) by (simp_all add: represents_def)
  obtain err t' where add: "trackerAdd fakeGvr rc ns ?existing (fkState f) = (err, t')"
    by (cases "trackerAdd fakeGvr rc ns ?existing (fkState f)")
  have react: "ObjectReaction a (fkState f) = stored fakeGvr ns (rcName rc) (err, t')"
    using assms(4-7) add by (auto simp: ObjectReaction_def)
  have answer: "\<exists>f'. invokeCluster a f = (asCluster (obj, e), f') \<and> represents f' m'"
    if "stored fakeGvr ns (rcName rc) (err, t') = ((True, obj, e), t')" "tracks t' m'" for obj e m'
    using invoke_reaction [OF chain, of a obj e t'] react that chain by (simp add: invokeCluster_def)
  show ?thesis
  proof (cases "rcNamespace (inNamespace ns rc) = ns")
    case True
    have added: "if ?existing \<longleftrightarrow> m (ns, rcName rc) \<noteq> None
       then err = None \<and> tracks t' (m((ns, rcName rc) \<mapsto> inNamespace ns rc))
       else err = apiError (if ?existing then trackerNotFound fakeGvr (rcName rc) else trackerExists fakeGvr (rcName rc)) \<and>
         t' = fkState f"
      using trackerAdd_tracks [OF t True, of ?existing] add by simp
    show ?thesis
    proof (cases "?existing \<longleftrightarrow> m (ns, rcName rc) \<noteq> None")
      case fits: True
      then have t': "err = None" "tracks t' (m((ns, rcName rc) \<mapsto> inNamespace ns rc))" using added by simp_all
      then have "stored fakeGvr ns (rcName rc) (err, t') = ((True, Some (ClusterObj (inNamespace ns rc)), None), t')"
        using trackerGet_tracks [OF t'(2) assms(2,3)] by (simp add: stored_def)
      then show ?thesis
        using answer [OF _ t'(2)] True fits by (auto simp: storeWrite_def Let_def asCluster_def)
    next
      case False
      then have "stored fakeGvr ns (rcName rc) (err, t') = ((True, None, err), t')" "t' = fkState f" "err \<noteq> None"
        using added by (auto simp: stored_def)
      then show ?thesis
        using answer [of None err m] t True False added by (auto simp: storeWrite_def Let_def asCluster_def)
    qed
  next
    case False
    then have "err = apiError (Err (''request namespace does not match object namespace, request: '' @ ns @ '' object: '' @
        rcNamespace (inNamespace ns rc)))" "t' = fkState f"
      using add by (auto simp: trackerAdd_def Let_def)
    moreover from this have "stored fakeGvr ns (rcName rc) (err, t') = ((True, None, err), t')"
      by (simp add: stored_def)
    ultimately show ?thesis
      using answer [of None err m] t False by (auto simp: storeWrite_def Let_def asCluster_def)
  qed
qed

lemma fakeStep_represents:
  assumes "represents f m" and "ns \<noteq> []" and "storeName c \<noteq> []"
  shows "\<exists>f'. fakeStep ns c f = (fst (storeStep ns c m), f') \<and> represents f' (snd (storeStep ns c m))"
proof -
  have t: "tracks (fkState f) m" and chain: "fkReactionChain f = [(\<lambda>_. True, ObjectReaction)]"
    using assms(1) by (simp_all add: represents_def)
  show ?thesis
  proof (cases c)
    case (StoreGet name)
    have "ObjectReaction (NewGetAction ns name) (fkState f) =
        (case m (ns, name) of None \<Rightarrow> ((True, None, apiError (trackerNotFound fakeGvr name)), fkState f)
         | Some rc \<Rightarrow> ((True, Some (ClusterObj rc), None), fkState f))"
      using trackerGet_tracks [OF t assms(2), of name] assms(3) StoreGet
      by (simp add: ObjectReaction_def action_defs fakeResource_def split: option.splits)
    then show ?thesis
      using StoreGet invoke_reaction [OF chain, of "NewGetAction ns name"] t chain
      by (cases "m (ns, name)") (simp_all add: fakeGet_def invokeCluster_def asCluster_def represents_def)
  next
    case (StoreCreate rc)
    then show ?thesis
      using write_represents [OF assms(1,2), of rc "NewCreateAction ns rc"] assms(3)
      by (simp add: fakeCreate_def action_defs fakeResource_def)
  next
    case (StoreUpdate rc)
    then show ?thesis
      using write_represents [OF assms(1,2), of rc "NewUpdateAction ns rc"] assms(3)
      by (simp add: fakeUpdate_def action_defs fakeResource_def)
  next
    case (StoreUpdateStatus rc)
    then show ?thesis
      using write_represents [OF assms(1,2), of rc "NewUpdateSubresourceAction ''status'' ns rc"] assms(3)
      by (simp add: fakeUpdateStatus_def action_defs fakeResource_def)
  next
    case (StoreDelete name)
    have "distinct (map objectKey (objectsAt fakeGvr (fkState f)))" "keyed (objectsAt fakeGvr (fkState f)) = m"
      using t by (simp_all add: tracks_def)
    then have "case m (ns, name) of
        None \<Rightarrow> trackerDelete fakeGvr ns name (fkState f) = (apiError (trackerNotFound fakeGvr name), fkState f)
      | Some rc \<Rightarrow> \<exists>t'. trackerDelete fakeGvr ns name (fkState f) = (None, t') \<and> tracks t' (m((ns, name) := None))"
      using removeFirst_keyed [of "objectsAt fakeGvr (fkState f)" ns name]
      by (auto simp: trackerDelete_def tracks_def split: option.splits)
    moreover have "ObjectReaction (NewDeleteAction ns name) (fkState f) =
        (case trackerDelete fakeGvr ns name (fkState f) of (err, t') \<Rightarrow> ((True, None, err), t'))"
      by (simp add: ObjectReaction_def action_defs fakeResource_def)
    ultimately show ?thesis
      using StoreDelete invoke_reaction [OF chain, of "NewDeleteAction ns name"] t chain
      by (cases "m (ns, name)") (auto simp: fakeDelete_def represents_def)
  qed
qed

lemma repliesTo_represents:
  assumes "represents f m" and "ns \<noteq> []" and "list_all (\<lambda>c. storeName c \<noteq> []) cs"
  shows "repliesTo (fakeStep ns) cs f = repliesTo (storeStep ns) cs m"
  using assms(1,3)
proof (induction cs arbitrary: f m)
  case (Cons c cs)
  obtain f' where "fakeStep ns c f = (fst (storeStep ns c m), f')" "represents f' (snd (storeStep ns c m))"
    using fakeStep_represents [OF Cons.prems(1) assms(2), of c] Cons.prems(2) by auto
  then show ?case
    using Cons by (cases "storeStep ns c m") simp
qed simp

text \<open>The objects given to the constructor are stored under the group of their kind.\<close>

lemma trackerAdd_elsewhere:
  "g \<noteq> g' \<Longrightarrow> trackerAdd g' rc ns e t = (err, t') \<Longrightarrow> t' g = t g"
  by (auto simp: trackerAdd_def Let_def split: if_splits option.splits)

lemma addItems_elsewhere: "addItems rcs t = (err, t') \<Longrightarrow> t' fakeGvr = t fakeGvr"
proof (induction rcs arbitrary: t)
  case (Cons rc rcs)
  have guess: "fakeGvr \<noteq> guessResource (GroupName, GroupVersion, ''RedisCluster'')"
    by (simp add: guessResource_def)
  show ?case
    using Cons trackerAdd_elsewhere [OF guess, of rc "rcNamespace rc" False t]
    by (auto simp: clientScheme_clusters split: prod.splits option.splits)
qed simp

lemma presetAll_elsewhere: "presetAll objs t = Ret t' \<Longrightarrow> t' fakeGvr = t fakeGvr"
proof (induction objs arbitrary: t)
  case (Cons obj objs)
  obtain t1 where t1: "trackerPreset obj t = (None, t1)" "presetAll objs t1 = Ret t'"
    using Cons.prems by (auto split: prod.splits option.splits)
  moreover have "t1 fakeGvr = t fakeGvr"
    using t1(1) addItems_elsewhere by (cases obj) (auto simp del: addItems.simps)
  ultimately show ?case using Cons.IH by simp
qed simp

text \<open>
  C33: the fake clientset is a store of objects that starts empty. Whatever objects it is made with, as
  long as they can be added at all, every sequence of gets, creates, updates, updates of the status and
  deletes of named objects in a namespace is answered as by a map that starts empty: none of the objects
  given to the constructor is ever found, because they are filed under the group of their kind while the
  methods ask for another group.
\<close>

theorem fake_clientset_store:
  assumes "NewSimpleClientset trackerWatch objects = Ret f" and "ns \<noteq> []" and "list_all (\<lambda>c. storeName c \<noteq> []) cs"
  shows "repliesTo (fakeStep ns) cs f = repliesTo (storeStep ns) cs Map.empty"
proof -
  obtain t where t: "presetAll objects Map.empty = Ret t" and f: "fkReactionChain f = [(\<lambda>_. True, ObjectReaction)]" "fkState f = t"
    using assms(1) by (auto simp: NewSimpleClientset_def obnd_Ret_iff)
  have "t fakeGvr = None" using presetAll_elsewhere [OF t] by simp
  then have "represents f Map.empty"
    using f by (simp add: represents_def tracks_def objectsAt_def)
  from repliesTo_represents [OF this assms(2,3)] show ?thesis .
qed

theorem fake_clientset_store_witness:
  "\<exists>f. NewSimpleClientset (\<lambda>_ _ _. Inl ()) [ClusterObj (emptyCluster\<lparr>rcName := ''r'', rcNamespace := ''ns''\<rparr>)] = Ret f \<and>
     repliesTo (fakeStep ''ns'') [StoreGet ''r''] f = [Ret (None, apiError (trackerNotFound fakeGvr ''r''))]"
proof -
  obtain f where f: "NewSimpleClientset (\<lambda>_ _ _. Inl ()) [ClusterObj (emptyCluster\<lparr>rcName := ''r'', rcNamespace := ''ns''\<rparr>)] = Ret f"
    by (simp add: NewSimpleClientset_def clientScheme_clusters trackerAdd_def objectsAt_def Let_def inNamespace_def)
  then show ?thesis
    using fake_clientset_store [OF f, of "''ns''" "[StoreGet ''r'']"] by auto
qed

text \<open>Listing always fails: no list type is registered for the group of the fake.\<close>

theorem fakeList_fails:
  assumes "NewSimpleClientset trackerWatch objects = Ret f" and "NewListAction sl ns opts = Ret a"
  shows "\<exists>e f'. fakeList sl ns opts f = (Ret (None, Some e), f')"
proof -
  have chain: "fkReactionChain f = [(\<lambda>_. True, ObjectReaction)]"
    using assms(1) by (auto simp: NewSimpleClientset_def obnd_Ret_iff)
  have verb: "faVerb a = ''list''"
    using assms(2) by (auto simp: NewListAction_def obnd_Ret_iff newAction_def split: prod.splits)
  have unknown: "schemeNew clientScheme (fakeGroup, v, ''RedisClusterList'') = None" for v
    using clientScheme_groups [of fakeGroup v] by (simp del: not_None_eq)
  have "trackerList g redisclustersKind n t = (None, apiError (Err ''no kind is registered for RedisClusterList''))" for g n t
    using unknown by (simp add: trackerList_def redisclustersKind_def)
  then have "ObjectReaction a (fkState f) =
      ((True, None, apiError (Err ''no kind is registered for RedisClusterList'')), fkState f)"
    by (simp add: ObjectReaction_def verb)
  then show ?thesis
    using invoke_reaction [OF chain] assms(2) by (simp add: fakeList_def)
qed

end
