(* ===== verification/SliceUtil.thy ===== *)
theory SliceUtil
  imports Prelude "HOL-Library.Multiset"
begin

text \<open>
  The slice helpers of \<^verbatim>\<open>util/slice.go\<close>. An interface value is nil or a type with a value; comparing two
  values of one type that has no equality panics. Random numbers are a parameter. A result of the same
  array as the argument is not told apart from a copy.
\<close>

section \<open>Membership\<close>

datatype 'v iface = INil | IVal (ifType: string) (ifComparable: bool) (ifValue: 'v)

fun ifaceEq :: "'v iface \<Rightarrow> 'v iface \<Rightarrow> bool outcome" where
  "ifaceEq INil INil = Ret True"
| "ifaceEq (IVal t c v) (IVal t' c' v') =
     (if t \<noteq> t' \<or> c \<noteq> c' then Ret False else if \<not> c then Panic else Ret (v = v'))"
| "ifaceEq _ _ = Ret False"

fun InSlice :: "string \<Rightarrow> string list \<Rightarrow> bool" where
  "InSlice v [] = False"
| "InSlice v (vv # sl) = (if vv = v then True else InSlice v sl)"

fun SliceStringDiff :: "string list \<Rightarrow> string list \<Rightarrow> string list" where
  "SliceStringDiff [] sl2 = []"
| "SliceStringDiff (v # sl1) sl2 =
     (if \<not> InSlice v sl2 then v # SliceStringDiff sl1 sl2 else SliceStringDiff sl1 sl2)"

fun InSliceIface :: "'v iface \<Rightarrow> 'v iface list \<Rightarrow> bool outcome" where
  "InSliceIface v [] = Ret False"
| "InSliceIface v (vv # sl) = obnd (ifaceEq vv v) (\<lambda>eq. if eq then Ret True else InSliceIface v sl)"

section \<open>Whole slices\<close>

definition SliceMerge :: "'v iface list \<Rightarrow> 'v iface list \<Rightarrow> 'v iface list" where
  "SliceMerge sl1 sl2 = sl1 @ sl2"

fun SliceReduce :: "'v iface list \<Rightarrow> ('v iface \<Rightarrow> 'v iface) \<Rightarrow> 'v iface list" where
  "SliceReduce [] a = []"
| "SliceReduce (v # sl) a = a v # SliceReduce sl a"

fun SliceFilter :: "'v iface list \<Rightarrow> ('v iface \<Rightarrow> bool) \<Rightarrow> 'v iface list" where
  "SliceFilter [] a = []"
| "SliceFilter (v # sl) a = (if a v then v # SliceFilter sl a else SliceFilter sl a)"

definition SliceSum :: "int64 list \<Rightarrow> int64" where
  "SliceSum intslice = fold (\<lambda>v sum. sum + v) intslice 0"

fun SliceDiff :: "'v iface list \<Rightarrow> 'v iface list \<Rightarrow> 'v iface list outcome" where
  "SliceDiff [] sl2 = Ret []"
| "SliceDiff (v # sl1) sl2 = obnd (InSliceIface v sl2) (\<lambda>found.
     obnd (SliceDiff sl1 sl2) (\<lambda>diffslice. Ret (if \<not> found then v # diffslice else diffslice)))"

fun SliceIntersect :: "'v iface list \<Rightarrow> 'v iface list \<Rightarrow> 'v iface list outcome" where
  "SliceIntersect [] sl2 = Ret []"
| "SliceIntersect (v # sl1) sl2 = obnd (InSliceIface v sl2) (\<lambda>found.
     obnd (SliceIntersect sl1 sl2) (\<lambda>diffslice. Ret (if found then v # diffslice else diffslice)))"

fun uniqueFrom :: "'v iface list \<Rightarrow> 'v iface list \<Rightarrow> 'v iface list outcome" where
  "uniqueFrom uniqueslice [] = Ret uniqueslice"
| "uniqueFrom uniqueslice (v # sl) = obnd (InSliceIface v uniqueslice) (\<lambda>found.
     uniqueFrom (if \<not> found then uniqueslice @ [v] else uniqueslice) sl)"

definition SliceUnique :: "'v iface list \<Rightarrow> 'v iface list outcome" where
  "SliceUnique sl = uniqueFrom [] sl"

section \<open>Chunks, ranges and padding\<close>

partial_function (option) chunkLoop ::
    "'v list \<Rightarrow> int64 \<Rightarrow> int64 \<Rightarrow> int64 \<Rightarrow> 'v list list \<Rightarrow> 'v list list outcome option" where
  "chunkLoop sl sz i fin chunkslice =
     (if sint i \<le> sint (of_nat (length sl) - sz)
      then
        if 0 \<le> sint i \<and> sint i \<le> sint fin \<and> sint fin \<le> int (length sl)
        then chunkLoop sl sz (i + sz) (fin + sz)
               (chunkslice @ [drop (nat (sint i)) (take (nat (sint fin)) sl)])
        else Some Panic
      else Some (Ret chunkslice))"


definition SliceChunk :: "'v list \<Rightarrow> int64 \<Rightarrow> 'v list list outcome" where
  "SliceChunk sl sz =
     (if sint sz \<ge> int (length sl) then Ret [sl]
      else (case chunkLoop sl sz 0 sz [] of None \<Rightarrow> Diverge | Some r \<Rightarrow> r))"

partial_function (option) rangeLoop :: "int64 \<Rightarrow> int64 \<Rightarrow> int64 \<Rightarrow> int64 list \<Rightarrow> int64 list option" where
  "rangeLoop fin step i intslice =
     (if sint i \<le> sint fin then rangeLoop fin step (i + step) (intslice @ [i]) else Some intslice)"

definition SliceRange :: "int64 \<Rightarrow> int64 \<Rightarrow> int64 \<Rightarrow> int64 list outcome" where
  "SliceRange start fin step =
     (case rangeLoop fin step start [] of None \<Rightarrow> Diverge | Some intslice \<Rightarrow> Ret intslice)"

text \<open>The bound of the loop is computed anew each time, from the slice as it is.\<close>

function padLoop :: "int \<Rightarrow> 'v \<Rightarrow> int \<Rightarrow> 'v list \<Rightarrow> 'v list" where
  "padLoop sz val i sl =
     (if i < sz - int (length sl) then padLoop sz val (i + 1) (sl @ [val]) else sl)"
  by pat_completeness auto

termination
  by (relation "measure (\<lambda>(sz, val, i, sl). nat (sz - int (length sl) - i))") auto

declare padLoop.simps [simp del]

definition SlicePad :: "'v list \<Rightarrow> int \<Rightarrow> 'v \<Rightarrow> 'v list" where
  "SlicePad sl sz val = (if sz \<le> int (length sl) then sl else padLoop sz val 0 sl)"

section \<open>Random choices\<close>

text \<open>
  \<open>rand.Perm\<close> and \<open>rand.Intn\<close> are parameters; the number of a call keeps the replies apart. Both panic when
  there is nothing to choose from.
\<close>

definition SliceRandList :: "(nat \<Rightarrow> nat list) \<Rightarrow> int64 \<Rightarrow> int64 \<Rightarrow> int64 list outcome" where
  "SliceRandList perm mn mx =
     (let (mn, mx) = (if sint mx < sint mn then (mx, mn) else (mn, mx)); len = mx - mn + 1
      in if sint len < 0 then Panic else Ret (map (\<lambda>v. of_nat v + mn) (perm (nat (sint len)))))"

definition SliceRand :: "(nat \<Rightarrow> nat \<Rightarrow> nat) \<Rightarrow> 'v list \<Rightarrow> 'v outcome" where
  "SliceRand intn a = (if a = [] then Panic else idx a (intn 0 (length a)))"

definition swapAt :: "nat \<Rightarrow> nat \<Rightarrow> 'v list \<Rightarrow> 'v list" where
  "swapAt a b sl = sl[a := sl ! b, b := sl ! a]"

fun shuffleFrom :: "(nat \<Rightarrow> nat \<Rightarrow> nat) \<Rightarrow> nat \<Rightarrow> nat \<Rightarrow> 'v list \<Rightarrow> 'v list outcome" where
  "shuffleFrom intn i 0 sl = Ret sl"
| "shuffleFrom intn i (Suc rest) sl =
     (let a = intn (2 * i) (length sl); b = intn (2 * i + 1) (length sl)
      in if a < length sl \<and> b < length sl then shuffleFrom intn (Suc i) rest (swapAt a b sl) else Panic)"

definition SliceShuffle :: "(nat \<Rightarrow> nat \<Rightarrow> nat) \<Rightarrow> 'v list \<Rightarrow> 'v list outcome" where
  "SliceShuffle intn sl = shuffleFrom intn 0 (length sl) sl"

section \<open>What they compute\<close>

lemma InSlice_set: "InSlice v sl \<longleftrightarrow> v \<in> set sl"
  by (induction sl) auto

lemma SliceStringDiff_filter: "SliceStringDiff sl1 sl2 = filter (\<lambda>v. v \<notin> set sl2) sl1"
  by (induction sl1) (simp_all add: InSlice_set)

lemma SliceReduce_map: "SliceReduce sl a = map a sl"
  by (induction sl) simp_all

lemma SliceFilter_filter: "SliceFilter sl a = filter a sl"
  by (induction sl) simp_all

lemma SliceSum_sum_list: "SliceSum sl = sum_list sl"
proof -
  have "fold (\<lambda>v sum. sum + v) sl t = t + sum_list sl" for t :: int64
    by (induction sl arbitrary: t) (simp_all add: algebra_simps)
  from this [of 0] show ?thesis by (simp add: SliceSum_def)
qed

text \<open>A value that can be compared.\<close>

fun comparable :: "'v iface \<Rightarrow> bool" where
  "comparable INil = True"
| "comparable (IVal t c v) = c"

lemma ifaceEq_comparable: "comparable v \<Longrightarrow> ifaceEq vv v = Ret (vv = v)" "comparable v \<Longrightarrow> ifaceEq v vv = Ret (v = vv)"
  by (cases vv; cases v; auto)+

lemma InSliceIface_set: "comparable v \<Longrightarrow> InSliceIface v sl = Ret (v \<in> set sl)"
  by (induction sl) (auto simp: ifaceEq_comparable)

lemma SliceDiff_filter: "\<forall>v\<in>set sl1. comparable v \<Longrightarrow> SliceDiff sl1 sl2 = Ret (filter (\<lambda>v. v \<notin> set sl2) sl1)"
  by (induction sl1) (simp_all add: InSliceIface_set)

lemma SliceIntersect_filter: "\<forall>v\<in>set sl1. comparable v \<Longrightarrow> SliceIntersect sl1 sl2 = Ret (filter (\<lambda>v. v \<in> set sl2) sl1)"
  by (induction sl1) (simp_all add: InSliceIface_set)

lemma uniqueFrom_distinct:
  assumes "\<forall>v\<in>set sl. comparable v" "distinct acc"
  shows "\<exists>u. uniqueFrom acc sl = Ret (acc @ u) \<and> distinct (acc @ u) \<and> set (acc @ u) = set acc \<union> set sl \<and> subseq u sl"
  using assms
proof (induction sl arbitrary: acc)
  case (Cons v sl)
  show ?case
  proof (cases "v \<in> set acc")
    case True
    with Cons.IH [of acc] Cons.prems show ?thesis
      by (auto simp: InSliceIface_set insert_absorb)
  next
    case False
    with Cons.IH [of "acc @ [v]"] Cons.prems obtain u where
      "uniqueFrom (acc @ [v]) sl = Ret ((acc @ [v]) @ u)" "distinct ((acc @ [v]) @ u)"
      "set ((acc @ [v]) @ u) = set (acc @ [v]) \<union> set sl" "subseq u sl" by auto
    with False Cons.prems show ?thesis by (intro exI [of _ "v # u"]) (auto simp: InSliceIface_set)
  qed
qed simp

lemma SliceUnique_distinct:
  assumes "\<forall>v\<in>set sl. comparable v"
  shows "\<exists>u. SliceUnique sl = Ret u \<and> distinct u \<and> set u = set sl \<and> subseq u sl"
  using uniqueFrom_distinct [of sl "[]"] assms by (auto simp: SliceUnique_def)


section \<open>The loops\<close>

lemma sint_plus_exact:
  fixes a b :: int64
  assumes "- (2 ^ 63) \<le> sint a + sint b" "sint a + sint b < 2 ^ 63"
  shows "sint (a + b) = sint a + sint b"
  using assms by (simp add: sint_word_ariths signed_take_bit_int_eq_self)

lemma sint_minus_exact:
  fixes a :: int64
  assumes "0 \<le> sint a"
  shows "sint (- a) = - sint a"
  using assms sint_less [of a] by (simp add: sint_word_ariths signed_take_bit_int_eq_self)

lemma rangeLoop_values:
  assumes "0 < sint step" "sint fin + sint step < 2 ^ 63" "nat (sint fin - sint i + 1) < n"
  shows "\<exists>xs. rangeLoop fin step i acc = Some (acc @ xs) \<and> map sint xs =
     map (\<lambda>k. sint i + int k * sint step) [0..<(if sint i \<le> sint fin then Suc (nat ((sint fin - sint i) div sint step)) else 0)]"
  using assms
proof (induction n arbitrary: i acc)
  case (Suc n)
  show ?case
  proof (cases "sint i \<le> sint fin")
    case True
    let ?len = "\<lambda>j. if j \<le> sint fin then Suc (nat ((sint fin - j) div sint step)) else 0"
    have forward: "sint (i + step) = sint i + sint step"
      using True Suc.prems sint_ge [of i] by (intro sint_plus_exact) auto
    have "nat (sint fin - (sint i + sint step) + 1) < n" using Suc.prems True by linarith
    then obtain xs where xs: "rangeLoop fin step (i + step) (acc @ [i]) = Some ((acc @ [i]) @ xs)"
      "map sint xs = map (\<lambda>k. sint i + sint step + int k * sint step) [0..<?len (sint i + sint step)]"
      using Suc.IH [of "i + step" "acc @ [i]"] Suc.prems True unfolding forward by auto
    have len: "?len (sint i) = Suc (?len (sint i + sint step))"
    proof (cases "sint i + sint step \<le> sint fin")
      case True
      have "(sint fin - sint i) div sint step = (sint fin - (sint i + sint step)) div sint step + 1"
        using Suc.prems(1) div_add_self2 [of "sint step" "sint fin - (sint i + sint step)"] by (simp add: algebra_simps)
      then show ?thesis
        using True Suc.prems(1) by (simp add: nat_add_distrib pos_imp_zdiv_nonneg_iff)
    next
      case False
      then show ?thesis using \<open>sint i \<le> sint fin\<close> Suc.prems(1) by (simp add: div_pos_pos_trivial)
    qed
    show ?thesis
      using True xs unfolding len
      by (intro exI [of _ "i # xs"]) (simp add: rangeLoop.simps [of fin step i] upt_conv_Cons map_Suc_upt [symmetric] algebra_simps del: upt_Suc)
  qed (simp add: rangeLoop.simps)
qed simp


lemma chunkLoop_chunks:
  assumes "0 < n" "sint sz = int n" "int (length sl) < 2 ^ 62" "n < length sl"
    and "sint i = int p" "sint fin = int (p + n)" "p \<le> length sl"
  shows "\<exists>cs. chunkLoop sl sz i fin acc = Some (Ret (acc @ cs)) \<and> concat cs = take ((length sl - p) div n * n) (drop p sl) \<and>
     length cs = (length sl - p) div n \<and> (\<forall>c\<in>set cs. length c = n)"
  using assms
proof (induction "length sl - p" arbitrary: i fin p acc rule: less_induct)
  case less
  have total: "sint (of_nat (length sl) :: int64) = int (length sl)"
    using less.prems(3) by (simp add: signed_of_nat signed_take_bit_int_eq_self)
  have bound: "sint (of_nat (length sl) - sz :: int64) = int (length sl) - int n"
    using sint_plus_exact [of "of_nat (length sl) :: int64" "- sz"] less.prems(2,3,4) total sint_minus_exact [of sz] by simp
  show ?case
  proof (cases "p + n \<le> length sl")
    case False
    then show ?thesis using less.prems bound by (simp add: chunkLoop.simps)
  next
    case True
    let ?chunk = "drop p (take (p + n) sl)"
    have moved: "sint (i + sz) = int (p + n)" "sint (fin + sz) = int (p + n + n)"
      using less.prems True by (simp_all add: sint_plus_exact)
    have shorter: "length sl - (p + n) < length sl - p" using True less.prems(1) by linarith
    obtain cs where cs: "chunkLoop sl sz (i + sz) (fin + sz) (acc @ [?chunk]) = Some (Ret ((acc @ [?chunk]) @ cs))"
      "concat cs = take ((length sl - (p + n)) div n * n) (drop (p + n) sl)" "length cs = (length sl - (p + n)) div n"
      "\<forall>c\<in>set cs. length c = n"
      using less.hyps [OF shorter less.prems(1-4) moved True, of "acc @ [?chunk]"] by auto
    have count: "(length sl - p) div n = Suc ((length sl - (p + n)) div n)"
      using True less.prems(1) le_div_geq [of n "length sl - p"] by simp
    have first: "?chunk = take n (drop p sl)" by (simp add: drop_take)
    have "take (n + m) (drop p sl) = take n (drop p sl) @ take m (drop (p + n) sl)" for m
      using take_add [of n m "drop p sl"] by (simp add: add.commute [of p])
    then have "concat (?chunk # cs) = take ((length sl - p) div n * n) (drop p sl)"
      by (simp add: count cs(2) first)
    moreover have "chunkLoop sl sz i fin acc = Some (Ret (acc @ ?chunk # cs))"
      using True less.prems(5,6) bound cs(1) nat_int [of "p + n"] by (simp add: chunkLoop.simps [of sl sz i])
    ultimately show ?thesis
      using cs(3,4) True count by (intro exI [of _ "?chunk # cs"]) simp
  qed
qed


text \<open>With a step of 0 the loops never end.\<close>

lemma chunkLoop_zero:
  assumes "int (length sl) < 2 ^ 62"
  shows "chunkLoop (sl :: 'a list) 0 0 0 acc = None"
proof -
  have total: "0 \<le> sint (of_nat (length sl) :: int64)"
    using assms by (simp add: signed_of_nat signed_take_bit_int_eq_self)
  have never: "\<not> (sl' = sl \<and> sz = 0 \<and> i = 0 \<and> fin = 0)" if "chunkLoop sl' sz i fin acc = Some ys" for sl' :: "'a list" and sz i fin :: int64 and acc ys
  proof (rule chunkLoop.raw_induct [OF _ that])
    fix loop and sl' :: "'a list" and sz i fin :: int64 and acc ys
    assume IH: "\<And>sl' sz i fin acc ys. loop sl' sz i fin acc = Some ys \<Longrightarrow> \<not> (sl' = sl \<and> sz = 0 \<and> i = 0 \<and> fin = 0)"
      and eq: "(if sint i \<le> sint (of_nat (length sl') - sz)
          then if 0 \<le> sint i \<and> sint i \<le> sint fin \<and> sint fin \<le> int (length sl')
            then loop sl' sz (i + sz) (fin + sz) (acc @ [drop (nat (sint i)) (take (nat (sint fin)) sl')]) else Some Panic
          else Some (Ret acc)) = Some ys"
    show "\<not> (sl' = sl \<and> sz = 0 \<and> i = 0 \<and> fin = 0)"
    proof
      assume same: "sl' = sl \<and> sz = 0 \<and> i = 0 \<and> fin = 0"
      from eq total same have "loop sl 0 0 0 (acc @ [[]]) = Some ys" by (clarsimp simp: if_split_asm)
      from IH [OF this] show False by simp
    qed
  qed
  show ?thesis using never [of sl 0 0 0 acc] by (cases "chunkLoop sl 0 0 0 acc") auto
qed

lemma rangeLoop_full: "rangeLoop (word_of_int (2 ^ 63 - 1)) step i acc = None"
proof -
  have all: "sint j \<le> sint (word_of_int (2 ^ 63 - 1) :: int64)" for j :: int64
    using sint_less [of j] by (simp add: signed_take_bit_int_eq_self)
  have never: "fin \<noteq> word_of_int (2 ^ 63 - 1)" if "rangeLoop fin step i acc = Some ys" for fin step i :: int64 and acc ys
  proof (rule rangeLoop.raw_induct [OF _ that])
    fix loop and fin step i :: int64 and acc ys
    assume IH: "\<And>fin step i acc ys. loop fin step i acc = Some ys \<Longrightarrow> fin \<noteq> word_of_int (2 ^ 63 - 1)"
      and eq: "(if sint i \<le> sint fin then loop fin step (i + step) (acc @ [i]) else Some acc) = Some ys"
    show "fin \<noteq> word_of_int (2 ^ 63 - 1)"
    proof
      assume fin: "fin = word_of_int (2 ^ 63 - 1)"
      from eq all [of i] have "loop fin step (i + step) (acc @ [i]) = Some ys" unfolding fin by simp
      from IH [OF this] fin show False by simp
    qed
  qed
  show ?thesis using never [of "word_of_int (2 ^ 63 - 1)" step i acc] by (cases "rangeLoop (word_of_int (2 ^ 63 - 1)) step i acc") auto
qed

lemma padLoop_half:
  "padLoop sz val i sl = sl @ replicate ((nat (sz - int (length sl) - i) + 1) div 2) val"
proof (induction sz val i sl rule: padLoop.induct)
  case (1 sz val i sl)
  show ?case
  proof (cases "i < sz - int (length sl)")
    case True
    then have "nat (sz - int (length sl) - i) + 1 = (nat (sz - int (length (sl @ [val])) - (i + 1)) + 1) + 2 \<or>
        nat (sz - int (length sl) - i) = 1 \<and> nat (sz - int (length (sl @ [val])) - (i + 1)) = 0" by (simp; linarith)
    then have "(nat (sz - int (length sl) - i) + 1) div 2 = Suc ((nat (sz - int (length (sl @ [val])) - (i + 1)) + 1) div 2)"
      by (elim disjE) auto
    then show ?thesis
      using 1 True by (simp add: padLoop.simps [of sz val i sl] replicate_append_same [symmetric])
  qed (simp add: padLoop.simps [of sz val i sl])
qed

text \<open>Padding adds half of what is missing, rounded up, at the end.\<close>

lemma SlicePad_half:
  "SlicePad sl sz val = sl @ replicate ((nat (sz - int (length sl)) + 1) div 2) val"
  by (auto simp: SlicePad_def padLoop_half)

lemma mset_swapAt: "a < length sl \<Longrightarrow> b < length sl \<Longrightarrow> mset (swapAt a b sl) = mset sl"
  by (simp add: swapAt_def mset_swap)

lemma shuffleFrom_mset:
  assumes "\<forall>k n. 0 < n \<longrightarrow> intn k n < n" "sl \<noteq> [] \<or> rest = 0"
  shows "\<exists>ys. shuffleFrom intn i rest sl = Ret ys \<and> mset ys = mset sl"
  using assms(2)
proof (induction rest arbitrary: i sl)
  case (Suc rest)
  then have lt: "intn k (length sl) < length sl" for k using assms(1) by simp
  with Suc.IH [of "swapAt (intn (2 * i) (length sl)) (intn (2 * i + 1) (length sl)) sl" "Suc i"] Suc.prems
  show ?case by (auto simp: Let_def mset_swapAt) (auto simp: swapAt_def)
qed simp

lemma SliceShuffle_mset:
  "\<forall>k n. 0 < n \<longrightarrow> intn k n < n \<Longrightarrow> \<exists>ys. SliceShuffle intn sl = Ret ys \<and> mset ys = mset sl"
  unfolding SliceShuffle_def by (rule shuffleFrom_mset) auto


section \<open>What chunking and ranging guarantee\<close>

lemma SliceChunk_parts:
  assumes "int (length sl) < 2 ^ 62"
  shows "0 < sint sz \<Longrightarrow> sint sz < int (length sl) \<Longrightarrow>
      \<exists>cs. SliceChunk sl sz = Ret cs \<and> (\<forall>c\<in>set cs. int (length c) = sint sz) \<and>
        length cs = length sl div nat (sint sz) \<and> concat cs = take (length cs * nat (sint sz)) sl"
    and "int (length sl) \<le> sint sz \<Longrightarrow> SliceChunk sl sz = Ret [sl]"
    and "sl \<noteq> [] \<Longrightarrow> SliceChunk sl 0 = Diverge"
proof -
  assume "0 < sint sz" "sint sz < int (length sl)"
  moreover from this obtain n where n: "sint sz = int n" by (metis nonneg_int_cases less_imp_le)
  ultimately obtain cs where "chunkLoop sl sz 0 sz [] = Some (Ret cs)" "concat cs = take (length sl div n * n) sl"
    "length cs = length sl div n" "\<forall>c\<in>set cs. length c = n"
    using chunkLoop_chunks [of n sz sl 0 0 sz "[]"] assms by auto
  then show "\<exists>cs. SliceChunk sl sz = Ret cs \<and> (\<forall>c\<in>set cs. int (length c) = sint sz) \<and>
      length cs = length sl div nat (sint sz) \<and> concat cs = take (length cs * nat (sint sz)) sl"
    using \<open>sint sz < int (length sl)\<close> by (auto simp: SliceChunk_def n)
qed (use assms chunkLoop_zero [of sl "[]"] in \<open>simp_all add: SliceChunk_def\<close>)

text \<open>
  Chunks are full, and what does not fill one is lost. A slice that is longer than the size is cut into
  chunks of exactly that size, as many as fit, which put together are the front of the slice; the elements
  behind the last full chunk are in none of them. A slice that is not longer is one chunk; a size of 0
  makes the loop go on for ever.
\<close>

theorem SliceChunk_full:
  assumes "int (length sl) < 2 ^ 62"
  shows "(0 < sint sz \<longrightarrow> sint sz < int (length sl) \<longrightarrow>
      (\<exists>cs. SliceChunk sl sz = Ret cs \<and> (\<forall>c\<in>set cs. int (length c) = sint sz) \<and>
        length cs = length sl div nat (sint sz) \<and> concat cs = take (length cs * nat (sint sz)) sl)) \<and>
    (int (length sl) \<le> sint sz \<longrightarrow> SliceChunk sl sz = Ret [sl]) \<and>
    (sl \<noteq> [] \<longrightarrow> SliceChunk sl 0 = Diverge)"
  using SliceChunk_parts [OF assms] by blast

theorem SliceChunk_full_witness:
  "\<exists>cs. SliceChunk [1, 2, 3, 4, 5 :: nat] 2 = Ret cs \<and> concat cs = [1, 2, 3, 4]"
  using SliceChunk_full [of "[1, 2, 3, 4, 5 :: nat]" 2] by auto

lemma SliceRange_parts:
  shows "0 < sint step \<Longrightarrow> sint fin + sint step < 2 ^ 63 \<Longrightarrow>
      \<exists>xs. SliceRange start fin step = Ret xs \<and> map sint xs =
        map (\<lambda>k. sint start + int k * sint step)
          [0..<(if sint start \<le> sint fin then Suc (nat ((sint fin - sint start) div sint step)) else 0)]"
    and "SliceRange start (word_of_int (2 ^ 63 - 1)) step = Diverge"
proof -
  assume "0 < sint step" "sint fin + sint step < 2 ^ 63"
  from rangeLoop_values [OF this lessI, of start "[]"]
  show "\<exists>xs. SliceRange start fin step = Ret xs \<and> map sint xs =
      map (\<lambda>k. sint start + int k * sint step)
        [0..<(if sint start \<le> sint fin then Suc (nat ((sint fin - sint start) div sint step)) else 0)]"
    by (auto simp: SliceRange_def)
qed (simp add: SliceRange_def rangeLoop_full [simplified])

text \<open>
  A range counts in steps. For a positive step, and an end that leaves room for one step more, a range
  has the values from the start in steps up to the end, each as a whole number without wrap-around, and
  none if the start is behind the end; a range that ends at the greatest number never returns.
\<close>

theorem SliceRange_values:
  "(0 < sint step \<longrightarrow> sint fin + sint step < 2 ^ 63 \<longrightarrow>
      (\<exists>xs. SliceRange start fin step = Ret xs \<and> map sint xs =
        map (\<lambda>k. sint start + int k * sint step)
          [0..<(if sint start \<le> sint fin then Suc (nat ((sint fin - sint start) div sint step)) else 0)])) \<and>
    SliceRange start (word_of_int (2 ^ 63 - 1)) step = Diverge"
  using SliceRange_parts by blast

theorem SliceRange_values_witness:
  "\<exists>xs. SliceRange 1 10 4 = Ret xs \<and> map sint xs = [1, 5, 9]"
  using SliceRange_values [of 4 10 1] by (simp add: upt_rec)

end
