(* ===== verification/ConfigRegistry.thy ===== *)
theory ConfigRegistry
  imports Prelude
begin

text \<open>
  The registry behind the configuration endpoint (\<^verbatim>\<open>util/configz/configz.go\<close>) and the reading of a
  goroutine's number (\<^verbatim>\<open>util/goroutine.go\<close>). A registered configuration is a cell known by its
  number; the encoding of values as JSON is a parameter. The lock makes each operation one step.
\<close>

section \<open>The registry\<close>

record 'v configRegistry =
  cgConfigs :: "(string \<times> nat) list"
  cgVals :: "nat \<Rightarrow> 'v option"
  cgNext :: nat

definition configNew :: "string \<Rightarrow> 'v configRegistry \<Rightarrow> (nat option \<times> error) \<times> 'v configRegistry" where
  "configNew name r =
     (if name \<in> fst ` set (cgConfigs r)
      then ((None, Some (Err (''register config '' @ name @ '' twice''))), r)
      else ((Some (cgNext r), None), r\<lparr>cgConfigs := (name, cgNext r) # cgConfigs r,
        cgVals := (cgVals r)(cgNext r := None), cgNext := Suc (cgNext r)\<rparr>))"

definition configDelete :: "string \<Rightarrow> 'v configRegistry \<Rightarrow> 'v configRegistry" where
  "configDelete name r = r\<lparr>cgConfigs := filter (\<lambda>(n, c). n \<noteq> name) (cgConfigs r)\<rparr>"

definition configSet :: "nat \<Rightarrow> 'v \<Rightarrow> 'v configRegistry \<Rightarrow> 'v configRegistry" where
  "configSet c val r = r\<lparr>cgVals := (cgVals r)(c := Some val)\<rparr>"

text \<open>What is shown: the entries by name, each with its value or null.\<close>

definition configEntries :: "'v configRegistry \<Rightarrow> (string \<times> 'v option) list" where
  "configEntries r = map (\<lambda>(n, c). (n, cgVals r c)) (sort_key fst (cgConfigs r))"

definition writeConfigs :: "((string \<times> 'v option) list \<Rightarrow> gerr + string) \<Rightarrow> 'v configRegistry \<Rightarrow> string \<times> error" where
  "writeConfigs marshal r =
     (case marshal (configEntries r) of
        Inl e \<Rightarrow> ([], Some (Err (''error marshaling json: '' @ errText e)))
      | Inr b \<Rightarrow> (b, None))"

text \<open>The reply of the handler: status and body.\<close>

definition configHandle :: "((string \<times> 'v option) list \<Rightarrow> gerr + string) \<Rightarrow> 'v configRegistry \<Rightarrow> nat \<times> string" where
  "configHandle marshal r =
     (case writeConfigs marshal r of (b, err) \<Rightarrow> if err \<noteq> None then (500, fmtError err) else (200, b))"

definition emptyRegistry :: "'v configRegistry" where
  "emptyRegistry = \<lparr>cgConfigs = [], cgVals = (\<lambda>_. None), cgNext = 0\<rparr>"

section \<open>Names and cells\<close>

definition wellRegistered :: "'v configRegistry \<Rightarrow> bool" where
  "wellRegistered r \<longleftrightarrow> distinct (map fst (cgConfigs r)) \<and> distinct (map snd (cgConfigs r)) \<and>
     (\<forall>c\<in>set (map snd (cgConfigs r)). c < cgNext r)"

lemma empty_wellRegistered: "wellRegistered emptyRegistry"
  by (simp add: wellRegistered_def emptyRegistry_def)

lemma new_wellRegistered: "wellRegistered r \<Longrightarrow> wellRegistered (snd (configNew name r))"
  by (auto simp: wellRegistered_def configNew_def image_iff less_Suc_eq)

lemma delete_wellRegistered: "wellRegistered r \<Longrightarrow> wellRegistered (configDelete name r)"
  by (auto simp: wellRegistered_def configDelete_def distinct_map_filter)

lemma set_wellRegistered: "wellRegistered r \<Longrightarrow> wellRegistered (configSet c v r)"
  by (simp add: wellRegistered_def configSet_def)

lemma entries_of:
  assumes "wellRegistered r"
  shows "map_of (configEntries r) name = map_option (cgVals r) (map_of (cgConfigs r) name)"
proof -
  have "map_of (sort_key fst (cgConfigs r)) = map_of (cgConfigs r)"
    using assms by (intro map_of_eqI) (auto simp: wellRegistered_def distinct_map intro!: map_of_eqI)
  then show ?thesis by (simp add: configEntries_def map_of_map)
qed


text \<open>A new name that is set is shown with its value, and the others as before; a deleted one is not shown.\<close>

lemma config_shown:
  assumes "wellRegistered r" "configNew name r = ((Some c, None), r')"
  shows "map_of (configEntries (configSet c v r')) = (map_of (configEntries r))(name \<mapsto> Some v)"
proof
  fix n
  have r': "wellRegistered (configSet c v r')"
    using new_wellRegistered [OF assms(1), of name] assms(2) set_wellRegistered by simp
  have fresh: "d \<noteq> cgNext r" if "map_of (cgConfigs r) m = Some d" for m d
    using assms(1) map_of_SomeD [OF that] by (force simp: wellRegistered_def)
  have c: "c = cgNext r" and added: "cgConfigs (configSet c v r') = (name, c) # cgConfigs r"
    "cgVals (configSet c v r') = (cgVals r)(c := Some v)"
    using assms(2) by (auto simp: configNew_def configSet_def split: if_splits)
  show "map_of (configEntries (configSet c v r')) n = ((map_of (configEntries r))(name \<mapsto> Some v)) n"
    using fresh [of n] c unfolding entries_of [OF r'] entries_of [OF assms(1)] added fun_upd_def
    by (cases "map_of (cgConfigs r) n") auto
qed

lemma config_deleted:
  assumes "wellRegistered r"
  shows "map_of (configEntries (configDelete name r)) = (map_of (configEntries r))(name := None)"
proof
  fix n
  have "map_of (filter (\<lambda>(m, c). m \<noteq> name) xs) n = (if n = name then None else map_of xs n)" for xs :: "(string \<times> nat) list"
    by (induction xs) auto
  from this [of "cgConfigs r"]
  show "map_of (configEntries (configDelete name r)) n = ((map_of (configEntries r))(name := None)) n"
    unfolding entries_of [OF delete_wellRegistered [OF assms]] entries_of [OF assms] fun_upd_def by (simp add: configDelete_def)
qed

lemma config_twice: "name \<in> fst ` set (cgConfigs r) \<Longrightarrow> configNew name r = ((None, Some (Err (''register config '' @ name @ '' twice''))), r)"
  by (simp add: configNew_def)

section \<open>The number of a goroutine\<close>

text \<open>\<open>strconv.ParseUint\<close> in base 10 and 64 bits: 0 on a syntax error, the greatest value out of range.\<close>

definition parseUint :: "string \<Rightarrow> nat" where
  "parseUint s = (if s = [] \<or> (\<exists>c\<in>set s. \<not> isDigit c) then 0 else min (readNat s) (2 ^ 64 - 1))"

definition trimPrefix :: "string \<Rightarrow> string \<Rightarrow> string" where
  "trimPrefix p s = (if prefix p s then drop (length p) s else s)"

text \<open>From the first 64 bytes of the stack trace; without a blank the slice expression panics.\<close>

definition GetGID :: "string \<Rightarrow> nat outcome" where
  "GetGID stack =
     (let b = trimPrefix ''goroutine '' (take 64 stack)
      in if CHR '' '' \<in> set b then Ret (parseUint (takeWhile (\<lambda>c. c \<noteq> CHR '' '') b)) else Panic)"

lemma showNat_length: "n < 10 ^ k \<Longrightarrow> 0 < k \<Longrightarrow> length (showNat n) \<le> k"
proof (induction n arbitrary: k rule: showNat.induct)
  case (1 n)
  show ?case
  proof (cases "n < 10")
    case False
    then obtain j where k: "k = Suc j" "0 < j" using 1(2,3) by (cases k; cases "k - 1") auto
    then have "length (showNat (n div 10)) \<le> j" using 1(1) [of j] 1(2) False by simp
    then show ?thesis using False k by (subst showNat.simps) simp
  qed (use 1 in \<open>subst showNat.simps, simp\<close>)
qed

text \<open>A trace that begins as the runtime writes it gives back the number.\<close>

lemma GetGID_stack:
  assumes "n < 2 ^ 64"
  shows "GetGID (''goroutine '' @ showNat n @ '' '' @ rest) = Ret n"
proof -
  have len: "length (showNat n) \<le> 20" using assms by (intro showNat_length) simp_all
  have digits: "\<forall>c\<in>set (showNat n). isDigit c \<and> c \<noteq> CHR '' ''"
    using showNat_digits [of n] by (auto simp: isDigit_def)
  have cut: "take 64 (''goroutine '' @ showNat n @ '' '' @ rest) =
      ''goroutine '' @ showNat n @ '' '' @ take (53 - length (showNat n)) rest"
    using len by (simp add: take_Cons')
  have "takeWhile (\<lambda>c. c \<noteq> CHR '' '') (showNat n @ '' '' @ t) = showNat n" for t
    using digits by (simp add: takeWhile_append2)
  then show ?thesis
    using digits assms unfolding GetGID_def cut by (simp add: trimPrefix_def parseUint_def)
qed

end
