(* ===== verification/Spec2Isabelle.thy ===== *)
theory Spec2Isabelle
  imports Prelude ApiTypes GoRegex ClusterText Placement Assign Compose World Effects Commands Guarded Objects Status Lifecycle Plans
    Repair RepairPlans SyncLoop Isolation UpgradePlans WorkQueue QueueLoop Retries Listers Memory DeepCopy Informers Startup
    ClientConfig ClusterClient FakeClient Registration FakeTracker SliceUtil ConfigRegistry
begin

text \<open>
  A verification of the operator manager for Redis clusters on Kubernetes. All paths are below
  \<^verbatim>\<open>src/\<close>.

  \<^bold>\<open>The program.\<close> The process (\<^verbatim>\<open>cmd/operator-manager\<close>) creates the custom resource definition of a
  RedisCluster, may elect a leader, and starts the operator of \<^verbatim>\<open>pkg/operator/redis\<close>. Informers watch
  RedisClusters and stateful sets; their handlers put the key of the resource concerned into a rate
  limited work queue; workers take keys and run one pass each. A pass copies the cached resource and
  brings the world nearer to it: it creates service and stateful set, waits for the pods, reads the node
  table through \<^verbatim>\<open>redis-cli\<close>, chooses masters and slaves, sends \<^verbatim>\<open>redis-trib.rb\<close> commands into a
  pod, and writes the status. A failing pass is retried with a growing delay, 15 times at most.

  \<^bold>\<open>Conventions.\<close> A Go function is a HOL function into \<open>outcome\<close> (\<open>Ret\<close>, \<open>Panic\<close>, \<open>Diverge\<close>), or, when it has
  effects, a state-passing function \<open>'a go\<close> over \<open>sys\<close>, which holds an unknown world, the RedisCluster
  objects by address, and the trace of calls. Kubernetes, the exec stream, clock and ticker are fields
  of the record \<open>RedisClusterOperator\<close>, functions on the unknown world, about which nothing is assumed
  unless a theorem says so. Errors are values (\<open>error\<close>, nil is \<open>None\<close>). An \<open>int32\<close> or \<open>int64\<close> is a word
  read by \<open>sint\<close>; a pointer, map or slice that may be nil is an \<open>option\<close>. A theorem whose text begins
  with a claim number is a property of the development.

  \<^bold>\<open>Theories, in the order of the code.\<close>
  \<^item> \<open>Prelude\<close>: outcomes, the state form, \<open>strings\<close> and \<open>strconv\<close>, errors, words. \<open>ApiTypes\<close>: the types of
    \<^verbatim>\<open>pkg/apis/redis/v1alpha1/types.go\<close> and \<^verbatim>\<open>pkg/operator/redis/types.go\<close>, one record per struct.
  \<^item> \<open>GoRegex\<close>, \<open>ClusterText\<close>: the two patterns of the operator, run by an executable matcher proved sound
    and leftmost, and the readers \<open>parseClusterNodes\<close>, \<open>parseClusterInfo\<close>, \<open>parseTribInfo\<close>
    (\<^verbatim>\<open>sync_rediscluster.go\<close>); printers of the same formats give round trips.
  \<^item> \<open>Placement\<close>, \<open>Assign\<close>, \<open>Compose\<close>: who becomes master and who slave of whom. \<open>assignMasterSlaveIP\<close> at a
    creation and \<open>composeMasterSlaveIP\<close> at a repair (\<^verbatim>\<open>check_rediscluster.go\<close>): partition into masters
    and slaves, masters spread over hosts, a slave not on its master's host where that is possible, and
    the exact inputs for which the loops panic or never end. The locale \<open>slave_picker\<close> is the contract of
    the choice of a slave.
  \<^item> \<open>World\<close>, \<open>Effects\<close>, \<open>Commands\<close>, \<open>Guarded\<close>: the environment, \<open>wait.Poll\<close>, every command sent into a pod, and
    a calculus of traces: \<open>yields\<close> and \<open>emits\<close> relate the end of a run to the events it adds, composed
    under the locale \<open>trace_discipline\<close> and those that extend it up to \<open>lifecycle_trace\<close>; \<open>guarded_batch\<close>
    is the contract of the three loops that send commands, each behind a good check of the cluster.
  \<^item> \<open>Objects\<close>, \<open>Status\<close>: the service and the stateful set that are built, and \<open>updateRedisClusterStatus\<close>
    with the comparison that decides whether anything is written.
  \<^item> \<open>Lifecycle\<close>, \<open>Plans\<close>: creation, scaling, upgrade and deletion; they refine plans, lists of commands
    computed by pure functions from what was read: an initial part of the plan is sent, and all of it
    when success is reported. \<open>Repair\<close>, \<open>RepairPlans\<close>: the same for \<open>checkAndUpdateRedisClusterStatus\<close>.
  \<^item> \<open>SyncLoop\<close>, \<open>Isolation\<close>: \<open>sync\<close> of \<^verbatim>\<open>redis_operator.go\<close>: what every pass guarantees whatever the
    environment replies, and that it changes no object that it did not allocate. \<open>UpgradePlans\<close>: the plan of
    \<open>upgradeRedisCluster\<close>, growth and then distribution of the slots, and the statement for all of the
    operator: the commands of every pass are an initial part of one plan.
  \<^item> \<open>WorkQueue\<close>, \<open>QueueLoop\<close>, \<open>Retries\<close>: the vendored queue, the event handlers and the workers; a step
    relation over queue, workers and goroutines with its invariant, a refinement of pending and active
    keys, progress of dirty keys, the way of a failing key and the bounds of the delays. \<open>Listers\<close>: the lister
    of \<^verbatim>\<open>pkg/clients/listers\<close> over a store with the contract \<open>cluster_cache\<close>, and the way of an event from
    the stateful set over the key to the same resource.
  \<^item> \<open>Memory\<close>, \<open>DeepCopy\<close>: the resource as it lies in memory and the generated deep copies of
    \<^verbatim>\<open>zz_generated.deepcopy.go\<close>; the locales \<open>cloner\<close>, \<open>pointer\<close> and \<open>slice\<close> are the contract of a copy,
    interpreted for every type, and a copy shares nothing with its original. That is what \<open>sync\<close> relies
    on when it works on a copy of the cached object.
  \<^item> \<open>Informers\<close>, \<open>Startup\<close>: the informer factory of \<^verbatim>\<open>pkg/clients/informers\<close>, and the way from \<open>main\<close> over
    options, clients, definition, HTTP server and leader election to running informers and workers.
    \<open>ClientConfig\<close>: the configurations of the clients as cells of a memory, since some are written in place
    and some copied (\<^verbatim>\<open>client_builder.go\<close>, \<^verbatim>\<open>clientset.go\<close>, \<^verbatim>\<open>redis_client.go\<close>, \<open>createClients\<close>).
  \<^item> \<open>ClusterClient\<close>, \<open>FakeClient\<close>: the requests of the typed client and how a server reads them, and the
    fake client that tests use. \<open>Registration\<close>, \<open>FakeTracker\<close>: the schemes, and the fake clientset over its
    object tracker, which refines a map that starts empty. \<open>SliceUtil\<close>, \<open>ConfigRegistry\<close>: the helpers of
    \<^verbatim>\<open>util\<close>.

  \<^bold>\<open>Loops and bounds.\<close> Loops over data are structural recursions or have a measure. \<open>wait.Poll\<close> with a timeout is
  \<open>waitFor\<close> with as many ticks as fit between interval and timeout, which is all the ticker gives; without a
  timeout it is \<open>waitForever\<close>, a partial function whose \<open>None\<close> is \<open>Diverge\<close>. The dealing loops of the two
  assignments, \<open>SliceChunk\<close> and \<open>SliceRange\<close> are partial functions as well: theorems state for which inputs
  they return and for which they do not. There is no other fuel.

  \<^bold>\<open>Interleaving.\<close> Event handlers, workers, goroutines and the delaying queue interleave at the queue's
  operations, each of which is atomic under its lock. Two passes over different resources share the
  environment; a pass is followed against an arbitrary environment, so what others do in between is
  part of the replies.

  \<^bold>\<open>Not modelled.\<close> Logging and the recording of Kubernetes events; transports, codecs,
  conversions and defaults of the client libraries; the retries, headers and waits of a request; the leader election
  beyond its outcome; metrics and the clock of the work queue (a delayed item may come due at any
  time); fields of Kubernetes objects that the operator only copies, which are opaque text.
\<close>

section \<open>Across components\<close>

text \<open>
  The client talks to the resource that the process defines: group, version and plural of the definition
  are those a server reads out of every request.
\<close>

lemma definition_serves_client:
  assumes "sent enc ns c = Inr h"
  shows "riAPIGroup (fst (NewRequestInfo h)) = crdGroup redisClusterCRD \<and>
    riAPIVersion (fst (NewRequestInfo h)) = crdVersion redisClusterCRD \<and>
    riResource (fst (NewRequestInfo h)) = crdPlural redisClusterCRD"
  by (simp add: sent_read_back [OF assms] calledInfo_def redisClusterCRD_def)

text \<open>The generic access finds the informers of exactly that resource.\<close>

lemma definition_has_informer:
  "(\<exists>i f'. ForResource (crdGroup redisClusterCRD, crdVersion redisClusterCRD, crdPlural redisClusterCRD) f = (Inr i, f'))"
  by (simp add: ForResource_def redisClusterCRD_def split: prod.splits)

text \<open>The kinds of the definition are registered in the scheme of the client, the list kind included.\<close>

lemma definition_kinds_registered:
  "recognizes clientScheme (crdGroup redisClusterCRD, crdVersion redisClusterCRD, crdKind redisClusterCRD)"
  "recognizes clientScheme (crdGroup redisClusterCRD, crdVersion redisClusterCRD, crdListKind redisClusterCRD)"
  using clientScheme_clusters(3,4) by (simp_all add: redisClusterCRD_def)

text \<open>Every client that the process builds for an operator speaks the group of the definition.\<close>

lemma definition_group_of_clients:
  assumes "namedClient lib name (Done cs)" and "crConfigOf cs = Some c"
  shows "cfGroupVersion c = Some (crdGroup redisClusterCRD, crdVersion redisClusterCRD)"
  using assms by (auto simp: namedClient_def redisClusterCRD_def)

end
